theory Spec2Isabelle
  imports Main "HOL-Library.Char_ord" "HOL-Library.List_Lexorder"
begin

unbundle bit_operations_syntax

section \<open>Types\<close>

text \<open>
  Modelled from the spec: the type classes (\<open>Type\<close>, \<open>IntegralType\<close>, \<open>ScalarType\<close>,
  \<open>PackedArrayType\<close>, ...) are declared in symbols/TypeSymbols.h, which is not part of the
  sources at hand. The variants below are those of the data model (section 3 of the
  specification); enumeration members keep the names the sources use for them
  (\<open>ScalarType::Bit\<close>, \<open>PredefinedIntegerType::ShortInt\<close>, \<open>FloatingType::Real\<close>, ...),
  with a prefix where two enumerations share a member name. A struct or union and an enum
  are identified by their names; an enum carries its base type, an integral type from
  which it takes its width, its signedness and its four-state-ness.
\<close>

datatype IntegralFlags = Signed | FourState | Reg

datatype ScalarKind = ScalarBit | ScalarLogic | ScalarReg

datatype PredefinedIntegerKind = ShortInt | IntKind | LongInt | Byte | IntegerKind | Time

datatype FloatingKind = Real | RealTime | ShortReal

datatype ConstantRange = ConstantRange (left: int) (right: int)

datatype Type =
    ErrorType
  | VoidType
  | NullType
  | CHandleType
  | StringType
  | EventType
  | ScalarType ScalarKind bool
  | PredefinedIntegerType PredefinedIntegerKind
  | FloatingType FloatingKind
  | PackedArrayType Type ConstantRange
  | StructUnionType string
  | EnumType string Type
  | TypeAliasType string Type

text \<open>
  A \<open>bitmask<IntegralFlags>\<close> is a set of flags; \<open>IntegralFlags::Unsigned\<close> and
  \<open>IntegralFlags::TwoState\<close> are the empty mask. \<open>bits\<close> is the underlying integer: one bit
  per flag (the scalar types are tabulated by these three bits).
\<close>

definition bits :: "IntegralFlags set \<Rightarrow> nat" where
  "bits f = (if Signed \<in> f then 1 else 0) + (if FourState \<in> f then 2 else 0)
          + (if Reg \<in> f then 4 else 0)"

text \<open>\<open>ConstantRange::width\<close>: the number of elements of a closed range.\<close>

definition rangeWidth :: "ConstantRange \<Rightarrow> nat" where
  "rangeWidth r = nat \<bar>left r - right r\<bar> + 1"

fun getCanonicalType :: "Type \<Rightarrow> Type" where
  "getCanonicalType (TypeAliasType n t) = getCanonicalType t"
| "getCanonicalType t = t"

fun isIntegral :: "Type \<Rightarrow> bool" where
  "isIntegral (ScalarType k s) = True"
| "isIntegral (PredefinedIntegerType k) = True"
| "isIntegral (PackedArrayType e r) = isIntegral e"
| "isIntegral (EnumType n b) = isIntegral b"
| "isIntegral (TypeAliasType n t) = isIntegral t"
| "isIntegral _ = False"

definition isFloating :: "Type \<Rightarrow> bool" where
  "isFloating t = (case getCanonicalType t of FloatingType k \<Rightarrow> True | _ \<Rightarrow> False)"

definition isNumeric :: "Type \<Rightarrow> bool" where
  "isNumeric t = (isIntegral t \<or> isFloating t)"

definition isScalar :: "Type \<Rightarrow> bool" where
  "isScalar t = (case getCanonicalType t of ScalarType k s \<Rightarrow> True | _ \<Rightarrow> False)"

definition isError :: "Type \<Rightarrow> bool" where
  "isError t = (getCanonicalType t = ErrorType)"

definition isVoid :: "Type \<Rightarrow> bool" where
  "isVoid t = (getCanonicalType t = VoidType)"

definition isNull :: "Type \<Rightarrow> bool" where
  "isNull t = (getCanonicalType t = NullType)"

definition isCHandle :: "Type \<Rightarrow> bool" where
  "isCHandle t = (getCanonicalType t = CHandleType)"

definition isString :: "Type \<Rightarrow> bool" where
  "isString t = (getCanonicalType t = StringType)"

definition isAggregate :: "Type \<Rightarrow> bool" where
  "isAggregate t = (case getCanonicalType t of StructUnionType n \<Rightarrow> True | _ \<Rightarrow> False)"

text \<open>
  Bit width: one for a scalar, the standard widths of the predefined integers, the number
  of elements times the element width for a packed array, the width of the base type for
  an enum, 64 for real and realtime and 32 for shortreal, zero for every other type.
\<close>

fun getBitWidth :: "Type \<Rightarrow> nat" where
  "getBitWidth (ScalarType k s) = 1"
| "getBitWidth (PredefinedIntegerType ShortInt) = 16"
| "getBitWidth (PredefinedIntegerType IntKind) = 32"
| "getBitWidth (PredefinedIntegerType LongInt) = 64"
| "getBitWidth (PredefinedIntegerType Byte) = 8"
| "getBitWidth (PredefinedIntegerType IntegerKind) = 32"
| "getBitWidth (PredefinedIntegerType Time) = 64"
| "getBitWidth (FloatingType Real) = 64"
| "getBitWidth (FloatingType RealTime) = 64"
| "getBitWidth (FloatingType ShortReal) = 32"
| "getBitWidth (PackedArrayType e r) = getBitWidth e * rangeWidth r"
| "getBitWidth (EnumType n b) = getBitWidth b"
| "getBitWidth (TypeAliasType n t) = getBitWidth t"
| "getBitWidth _ = 0"

text \<open>
  Signedness and four-state-ness of an integral type. An enum takes both from its base
  type, a packed array from its element type: \<open>IntegerLiteral::fromSyntax\<close> builds the type of a signed or four-state
  vector literal as \<open>getType(width, flags)\<close>, a packed array of the scalar type of these
  flags.
\<close>

fun isSigned :: "Type \<Rightarrow> bool" where
  "isSigned (ScalarType k s) = s"
| "isSigned (PredefinedIntegerType k) = (k \<noteq> Time)"
| "isSigned (PackedArrayType e r) = isSigned e"
| "isSigned (EnumType n b) = isSigned b"
| "isSigned (TypeAliasType n t) = isSigned t"
| "isSigned _ = False"

fun isFourState :: "Type \<Rightarrow> bool" where
  "isFourState (ScalarType k s) = (k \<noteq> ScalarBit)"
| "isFourState (PredefinedIntegerType k) = (k = IntegerKind \<or> k = Time)"
| "isFourState (PackedArrayType e r) = isFourState e"
| "isFourState (EnumType n b) = isFourState b"
| "isFourState (TypeAliasType n t) = isFourState t"
| "isFourState _ = False"

text \<open>
  \<open>IntegralType::isDeclaredReg\<close>: the innermost element of the type is the scalar reg. An
  enum is no packed array and no scalar, so it is not declared reg, whatever its base.
\<close>

fun isDeclaredReg :: "Type \<Rightarrow> bool" where
  "isDeclaredReg (ScalarType k s) = (k = ScalarReg)"
| "isDeclaredReg (PackedArrayType e r) = isDeclaredReg e"
| "isDeclaredReg (TypeAliasType n t) = isDeclaredReg t"
| "isDeclaredReg _ = False"

definition getIntegralFlags :: "Type \<Rightarrow> IntegralFlags set" where
  "getIntegralFlags t =
     (if \<not> isIntegral t then {}
      else (if isSigned t then {Signed} else {})
         \<union> (if isFourState t then {FourState} else {})
         \<union> (if isDeclaredReg t then {Reg} else {}))"

text \<open>
  Matching: the two types are structurally identical once alias names are stripped,
  widths and flags included.
\<close>

definition isMatching :: "Type \<Rightarrow> Type \<Rightarrow> bool" where
  "isMatching a b = (getCanonicalType a = getCanonicalType b)"

definition isEquivalent :: "Type \<Rightarrow> Type \<Rightarrow> bool" where
  "isEquivalent a b = isMatching a b"

text \<open>
  Assignment compatibility, for the variants of the data model: numeric to numeric, null
  to chandle or string, and equivalent aggregates.
\<close>

definition isAssignmentCompatible :: "Type \<Rightarrow> Type \<Rightarrow> bool" where
  "isAssignmentCompatible lhs rhs =
     ((isNumeric lhs \<and> isNumeric rhs)
      \<or> (isNull rhs \<and> (isCHandle lhs \<or> isString lhs))
      \<or> (isAggregate lhs \<and> isAggregate rhs \<and> isEquivalent lhs rhs))"

text \<open>
  \<open>SVInt::BITWIDTH_BITS\<close> and \<open>SVInt::MAX_BITS\<close> are declared in numeric/SVInt.h, which is not
  part of the sources at hand: a bit width takes 24 bits, which leaves the upper byte of a
  32-bit key for the flags.
\<close>

definition BITWIDTH_BITS :: nat where
  "BITWIDTH_BITS = 24"

definition MAX_BITS :: nat where
  "MAX_BITS = 2 ^ BITWIDTH_BITS - 1"


section \<open>Syntax (shape only)\<close>

text \<open>
  The syntax nodes that \<open>Compilation::addSyntaxTree\<close> and \<open>Compilation::findInstantiations\<close>
  look at. \<open>ModuleDeclarationSyntax\<close> serves module, interface and program declarations; it
  carries the name of its header and its members. The items of a case generate are kept
  with their kind; every node the traversal has no case for is \<open>OtherNode\<close>.
\<close>

datatype DeclarationKind = ModuleDeclaration | InterfaceDeclaration | ProgramDeclaration

datatype CaseItemKind = DefaultCaseItem | StandardCaseItem | OtherCaseItem

datatype SyntaxNode =
    CompilationUnit "SyntaxNode list"
  | HierarchyInstantiation string
  | ModuleDeclarationSyntax DeclarationKind string "SyntaxNode list"
  | GenerateRegion "SyntaxNode list"
  | GenerateBlock "SyntaxNode list"
  | LoopGenerate SyntaxNode
  | CaseGenerate "(CaseItemKind \<times> SyntaxNode) list"
  | IfGenerate SyntaxNode "SyntaxNode option"
  | OtherNode

record SyntaxTree =
  treeSourceManager :: nat
  treeRoot :: SyntaxNode

section \<open>The compilation (source/compilation/Compilation.cpp)\<close>

datatype error = AssertionFailure | LogicError string

datatype DiagCode =
    ExpressionNotConstant | NotAValue | MemberAccessNotStructUnion | UnknownMember
  | NoImplicitConversion | BadAssignment | ExpressionNotAssignable | BadUnaryExpression
  | BadBinaryExpression | BadIndexExpression | CannotIndexScalar | IndexMustBeIntegral
  | BadConcatExpression | ValueExceedsMaxBitWidth | ReplicationZeroOutsideConcat
  | ValueMustNotBeUnknown | ValueMustBePositive | ExpectedExpression
  | ExpressionNotCallable | NotASubroutine | TooManyArguments | NetTypeNotAllowed
  | BodyParamNoInitializer | LocalParamNoInitializer | NonPrintableChar | UTF8Char
  | UnicodeBOM | EmbeddedNull | ExpectedClosingQuote | OctalEscapeCodeTooBig
  | InvalidHexEscapeCode | UnknownEscapeCode | EscapedWhitespace
  | UnterminatedBlockComment | NestedBlockComment | SplitBlockCommentInDirective
  | MisplacedDirectiveChar | IncludeNotFirstOnLine | ExpectedIncludeFileName
  | ExpectedIntegerBaseAfterSigned | MissingFractionalDigits | MissingExponentDigits
  | TooManyLexerErrors

text \<open>
  A type object is referred to by its address. The type objects of a compilation are its
  member singletons, at the fixed addresses below (in the order of the constructor's
  initialiser list, followed by the default-constructed members the constructor registers
  in \<open>knownTypes\<close>), and the objects \<open>emplace\<close> allocates after them. Objects are never
  moved or freed, so the store only grows.
\<close>

type_synonym TypePtr = nat

text \<open>
  A definition is identified by its key in \<open>definitionMap\<close>: the name and the scope that
  contains it (the root scope is scope 0). An instance refers to its definition by that key.
\<close>

type_synonym DefinitionKey = "string \<times> nat"

record Definition =
  defName :: string
  defSyntaxKind :: DeclarationKind

record ModuleInstanceSymbol =
  instName :: string
  instDefinition :: DefinitionKey

record CompilationUnitSymbol =
  unitMembers :: "SyntaxNode list"

datatype RootMember = UnitMember CompilationUnitSymbol | InstanceMember ModuleInstanceSymbol

record RootSymbol =
  rootMembers :: "RootMember list"
  topInstances :: "ModuleInstanceSymbol list"
  rootCompilationUnits :: "CompilationUnitSymbol list"

record Compilation =
  typeStore :: "Type list"
  scalarTypeTable :: "nat \<Rightarrow> TypePtr option"
  vectorTypeCache :: "nat \<rightharpoonup> TypePtr"
  diags :: "DiagCode list"
  finalized :: bool
  sourceManager :: "nat option"
  definitionMap :: "(DefinitionKey \<times> Definition) list"
  instantiatedNames :: "string set"
  root :: RootSymbol
  compilationUnits :: "CompilationUnitSymbol list"
  syntaxTrees :: "SyntaxTree list"
  forcedDiagnostics :: bool

definition getBitType :: TypePtr where "getBitType = 0"
definition getLogicType :: TypePtr where "getLogicType = 1"
definition getRegType :: TypePtr where "getRegType = 2"
definition getSignedBitType :: TypePtr where "getSignedBitType = 3"
definition getSignedLogicType :: TypePtr where "getSignedLogicType = 4"
definition getSignedRegType :: TypePtr where "getSignedRegType = 5"
definition getShortIntType :: TypePtr where "getShortIntType = 6"
definition getIntType :: TypePtr where "getIntType = 7"
definition getLongIntType :: TypePtr where "getLongIntType = 8"
definition getByteType :: TypePtr where "getByteType = 9"
definition getIntegerType :: TypePtr where "getIntegerType = 10"
definition getTimeType :: TypePtr where "getTimeType = 11"
definition getRealType :: TypePtr where "getRealType = 12"
definition getRealTimeType :: TypePtr where "getRealTimeType = 13"
definition getShortRealType :: TypePtr where "getShortRealType = 14"
definition getStringType :: TypePtr where "getStringType = 15"
definition getCHandleType :: TypePtr where "getCHandleType = 16"
definition getVoidType :: TypePtr where "getVoidType = 17"
definition getNullType :: TypePtr where "getNullType = 18"
definition getEventType :: TypePtr where "getEventType = 19"
definition getErrorType :: TypePtr where "getErrorType = 20"

definition memberTypes :: "Type list" where
  "memberTypes =
     [ScalarType ScalarBit False, ScalarType ScalarLogic False, ScalarType ScalarReg False,
      ScalarType ScalarBit True, ScalarType ScalarLogic True, ScalarType ScalarReg True,
      PredefinedIntegerType ShortInt, PredefinedIntegerType IntKind,
      PredefinedIntegerType LongInt, PredefinedIntegerType Byte,
      PredefinedIntegerType IntegerKind, PredefinedIntegerType Time,
      FloatingType Real, FloatingType RealTime, FloatingType ShortReal,
      StringType, CHandleType, VoidType, NullType, EventType, ErrorType]"

definition deref :: "Compilation \<Rightarrow> TypePtr \<Rightarrow> Type" where
  "deref c p = typeStore c ! p"

text \<open>
  The constructor's \<open>registerScalar\<close>: the address of a scalar member is stored at the index
  given by its three flag bits.
\<close>

definition registerScalar ::
  "TypePtr \<Rightarrow> (nat \<Rightarrow> TypePtr option) \<Rightarrow> (nat \<Rightarrow> TypePtr option)" where
  "registerScalar p table = table(bits (getIntegralFlags (memberTypes ! p)) mod 8 := Some p)"

text \<open>
  The constructor. The members that no operation modelled here reads (the tables of known
  types by syntax kind, of net types and of system subroutines) are left out.
\<close>

definition newCompilation :: Compilation where
  "newCompilation =
     \<lparr> typeStore = memberTypes,
       scalarTypeTable =
         (registerScalar getSignedRegType \<circ> registerScalar getSignedLogicType \<circ>
          registerScalar getSignedBitType \<circ> registerScalar getRegType \<circ>
          registerScalar getLogicType \<circ> registerScalar getBitType) (\<lambda>i. None),
       vectorTypeCache = Map.empty,
       diags = [],
       finalized = False,
       sourceManager = None,
       definitionMap = [],
       instantiatedNames = {},
       root = \<lparr> rootMembers = [], topInstances = [], rootCompilationUnits = [] \<rparr>,
       compilationUnits = [],
       syntaxTrees = [],
       forcedDiagnostics = False \<rparr>"

text \<open>\<open>emplace\<close>: allocate a type object; its address is the next free one.\<close>

definition emplace :: "Compilation \<Rightarrow> Type \<Rightarrow> TypePtr \<times> Compilation" where
  "emplace c t = (length (typeStore c), c\<lparr>typeStore := typeStore c @ [t]\<rparr>)"

definition addError :: "Compilation \<Rightarrow> DiagCode \<Rightarrow> Compilation" where
  "addError c code = c\<lparr>diags := diags c @ [code]\<rparr>"

text \<open>\<open>Compilation::getScalarType\<close>; a null table entry fails the assertion.\<close>

definition getScalarType :: "Compilation \<Rightarrow> IntegralFlags set \<Rightarrow> error + TypePtr" where
  "getScalarType c flags =
     (case scalarTypeTable c (bits flags mod 8) of
        None \<Rightarrow> Inl AssertionFailure
      | Some ptr \<Rightarrow> Inr ptr)"

text \<open>The conversion \<open>int32_t(n)\<close> of a 32-bit unsigned value.\<close>

definition int32 :: "nat \<Rightarrow> int" where
  "int32 n = (if n mod 2 ^ 32 < 2 ^ 31 then int (n mod 2 ^ 32) else int (n mod 2 ^ 32) - 2 ^ 32)"

definition typeKey :: "nat \<Rightarrow> IntegralFlags set \<Rightarrow> nat" where
  "typeKey width flags = width OR push_bit BITWIDTH_BITS (bits flags)"

text \<open>
  \<open>Compilation::getType(bitwidth_t width, bitmask<IntegralFlags> flags)\<close>. The width is a
  32-bit unsigned value; \<open>width - 1\<close> is only computed when \<open>width > 0\<close>.
\<close>

definition getType ::
  "Compilation \<Rightarrow> nat \<Rightarrow> IntegralFlags set \<Rightarrow> error + (TypePtr \<times> Compilation)" where
  "getType c width flags =
     (if \<not> width > 0 then Inl AssertionFailure
      else
        let key = typeKey width flags in
        case vectorTypeCache c key of
          Some ptr \<Rightarrow> Inr (ptr, c)
        | None \<Rightarrow>
            (case getScalarType c flags of
               Inl e \<Rightarrow> Inl e
             | Inr scalar \<Rightarrow>
                 let (type, c') =
                       emplace c (PackedArrayType (deref c scalar)
                                    (ConstantRange (int32 (width - 1)) 0))
                 in Inr (type, c'\<lparr>vectorTypeCache := (vectorTypeCache c')(key \<mapsto> type)\<rparr>)))"


section \<open>Operator result types (source/binding/Expressions.cpp)\<close>

text \<open>
  \<open>binaryOperatorType\<close>. The operand types are given by address; the result is the address
  of the result type and the compilation, which \<open>getType\<close> may have extended.
\<close>

definition binaryOperatorType ::
  "Compilation \<Rightarrow> TypePtr \<Rightarrow> TypePtr \<Rightarrow> bool \<Rightarrow> error + (TypePtr \<times> Compilation)" where
  "binaryOperatorType c lt rt forceFourState =
     (let l = deref c lt; r = deref c rt in
      if \<not> isNumeric l \<or> \<not> isNumeric r then Inr (getErrorType, c)
      else
        case
          (if isFloating l \<or> isFloating r then
             (if (isFloating l \<and> getBitWidth l = 64) \<or> (isFloating r \<and> getBitWidth r = 64)
              then Inr (getRealType, c)
              else Inr (getShortRealType, c))
           else
             let width = max (getBitWidth l) (getBitWidth r);
                 lf = getIntegralFlags l;
                 rf = getIntegralFlags r;
                 flags = {};
                 flags = (if Signed \<in> lf \<and> Signed \<in> rf then insert Signed flags else flags);
                 flags = (if forceFourState \<or> FourState \<in> lf \<or> FourState \<in> rf
                          then insert FourState flags else flags);
                 flags = (if Reg \<in> lf \<and> Reg \<in> rf then insert Reg flags else flags)
             in if width = 1 \<and> (isScalar l \<or> isScalar r)
                then (case getScalarType c flags of
                        Inl e \<Rightarrow> Inl e
                      | Inr ptr \<Rightarrow> Inr (ptr, c))
                else getType c width flags)
        of
          Inl e \<Rightarrow> Inl e
        | Inr (result, c') \<Rightarrow>
            if isMatching (deref c' lt) (deref c' result) then Inr (lt, c')
            else if isMatching (deref c' rt) (deref c' result) then Inr (rt, c')
            else Inr (result, c'))"

definition forceFourState :: "Compilation \<Rightarrow> TypePtr \<Rightarrow> error + (TypePtr \<times> Compilation)" where
  "forceFourState c type =
     (if isFloating (deref c type) \<or> isFourState (deref c type) then Inr (type, c)
      else binaryOperatorType c type type True)"

definition singleBitType :: "Compilation \<Rightarrow> TypePtr \<Rightarrow> TypePtr \<Rightarrow> TypePtr" where
  "singleBitType c lt rt =
     (if isFourState (deref c lt) \<or> isFourState (deref c rt) then getLogicType
      else getBitType)"

section \<open>Well-formed compilations\<close>

text \<open>
  Soundness of the type tables: the scalar table holds the six scalar members at the
  indices of their flags, the member singletons are where the constructor put them, and
  the vector cache maps the key of a valid width and a flag set to a packed array of that
  width over the scalar type of these flags. The first two parts hold of every
  compilation. The last holds of a fresh one and is kept by every request for a type of a
  valid width; a request for a wider type breaks it, because the key has 24 bits for the
  width.
\<close>

definition validWidth :: "nat \<Rightarrow> bool" where
  "validWidth w = (0 < w \<and> w \<le> MAX_BITS)"

definition scalarOf :: "IntegralFlags set \<Rightarrow> Type" where
  "scalarOf f =
     ScalarType (if Reg \<in> f then ScalarReg else if FourState \<in> f then ScalarLogic else ScalarBit)
                (Signed \<in> f)"

definition regular :: "IntegralFlags set \<Rightarrow> bool" where
  "regular f = (Reg \<in> f \<longrightarrow> FourState \<in> f)"

definition scalarsRegistered :: "Compilation \<Rightarrow> bool" where
  "scalarsRegistered c =
     (length memberTypes \<le> length (typeStore c)
      \<and> take (length memberTypes) (typeStore c) = memberTypes
      \<and> (\<forall>f. regular f \<longrightarrow>
             (\<exists>p. scalarTypeTable c (bits f mod 8) = Some p \<and> p < length memberTypes
                  \<and> memberTypes ! p = scalarOf f)))"

definition wellFormed :: "Compilation \<Rightarrow> bool" where
  "wellFormed c =
     (scalarsRegistered c
      \<and> (\<forall>w f p. validWidth w \<and> vectorTypeCache c (typeKey w f) = Some p \<longrightarrow>
             p < length (typeStore c)
             \<and> typeStore c ! p = PackedArrayType (scalarOf f) (ConstantRange (int w - 1) 0)))"

definition validPtr :: "Compilation \<Rightarrow> TypePtr \<Rightarrow> bool" where
  "validPtr c p = (p < length (typeStore c))"

section \<open>Expressions (source/binding/Expressions.cpp)\<close>

text \<open>
  The expression classes are declared in binding/Expressions.h, which is not part of the
  sources at hand. An expression is modelled as a value: its kind (one for each expression
  class that Expressions.cpp constructs), the address of its type, the constant attached
  to it by constant evaluation (if any), the conversion kind of a conversion expression,
  and its operands. Expression objects are allocated in the compilation's arena as well,
  but no operation modelled here compares their addresses, so they take no space in the
  type store. Source locations and ranges are left out, also in diagnostics, which are
  represented by their code.
\<close>

datatype ExpressionKind =
    Invalid
  | IntegerLiteral
  | RealLiteral
  | UnbasedUnsizedIntegerLiteral
  | NullLiteral
  | StringLiteral
  | NamedValue
  | UnaryOp
  | BinaryOp
  | ConditionalOp
  | Assignment
  | Concatenation
  | Replication
  | ElementSelect
  | RangeSelect
  | MemberAccess
  | Call
  | Conversion
  | DataType

text \<open>Of the conversion kinds only \<open>IntTruncation\<close> is named in Expressions.cpp.\<close>

datatype ConversionKind = IntTruncation | OtherConversion

text \<open>
  Modelled from the spec: \<open>SVInt\<close> (numeric/SVInt.h) is not part of the sources at hand. An
  integer constant carries its width, its signedness, whether any bit is unknown, and its
  bits read as an unsigned number.
\<close>

record SVInt =
  svBitWidth :: nat
  svSigned :: bool
  svUnknown :: bool
  svValue :: nat

datatype ConstantValue = IntegerValue SVInt | RealValue | StringValue string | NullValue

datatype Expression =
  Expression (exprKind: ExpressionKind) (exprType: TypePtr)
             (exprConstant: "ConstantValue option") (exprConversion: "ConversionKind option")
             (exprOperands: "Expression list")

datatype BindFlags =
    Constant | InsideConcatenation | IntegralConstant | AllowDataType
  | ProceduralAssignmentContext | EventExpressionContext | AllowPatternMatch

record BindContext =
  bindFlags :: "BindFlags set"

text \<open>
  The expression syntax nodes whose binding is modelled; every other expression syntax is
  \<open>OtherExpressionSyntax\<close>. A conditional carries the expressions of the conditions of its
  predicate and its two branches; a replication carries its count and its concatenation.
\<close>

datatype ExpressionSyntax =
    ConditionalExpressionSyntax "ExpressionSyntax list" ExpressionSyntax ExpressionSyntax
  | ConcatenationExpressionSyntax "ExpressionSyntax list"
  | MultipleConcatenationExpressionSyntax ExpressionSyntax ExpressionSyntax
  | OtherExpressionSyntax nat

fun isMultipleConcatenationExpression :: "ExpressionSyntax \<Rightarrow> bool" where
  "isMultipleConcatenationExpression (MultipleConcatenationExpressionSyntax n x) = True"
| "isMultipleConcatenationExpression _ = False"

text \<open>\<open>Expression::bad\<close>.\<close>

definition bad :: "Compilation \<Rightarrow> Expression \<Rightarrow> bool" where
  "bad c e = (exprKind e = Invalid \<or> isError (deref c (exprType e)))"

text \<open>\<open>Expression::isLValue\<close>: a switch on the kind with four cases and a default.\<close>

definition isLValue :: "Expression \<Rightarrow> bool" where
  "isLValue e =
     (case exprKind e of
        NamedValue \<Rightarrow> True
      | ElementSelect \<Rightarrow> True
      | RangeSelect \<Rightarrow> True
      | MemberAccess \<Rightarrow> True
      | _ \<Rightarrow> False)"

text \<open>\<open>Expression::convert\<close> and \<open>Expression::badExpr\<close>.\<close>

definition convert :: "ConversionKind \<Rightarrow> TypePtr \<Rightarrow> Expression \<Rightarrow> Expression" where
  "convert conversionKind type expr = Expression Conversion type None (Some conversionKind) [expr]"

definition badExpr :: "Expression option \<Rightarrow> Expression" where
  "badExpr expr =
     Expression Invalid getErrorType None None (case expr of None \<Rightarrow> [] | Some e \<Rightarrow> [e])"

text \<open>
  \<open>Expression::convertAssignment\<close>. Two functions it calls are not part of the sources at
  hand and are parameters here: \<open>Type::isCastCompatible\<close> (of which the specification only
  says that it extends assignment compatibility) and \<open>Expression::contextDetermined\<close>, which
  propagates a type into an expression and may replace it and extend the compilation.
\<close>

definition convertAssignment ::
  "(Type \<Rightarrow> Type \<Rightarrow> bool) \<Rightarrow> (Compilation \<Rightarrow> Expression \<Rightarrow> TypePtr \<Rightarrow> Expression \<times> Compilation) \<Rightarrow>
   Compilation \<Rightarrow> TypePtr \<Rightarrow> Expression \<Rightarrow> error + (Expression \<times> Compilation)" where
  "convertAssignment isCastCompatible contextDetermined c type expr =
     (let rt = exprType expr in
      if \<not> isAssignmentCompatible (deref c type) (deref c rt) then
        let code = (if isCastCompatible (deref c type) (deref c rt)
                    then NoImplicitConversion else BadAssignment);
            c' = addError c code
        in Inr (badExpr (Some expr), c')
      else
        case binaryOperatorType c type rt False of
          Inl e \<Rightarrow> Inl e
        | Inr (rt', c1) \<Rightarrow>
            let (result, c2) = contextDetermined c1 expr rt' in
            if getBitWidth (deref c2 rt') > getBitWidth (deref c2 type)
            then Inr (convert IntTruncation type result, c2)
            else Inr (result, c2))"

text \<open>
  \<open>ConditionalExpression::fromSyntax\<close>. \<open>Expression::create\<close> dispatches on every syntax
  kind to the functions of this file; it is a parameter here, applied to the three
  subexpressions in the order of the source.
\<close>

definition ConditionalExpression_fromSyntax ::
  "(Compilation \<Rightarrow> ExpressionSyntax \<Rightarrow> BindContext \<Rightarrow> Expression \<times> Compilation) \<Rightarrow>
   Compilation \<Rightarrow> ExpressionSyntax list \<Rightarrow> ExpressionSyntax \<Rightarrow> ExpressionSyntax \<Rightarrow> BindContext \<Rightarrow>
   error + (Expression \<times> Compilation)" where
  "ConditionalExpression_fromSyntax create c conditions leftSyntax rightSyntax context =
     (if length conditions \<noteq> 1 then Inl AssertionFailure
      else
        let (pred, c1) = create c (conditions ! 0) context;
            (left, c2) = create c1 leftSyntax context;
            (right, c3) = create c2 rightSyntax context
        in case binaryOperatorType c3 (exprType left) (exprType right) True of
             Inl e \<Rightarrow> Inl e
           | Inr (type, c4) \<Rightarrow> Inr (Expression ConditionalOp type None None [pred, left, right], c4))"

text \<open>
  The checks of Compilation.cpp on constant values. \<open>SVInt::isNegative\<close> reads the most
  significant bit; \<open>as<bitwidth_t>\<close> succeeds when the value has no unknown bit and fits 32
  bits.
\<close>

definition isNegative :: "SVInt \<Rightarrow> bool" where
  "isNegative v = (svBitWidth v > 0 \<and> bit (svValue v) (svBitWidth v - 1))"

definition checkNoUnknowns :: "Compilation \<Rightarrow> SVInt \<Rightarrow> bool \<times> Compilation" where
  "checkNoUnknowns c v =
     (if svUnknown v then (False, addError c ValueMustNotBeUnknown) else (True, c))"

definition checkPositive :: "Compilation \<Rightarrow> SVInt \<Rightarrow> bool \<times> Compilation" where
  "checkPositive c v =
     (if svSigned v \<and> isNegative v then (False, addError c ValueMustBePositive) else (True, c))"

definition asBitwidth :: "SVInt \<Rightarrow> nat option" where
  "asBitwidth v = (if svUnknown v \<or> svValue v \<ge> 2 ^ 32 then None else Some (svValue v))"

definition checkValidBitWidth :: "Compilation \<Rightarrow> SVInt \<Rightarrow> nat option \<times> Compilation" where
  "checkValidBitWidth c v =
     (case asBitwidth v of
        None \<Rightarrow> (None, addError c ValueExceedsMaxBitWidth)
      | Some w \<Rightarrow> (Some w, c))"

text \<open>The product \<open>value * width\<close> of an integer constant and a bit width.\<close>

definition svTimes :: "SVInt \<Rightarrow> nat \<Rightarrow> SVInt" where
  "svTimes v n = v\<lparr>svValue := svValue v * n\<rparr>"

text \<open>
  \<open>ReplicationExpression::fromSyntax\<close>. \<open>Expression::selfDetermined\<close> is not part of the
  sources at hand and is a parameter: it binds a subexpression under the context and the
  extra flags and may extend the compilation. The comparison \<open>value == 0\<close> is made after
  \<open>checkNoUnknowns\<close>, on a value without unknown bits.
\<close>

definition ReplicationExpression_fromSyntax ::
  "(Compilation \<Rightarrow> ExpressionSyntax \<Rightarrow> BindContext \<Rightarrow> BindFlags set \<Rightarrow> Expression \<times> Compilation) \<Rightarrow>
   Compilation \<Rightarrow> ExpressionSyntax \<Rightarrow> ExpressionSyntax \<Rightarrow> BindContext \<Rightarrow>
   error + (Expression \<times> Compilation)" where
  "ReplicationExpression_fromSyntax selfDetermined c expression concatenation context =
     (let (left, c1) = selfDetermined c expression context {IntegralConstant};
          (right, c2) = selfDetermined c1 concatenation context {};
          result = Expression Replication getErrorType None None [left, right]
      in case (if bad c2 left \<or> bad c2 right then None else exprConstant left) of
           Some (IntegerValue v) \<Rightarrow>
             let (noUnknowns, c3) = checkNoUnknowns c2 v in
             if \<not> noUnknowns then Inr (badExpr (Some result), c3)
             else
               let (positive, c4) = checkPositive c3 v in
               if \<not> positive then Inr (badExpr (Some result), c4)
               else if svValue v = 0 then
                 (if InsideConcatenation \<notin> bindFlags context
                  then Inr (badExpr (Some result), addError c4 ReplicationZeroOutsideConcat)
                  else Inr (Expression Replication getVoidType None None [left, right], c4))
               else
                 let (width, c5) =
                       checkValidBitWidth c4 (svTimes v (getBitWidth (deref c4 (exprType right))))
                 in (case width of
                       None \<Rightarrow> Inr (badExpr (Some result), c5)
                     | Some w \<Rightarrow>
                         (case getType c5 w (if isFourState (deref c5 (exprType right))
                                             then {FourState} else {}) of
                            Inl e \<Rightarrow> Inl e
                          | Inr (type, c6) \<Rightarrow>
                              Inr (Expression Replication type None None [left, right], c6)))
         | _ \<Rightarrow> Inr (badExpr (Some result), c2))"

text \<open>
  \<open>ConcatenationExpression::fromSyntax\<close>. The loop over the operands carries the locals
  \<open>errored\<close>, \<open>flags\<close>, \<open>totalWidth\<close> and \<open>buffer\<close> and the compilation; a \<open>break\<close> returns the
  state, a \<open>continue\<close> goes on with the remaining operands. \<open>totalWidth\<close> is a 32-bit
  unsigned value, so the sum wraps.
\<close>

record ConcatState =
  errored :: bool
  flags :: "IntegralFlags set"
  totalWidth :: nat
  buffer :: "Expression list"
  compilation :: Compilation

fun concatLoop ::
  "(Compilation \<Rightarrow> ExpressionSyntax \<Rightarrow> BindContext \<Rightarrow> BindFlags set \<Rightarrow> Expression \<times> Compilation) \<Rightarrow>
   BindContext \<Rightarrow> ExpressionSyntax list \<Rightarrow> ConcatState \<Rightarrow> ConcatState" where
  "concatLoop selfDetermined context [] s = s"
| "concatLoop selfDetermined context (argSyntax # rest) s =
     (let (arg, c1) =
            (if isMultipleConcatenationExpression argSyntax
             then selfDetermined (compilation s) argSyntax context {InsideConcatenation}
             else selfDetermined (compilation s) argSyntax context {});
          s1 = s\<lparr>buffer := buffer s @ [arg], compilation := c1\<rparr>
      in if bad c1 arg then s1\<lparr>errored := True\<rparr>
         else
           let type = deref c1 (exprType arg) in
           if isVoid type \<and> isMultipleConcatenationExpression argSyntax
           then concatLoop selfDetermined context rest s1
           else if \<not> isIntegral type
           then concatLoop selfDetermined context rest
                  (s1\<lparr>errored := True, compilation := addError c1 BadConcatExpression\<rparr>)
           else
             let newWidth = (totalWidth s1 + getBitWidth type) mod 2 ^ 32 in
             if newWidth < totalWidth s1
             then s1\<lparr>errored := True, compilation := addError c1 ValueExceedsMaxBitWidth\<rparr>
             else concatLoop selfDetermined context rest
                    (s1\<lparr>totalWidth := newWidth,
                        flags := (if isFourState type then insert FourState (flags s1)
                                  else flags s1)\<rparr>))"

definition ConcatenationExpression_fromSyntax ::
  "(Compilation \<Rightarrow> ExpressionSyntax \<Rightarrow> BindContext \<Rightarrow> BindFlags set \<Rightarrow> Expression \<times> Compilation) \<Rightarrow>
   Compilation \<Rightarrow> ExpressionSyntax list \<Rightarrow> BindContext \<Rightarrow> error + (Expression \<times> Compilation)" where
  "ConcatenationExpression_fromSyntax selfDetermined c expressions context =
     (let s = concatLoop selfDetermined context expressions
                \<lparr>errored = False, flags = {}, totalWidth = 0, buffer = [], compilation = c\<rparr>
      in if errored s
         then Inr (badExpr (Some (Expression Concatenation getErrorType None None [])),
                   compilation s)
         else
           case getType (compilation s) (totalWidth s) (flags s) of
             Inl e \<Rightarrow> Inl e
           | Inr (type, c') \<Rightarrow> Inr (Expression Concatenation type None None (buffer s), c'))"

section \<open>Syntax trees and the root (source/compilation/Compilation.cpp)\<close>

text \<open>\<open>containsName\<close>: some name set of the scope stack holds the name.\<close>

definition containsName :: "string set list \<Rightarrow> string \<Rightarrow> bool" where
  "containsName scopeStack name = list_ex (\<lambda>names. name \<in> names) scopeStack"

text \<open>
  The first loop of \<open>findInstantiations(const ModuleDeclarationSyntax&, ...)\<close>: the non-empty
  names of the module, interface and program declarations among the members.
\<close>

fun localDefinitions :: "SyntaxNode list \<Rightarrow> string list" where
  "localDefinitions [] = []"
| "localDefinitions (ModuleDeclarationSyntax k name ms # members) =
     (if name \<noteq> [] then name # localDefinitions members else localDefinitions members)"
| "localDefinitions (member # members) = localDefinitions members"

text \<open>
  The two overloads of \<open>Compilation::findInstantiations\<close>. The set \<open>found\<close> is passed through
  and returned. The module overload pushes a scope entry when the module declares a
  nested definition and pops it at its end, so the children are traversed with the
  extended stack and the caller goes on with its own.
\<close>

fun findInstantiations :: "SyntaxNode \<Rightarrow> string set list \<Rightarrow> string set \<Rightarrow> string set" where
  "findInstantiations (HierarchyInstantiation name) scopeStack found =
     (if name \<noteq> [] \<and> \<not> containsName scopeStack name then insert name found else found)"
| "findInstantiations (ModuleDeclarationSyntax k name members) scopeStack found =
     (let localDefs = localDefinitions members;
          scopeStack' = (if localDefs = [] then scopeStack else scopeStack @ [set localDefs])
      in fold (\<lambda>member f. findInstantiations member scopeStack' f) members found)"
| "findInstantiations (GenerateRegion members) scopeStack found =
     fold (\<lambda>child f. findInstantiations child scopeStack f) members found"
| "findInstantiations (GenerateBlock members) scopeStack found =
     fold (\<lambda>child f. findInstantiations child scopeStack f) members found"
| "findInstantiations (LoopGenerate block) scopeStack found =
     findInstantiations block scopeStack found"
| "findInstantiations (CaseGenerate items) scopeStack found =
     fold (\<lambda>item f. if fst item = DefaultCaseItem \<or> fst item = StandardCaseItem
                      then findInstantiations (snd item) scopeStack f else f) items found"
| "findInstantiations (IfGenerate block elseClause) scopeStack found =
     (let found' = findInstantiations block scopeStack found
      in case elseClause of
           None \<Rightarrow> found'
         | Some clause \<Rightarrow> findInstantiations clause scopeStack found')"
| "findInstantiations (CompilationUnit members) scopeStack found = found"
| "findInstantiations OtherNode scopeStack found = found"

fun isModuleDeclaration :: "SyntaxNode \<Rightarrow> bool" where
  "isModuleDeclaration (ModuleDeclarationSyntax k name members) = (k = ModuleDeclaration)"
| "isModuleDeclaration _ = False"

text \<open>
  \<open>Compilation::addSyntaxTree\<close>. The result is the exception thrown, if any, and the
  compilation after the call. \<open>Scope::addMembers\<close> is not part of the sources at hand and
  is a parameter: it receives the compilation unit and the compilation and returns both.
  \<open>addRootMembers\<close> is the branch of \<open>addSyntaxTree\<close> on the kind of the root node: it adds
  the members to the unit and collects the set \<open>instances\<close>.
\<close>

definition addRootMembers ::
  "(CompilationUnitSymbol \<times> Compilation \<Rightarrow> SyntaxNode \<Rightarrow> CompilationUnitSymbol \<times> Compilation) \<Rightarrow>
   CompilationUnitSymbol \<times> Compilation \<Rightarrow> SyntaxNode \<Rightarrow>
   (CompilationUnitSymbol \<times> Compilation) \<times> string set" where
  "addRootMembers addMembers uc0 node =
     (case node of
        CompilationUnit members \<Rightarrow>
          fold (\<lambda>member (uc, instances).
                  (addMembers uc member,
                   if isModuleDeclaration member
                   then findInstantiations member [] instances else instances))
               members (uc0, {})
      | _ \<Rightarrow>
          (addMembers uc0 node,
           if isModuleDeclaration node then findInstantiations node [] {} else {}))"

definition addSyntaxTree ::
  "(CompilationUnitSymbol \<times> Compilation \<Rightarrow> SyntaxNode \<Rightarrow> CompilationUnitSymbol \<times> Compilation) \<Rightarrow>
   Compilation \<Rightarrow> SyntaxTree \<Rightarrow> error option \<times> Compilation" where
  "addSyntaxTree addMembers c tree =
     (if finalized c
      then (Some (LogicError ''The compilation has already been finalized''), c)
      else if Some (treeSourceManager tree) \<noteq> sourceManager c \<and> sourceManager c \<noteq> None
      then (Some (LogicError
              ''All syntax trees added to the compilation must use the same source manager''), c)
      else
        let c0 = c\<lparr>sourceManager := Some (treeSourceManager tree)\<rparr>;
            unit0 = \<lparr>unitMembers = []\<rparr>;
            (uc, instances) = addRootMembers addMembers (unit0, c0) (treeRoot tree);
            unit = fst uc;
            c1 = snd uc;
            c2 = c1\<lparr>instantiatedNames := instantiatedNames c1 \<union> instances\<rparr>
        in (None,
            c2\<lparr>root := (root c2)\<lparr>rootMembers := rootMembers (root c2) @ [UnitMember unit]\<rparr>,
               compilationUnits := compilationUnits c2 @ [unit],
               syntaxTrees := syntaxTrees c2 @ [tree],
               forcedDiagnostics := False\<rparr>))"

text \<open>
  Modelled from the spec: \<open>ModuleInstanceSymbol::instantiate\<close> is not part of the sources at
  hand. It returns the instance symbol of the given name for the given definition.
\<close>

definition instantiate :: "string \<Rightarrow> DefinitionKey \<Rightarrow> ModuleInstanceSymbol" where
  "instantiate name key = \<lparr>instName = name, instDefinition = key\<rparr>"

text \<open>
  \<open>Compilation::getRoot\<close>. \<open>definitionMap\<close> is a hash table; the list holds its entries in
  the order in which the loop meets them. The loop adds each new instance to the root and
  to \<open>topList\<close>. \<open>std::sort\<close> with the comparison of the names leaves the order of instances
  of the same name open; \<open>sort_key\<close> is one of the permitted outcomes.
\<close>

definition getRoot :: "Compilation \<Rightarrow> RootSymbol \<times> Compilation" where
  "getRoot c =
     (if \<not> finalized c then
        let (root1, topList) =
              fold (\<lambda>(key, definition) (r, topList).
                      if defSyntaxKind definition = ModuleDeclaration
                         \<and> defName definition \<notin> instantiatedNames c
                      then
                        let instance = instantiate (defName definition) key
                        in (r\<lparr>rootMembers := rootMembers r @ [InstanceMember instance]\<rparr>,
                            topList @ [instance])
                      else (r, topList))
                   (definitionMap c) (root c, []);
            root2 = root1\<lparr>topInstances := sort_key instName topList,
                            rootCompilationUnits := compilationUnits c\<rparr>;
            c' = c\<lparr>root := root2, finalized := True\<rparr>
        in (root2, c')
      else (root c, c))"

text \<open>
  The calls on a compilation that the statements about sequences of calls range over, and
  the compilation after a call, whether it returned or raised.
\<close>

datatype Call = AddSyntaxTree SyntaxTree | GetRoot | GetType nat "IntegralFlags set"

fun afterCall ::
  "(CompilationUnitSymbol \<times> Compilation \<Rightarrow> SyntaxNode \<Rightarrow> CompilationUnitSymbol \<times> Compilation) \<Rightarrow>
   Compilation \<Rightarrow> Call \<Rightarrow> Compilation" where
  "afterCall addMembers c (AddSyntaxTree tree) = snd (addSyntaxTree addMembers c tree)"
| "afterCall addMembers c GetRoot = snd (getRoot c)"
| "afterCall addMembers c (GetType w f) =
     (case getType c w f of Inl e \<Rightarrow> c | Inr (type, c') \<Rightarrow> c')"

text \<open>
  The names that a syntax node refers to as an instantiation: the type names of the
  hierarchy instantiations anywhere below it.
\<close>

fun referencedNames :: "SyntaxNode \<Rightarrow> string set" where
  "referencedNames (HierarchyInstantiation name) = {name}"
| "referencedNames (CompilationUnit members) = (\<Union>member \<in> set members. referencedNames member)"
| "referencedNames (ModuleDeclarationSyntax k name members) =
     (\<Union>member \<in> set members. referencedNames member)"
| "referencedNames (GenerateRegion members) = (\<Union>member \<in> set members. referencedNames member)"
| "referencedNames (GenerateBlock members) = (\<Union>member \<in> set members. referencedNames member)"
| "referencedNames (LoopGenerate block) = referencedNames block"
| "referencedNames (CaseGenerate items) = (\<Union>item \<in> set items. referencedNames (snd item))"
| "referencedNames (IfGenerate block elseClause) =
     referencedNames block \<union> (case elseClause of None \<Rightarrow> {} | Some clause \<Rightarrow> referencedNames clause)"
| "referencedNames OtherNode = {}"

section \<open>The lexer (source/lexing/Lexer.cpp)\<close>

text \<open>
  Modelled from the spec: the token and trivia types (parsing/Token.h) and the inline
  members of the lexer (lexing/Lexer.h: \<open>peek\<close>, \<open>advance\<close>, \<open>consume\<close>, \<open>mark\<close>, \<open>lexeme\<close>,
  \<open>reallyAtEnd\<close>) are not part of the sources at hand. A token carries its kind, its
  leading trivia, its raw text and the offset of its location; a piece of trivia is a kind
  and its text. Of the token kinds, those that the functions modelled below name are
  listed, every other member of the enumeration is \<open>OtherToken\<close> with its number.
\<close>

datatype TokenKind =
    Unknown | EndOfFile | EndOfDirective | IncludeFileName | Directive | OtherToken nat

datatype TriviaKind =
    Whitespace | EndOfLine | LineContinuation | LineComment | BlockComment | DisabledText
  | SkippedTokens | DirectiveTrivia

type_synonym Trivia = "TriviaKind \<times> string"

record Token =
  tokenKind :: TokenKind
  tokenTrivia :: "Trivia list"
  tokenRawText :: string
  tokenLocation :: nat

datatype LexerMode = NormalMode | DirectiveMode | IncludeFileNameMode

text \<open>
  The lexer: the source buffer from \<open>originalBegin\<close> to \<open>sourceEnd\<close>, the pointers
  \<open>sourceBuffer\<close> and \<open>marker\<close> as offsets into it, the diagnostics it appends to (with the
  offset of each), and \<open>options.maxErrors\<close>.
\<close>

record Lexer =
  source :: string
  sourceBuffer :: nat
  marker :: nat
  diagnostics :: "(DiagCode \<times> nat) list"
  maxErrors :: nat
  onNewLine :: bool
  errorCount :: nat

abbreviation NUL :: char where "NUL \<equiv> CHR 0x00"
abbreviation TAB :: char where "TAB \<equiv> CHR 0x09"
abbreviation LF :: char where "LF \<equiv> CHR 0x0A"
abbreviation VT :: char where "VT \<equiv> CHR 0x0B"
abbreviation FF :: char where "FF \<equiv> CHR 0x0C"
abbreviation CR :: char where "CR \<equiv> CHR 0x0D"
abbreviation SPACE :: char where "SPACE \<equiv> CHR 0x20"
abbreviation STAR :: char where "STAR \<equiv> CHR 0x2A"
abbreviation SLASH :: char where "SLASH \<equiv> CHR 0x2F"
abbreviation BACKSLASH :: char where "BACKSLASH \<equiv> CHR 0x5C"

text \<open>
  \<open>peek(offset)\<close> reads the character at \<open>sourceBuffer + offset\<close>. The buffer ends with a
  NUL, and the lexer looks ahead only after a character that is not NUL; a read beyond
  the buffer, which C++ leaves undefined, reads NUL here.
\<close>

definition peekAt :: "Lexer \<Rightarrow> nat \<Rightarrow> char" where
  "peekAt l offset =
     (if sourceBuffer l + offset < length (source l) then source l ! (sourceBuffer l + offset)
      else NUL)"

definition peek :: "Lexer \<Rightarrow> char" where
  "peek l = peekAt l 0"

definition advance :: "Lexer \<Rightarrow> nat \<Rightarrow> Lexer" where
  "advance l count = l\<lparr>sourceBuffer := sourceBuffer l + count\<rparr>"

definition consume :: "Lexer \<Rightarrow> char \<Rightarrow> bool \<times> Lexer" where
  "consume l c = (if peek l = c then (True, advance l 1) else (False, l))"

definition mark :: "Lexer \<Rightarrow> Lexer" where
  "mark l = l\<lparr>marker := sourceBuffer l\<rparr>"

definition lexeme :: "Lexer \<Rightarrow> string" where
  "lexeme l = take (sourceBuffer l - marker l) (drop (marker l) (source l))"

definition reallyAtEnd :: "Lexer \<Rightarrow> bool" where
  "reallyAtEnd l = (sourceBuffer l \<ge> length (source l) - 1)"

definition currentOffset :: "Lexer \<Rightarrow> nat" where
  "currentOffset l = sourceBuffer l"

definition isNewline :: "char \<Rightarrow> bool" where
  "isNewline c = (c = CR \<or> c = LF)"

text \<open>\<open>Lexer::addError\<close> and \<open>Lexer::addTrivia\<close>.\<close>

definition lexerError :: "Lexer \<Rightarrow> DiagCode \<Rightarrow> nat \<Rightarrow> Lexer" where
  "lexerError l code offset =
     l\<lparr>diagnostics := diagnostics l @ [(code, offset)], errorCount := errorCount l + 1\<rparr>"

definition addTrivia :: "TriviaKind \<Rightarrow> Trivia list \<Rightarrow> Lexer \<Rightarrow> Trivia list" where
  "addTrivia kind triviaBuffer l = triviaBuffer @ [(kind, lexeme l)]"

text \<open>
  The constructor: the buffer is not empty and ends with a NUL; a byte order mark at its
  start is reported and skipped. The diagnostics are the list the lexer shares with its
  owner.
\<close>

definition newLexer :: "string \<Rightarrow> (DiagCode \<times> nat) list \<Rightarrow> nat \<Rightarrow> error + Lexer" where
  "newLexer text diags0 maxErrors0 =
     (let l = \<lparr>source = text, sourceBuffer = 0, marker = 0, diagnostics = diags0,
               maxErrors = maxErrors0, onNewLine = True, errorCount = 0\<rparr>;
          count = length text
      in if count = 0 then Inl AssertionFailure
         else if last text \<noteq> NUL then Inl AssertionFailure
         else if count \<ge> 2 \<and> ((text ! 0 = CHR 0xFF \<and> text ! 1 = CHR 0xFE)
                                \<or> (text ! 0 = CHR 0xFE \<and> text ! 1 = CHR 0xFF))
         then Inr (advance (lexerError l UnicodeBOM 0) 2)
         else if count \<ge> 3 \<and> text ! 0 = CHR 0xEF \<and> text ! 1 = CHR 0xBB \<and> text ! 2 = CHR 0xBF
         then Inr (advance (lexerError l UnicodeBOM 0) 3)
         else Inr l)"

text \<open>\<open>Lexer::scanWhitespace\<close>.\<close>

function scanWhitespace :: "Trivia list \<Rightarrow> Lexer \<Rightarrow> Trivia list \<times> Lexer" where
  "scanWhitespace triviaBuffer l =
     (if peek l = SPACE \<or> peek l = TAB \<or> peek l = VT \<or> peek l = FF
      then scanWhitespace triviaBuffer (advance l 1)
      else (addTrivia Whitespace triviaBuffer l, l))"
  by pat_completeness auto
termination
  by (relation "measure (\<lambda>(t, l). length (source l) - sourceBuffer l)")
     (auto simp: peek_def peekAt_def advance_def split: if_splits)

declare scanWhitespace.simps [simp del]

text \<open>\<open>Lexer::scanLineComment\<close>.\<close>

function scanLineComment :: "Trivia list \<Rightarrow> bool \<Rightarrow> Lexer \<Rightarrow> Trivia list \<times> Lexer" where
  "scanLineComment triviaBuffer directiveMode l =
     (let c = peek l in
      if isNewline c then (addTrivia LineComment triviaBuffer l, l)
      else if c = BACKSLASH \<and> directiveMode \<and> isNewline (peekAt l 1)
      then (addTrivia LineComment triviaBuffer l, l)
      else if c = NUL then
        (if reallyAtEnd l then (addTrivia LineComment triviaBuffer l, l)
         else scanLineComment triviaBuffer directiveMode
                (advance (lexerError l EmbeddedNull (currentOffset l)) 1))
      else scanLineComment triviaBuffer directiveMode (advance l 1))"
  by pat_completeness auto
termination
  by (relation "measure (\<lambda>(t, d, l). length (source l) - sourceBuffer l)")
     (auto simp: peek_def peekAt_def advance_def lexerError_def reallyAtEnd_def split: if_splits)

declare scanLineComment.simps [simp del]

text \<open>
  \<open>Lexer::scanBlockComment\<close>: the loop with its local \<open>eod\<close>, and the function, which adds
  the comment to the trivia and returns \<open>eod\<close>.
\<close>

function scanBlockCommentLoop :: "bool \<Rightarrow> bool \<Rightarrow> Lexer \<Rightarrow> bool \<times> Lexer" where
  "scanBlockCommentLoop eod directiveMode l =
     (let c = peek l in
      if c = NUL then
        (if reallyAtEnd l then (eod, lexerError l UnterminatedBlockComment (currentOffset l))
         else scanBlockCommentLoop eod directiveMode
                (advance (lexerError l EmbeddedNull (currentOffset l)) 1))
      else if c = STAR \<and> peekAt l 1 = SLASH then (eod, advance l 2)
      else if c = SLASH \<and> peekAt l 1 = STAR
      then scanBlockCommentLoop eod directiveMode
             (advance (lexerError l NestedBlockComment (currentOffset l)) 2)
      else if directiveMode \<and> isNewline c
      then scanBlockCommentLoop True directiveMode
             (advance (lexerError l SplitBlockCommentInDirective (currentOffset l)) 1)
      else scanBlockCommentLoop eod directiveMode (advance l 1))"
  by pat_completeness auto
termination
  by (relation "measure (\<lambda>(e, d, l). length (source l) - sourceBuffer l)")
     (auto simp: peek_def peekAt_def advance_def lexerError_def reallyAtEnd_def split: if_splits)

declare scanBlockCommentLoop.simps [simp del]

definition scanBlockComment ::
  "Trivia list \<Rightarrow> bool \<Rightarrow> Lexer \<Rightarrow> bool \<times> Trivia list \<times> Lexer" where
  "scanBlockComment triviaBuffer directiveMode l =
     (let (eod, l') = scanBlockCommentLoop False directiveMode l
      in (eod, addTrivia BlockComment triviaBuffer l', l'))"

text \<open>
  \<open>Lexer::lexTrivia\<close>: the result is whether the directive ends, the trivia and the lexer.
\<close>

function lexTrivia :: "Trivia list \<Rightarrow> bool \<Rightarrow> Lexer \<Rightarrow> bool \<times> Trivia list \<times> Lexer" where
  "lexTrivia triviaBuffer directiveMode l0 =
     (let l = mark l0; c = peek l in
      if c = SPACE \<or> c = TAB \<or> c = VT \<or> c = FF then
        (let (triviaBuffer', l') = scanWhitespace triviaBuffer (advance l 1)
         in lexTrivia triviaBuffer' directiveMode l')
      else if c = SLASH then
        (if peekAt l 1 = SLASH then
           (let (triviaBuffer', l') = scanLineComment triviaBuffer directiveMode (advance l 2)
            in lexTrivia triviaBuffer' directiveMode l')
         else if peekAt l 1 = STAR then
           (let (eod, triviaBuffer', l') = scanBlockComment triviaBuffer directiveMode (advance l 2)
            in if eod then (True, triviaBuffer', l')
               else lexTrivia triviaBuffer' directiveMode l')
         else (False, triviaBuffer, l))
      else if c = CR then
        (let l1 = snd (consume (advance l 1) LF);
             l2 = l1\<lparr>onNewLine := True\<rparr>;
             triviaBuffer' = addTrivia EndOfLine triviaBuffer l2
         in if directiveMode then (True, triviaBuffer', l2)
            else lexTrivia triviaBuffer' directiveMode l2)
      else if c = LF then
        (let l1 = advance l 1;
             l2 = l1\<lparr>onNewLine := True\<rparr>;
             triviaBuffer' = addTrivia EndOfLine triviaBuffer l2
         in if directiveMode then (True, triviaBuffer', l2)
            else lexTrivia triviaBuffer' directiveMode l2)
      else if c = BACKSLASH then
        (let n = peekAt l 1 in
         if \<not> directiveMode \<or> \<not> isNewline n then (False, triviaBuffer, l)
         else
           let l1 = advance l 2;
               l2 = (if n = CR then snd (consume l1 LF) else l1);
               l3 = l2\<lparr>onNewLine := True\<rparr>;
               triviaBuffer' = addTrivia LineContinuation triviaBuffer l3
           in lexTrivia triviaBuffer' directiveMode l3)
      else if c = NUL then (directiveMode, triviaBuffer, l)
      else (False, triviaBuffer, l))"
  by pat_completeness auto

text \<open>
  \<open>Lexer::lexToken\<close>: the result is the kind, the location stored in the token and the
  lexer. The case of the NUL character is modelled as it is written; the other cases of
  the switch, which lex one token that starts with the character read, are the parameter
  \<open>lexOther\<close>, applied to that character and the lexer after \<open>advance()\<close>.
\<close>

definition lexToken ::
  "(char \<Rightarrow> Lexer \<Rightarrow> bool \<Rightarrow> TokenKind \<times> Lexer) \<Rightarrow> Lexer \<Rightarrow> bool \<Rightarrow> TokenKind \<times> nat \<times> Lexer" where
  "lexToken lexOther l directiveMode =
     (let offset = currentOffset l;
          c = peek l;
          l1 = advance l 1
      in if c = NUL then
           (let l2 = l1\<lparr>sourceBuffer := sourceBuffer l1 - 1\<rparr> in
            if \<not> reallyAtEnd l2
            then (Unknown, offset, lexerError (advance l2 1) EmbeddedNull offset)
            else if directiveMode then (EndOfDirective, offset, l2)
            else (EndOfFile, offset, l2))
         else
           (let (kind, l') = lexOther c l1 directiveMode in (kind, offset, l')))"

text \<open>
  \<open>Lexer::lex\<close>. \<open>lexIncludeFileName\<close> is a parameter as well. The token that ends a
  directive after its trivia has a fresh \<open>Token::Info\<close>, of which only the trivia is set.
\<close>

definition lexer_lex ::
  "(char \<Rightarrow> Lexer \<Rightarrow> bool \<Rightarrow> TokenKind \<times> Lexer) \<Rightarrow> (Lexer \<Rightarrow> Token \<times> Lexer) \<Rightarrow>
   LexerMode \<Rightarrow> Lexer \<Rightarrow> Token \<times> Lexer" where
  "lexer_lex lexOther lexIncludeFileName mode l =
     (if mode = IncludeFileNameMode then lexIncludeFileName l
      else
        let directiveMode = (mode = DirectiveMode);
            (eod, triviaBuffer, l1) = lexTrivia [] directiveMode l
        in if eod
           then (\<lparr>tokenKind = EndOfDirective, tokenTrivia = triviaBuffer, tokenRawText = [],
                  tokenLocation = 0\<rparr>, l1)
           else
             let l2 = mark l1;
                 (kind, location, l3) = lexToken lexOther l2 directiveMode;
                 l4 = l3\<lparr>onNewLine := False\<rparr>;
                 rawText = lexeme l4
             in if kind \<noteq> EndOfFile \<and> length (diagnostics l4) > maxErrors l4
                then
                  let l5 = lexerError l4 TooManyLexerErrors (currentOffset l4);
                      l6 = l5\<lparr>sourceBuffer := length (source l5) - 1\<rparr>
                  in (\<lparr>tokenKind = EndOfFile,
                        tokenTrivia = triviaBuffer @ [(DisabledText, lexeme l6)],
                        tokenRawText = rawText, tokenLocation = location\<rparr>, l6)
                else (\<lparr>tokenKind = kind, tokenTrivia = triviaBuffer, tokenRawText = rawText,
                       tokenLocation = location\<rparr>, l4))"

section \<open>Auxiliary notions\<close>

text \<open>
  \<open>grows c c'\<close>: the compilation \<open>c'\<close> is \<open>c\<close> after further requests for types. The type
  store is extended at its end, the scalar table is the same and the vector cache has
  kept its entries.
\<close>

definition extends :: "Compilation \<Rightarrow> Compilation \<Rightarrow> bool" where
  "extends c c' = (\<exists>ts. typeStore c' = typeStore c @ ts)"

definition grows :: "Compilation \<Rightarrow> Compilation \<Rightarrow> bool" where
  "grows c c' =
     (extends c c' \<and> scalarTypeTable c' = scalarTypeTable c
      \<and> (\<forall>k q. vectorTypeCache c k = Some q \<longrightarrow> vectorTypeCache c' k = Some q))"

text \<open>
  The flags and the shape that the rules of \<open>binaryOperatorType\<close> give for two integral
  operand types, stated on the types alone.
\<close>

definition operatorFlags :: "Type \<Rightarrow> Type \<Rightarrow> bool \<Rightarrow> IntegralFlags set" where
  "operatorFlags l r force =
     (if isSigned l \<and> isSigned r then {Signed} else {})
     \<union> (if force \<or> isFourState l \<or> isFourState r then {FourState} else {})
     \<union> (if isDeclaredReg l \<and> isDeclaredReg r then {Reg} else {})"

definition operatorScalar :: "Type \<Rightarrow> Type \<Rightarrow> bool" where
  "operatorScalar l r = (max (getBitWidth l) (getBitWidth r) = 1 \<and> (isScalar l \<or> isScalar r))"

definition operatorShape :: "Type \<Rightarrow> Type \<Rightarrow> bool \<Rightarrow> Type" where
  "operatorShape l r force =
     (if operatorScalar l r then scalarOf (operatorFlags l r force)
      else PackedArrayType (scalarOf (operatorFlags l r force))
             (ConstantRange (int (max (getBitWidth l) (getBitWidth r)) - 1) 0))"

text \<open>
  The first half of \<open>binaryOperatorType\<close> for numeric operands: the type computed before
  the aliases of the operands are considered.
\<close>

definition computedResult ::
  "Compilation \<Rightarrow> TypePtr \<Rightarrow> TypePtr \<Rightarrow> bool \<Rightarrow> error + (TypePtr \<times> Compilation)" where
  "computedResult c lt rt force =
     (let l = deref c lt; r = deref c rt in
      if isFloating l \<or> isFloating r then
        (if (isFloating l \<and> getBitWidth l = 64) \<or> (isFloating r \<and> getBitWidth r = 64)
         then Inr (getRealType, c)
         else Inr (getShortRealType, c))
      else
        let width = max (getBitWidth l) (getBitWidth r);
            lf = getIntegralFlags l;
            rf = getIntegralFlags r;
            flags = {};
            flags = (if Signed \<in> lf \<and> Signed \<in> rf then insert Signed flags else flags);
            flags = (if force \<or> FourState \<in> lf \<or> FourState \<in> rf
                     then insert FourState flags else flags);
            flags = (if Reg \<in> lf \<and> Reg \<in> rf then insert Reg flags else flags)
        in if width = 1 \<and> (isScalar l \<or> isScalar r)
           then (case getScalarType c flags of
                   Inl e \<Rightarrow> Inl e
                 | Inr ptr \<Rightarrow> Inr (ptr, c))
           else getType c width flags)"

text \<open>
  What the statements about \<open>addSyntaxTree\<close> need of the absent \<open>Scope::addMembers\<close>: it
  leaves alone the two members of the compilation that only \<open>addSyntaxTree\<close> and \<open>getRoot\<close>
  write, the set of instantiated names and the finalization flag.
\<close>

definition frame ::
  "(CompilationUnitSymbol \<times> Compilation \<Rightarrow> SyntaxNode \<Rightarrow> CompilationUnitSymbol \<times> Compilation) \<Rightarrow> bool" where
  "frame addMembers =
     (\<forall>uc m. instantiatedNames (snd (addMembers uc m)) = instantiatedNames (snd uc)
            \<and> finalized (snd (addMembers uc m)) = finalized (snd uc))"

text \<open>
  The compilation after a list of syntax trees has been offered to \<open>addSyntaxTree\<close> in
  turn, and the instances that the loop of \<open>getRoot\<close> creates for a set of instantiated names and
  the entries of the definition map.
\<close>

definition addSyntaxTrees ::
  "(CompilationUnitSymbol \<times> Compilation \<Rightarrow> SyntaxNode \<Rightarrow> CompilationUnitSymbol \<times> Compilation) \<Rightarrow>
   Compilation \<Rightarrow> SyntaxTree list \<Rightarrow> Compilation" where
  "addSyntaxTrees addMembers c trees = foldl (\<lambda>c tree. snd (addSyntaxTree addMembers c tree)) c trees"

definition newInstances ::
  "string set \<Rightarrow> (DefinitionKey \<times> Definition) list \<Rightarrow> ModuleInstanceSymbol list" where
  "newInstances names defs =
     map (\<lambda>(key, definition). instantiate (defName definition) key)
       (filter (\<lambda>(key, definition). defSyntaxKind definition = ModuleDeclaration
                                   \<and> defName definition \<notin> names) defs)"

text \<open>The lexer after one more call of \<open>lex()\<close> in normal mode.\<close>

definition nextLexer ::
  "(char \<Rightarrow> Lexer \<Rightarrow> bool \<Rightarrow> TokenKind \<times> Lexer) \<Rightarrow> (Lexer \<Rightarrow> Token \<times> Lexer) \<Rightarrow> Lexer \<Rightarrow> Lexer" where
  "nextLexer lexOther lexIncludeFileName l = snd (lexer_lex lexOther lexIncludeFileName NormalMode l)"

section \<open>Example operands\<close>

text \<open>
  Bound operands for the examples: the literal \<open>0\<close> as a replication count, with its
  constant attached, and a named value of type byte.
\<close>

definition zeroLiteral :: Expression where
  "zeroLiteral =
     Expression IntegerLiteral getIntType
       (Some (IntegerValue \<lparr>svBitWidth = 32, svSigned = True, svUnknown = False, svValue = 0\<rparr>))
       None []"

definition byteValue :: Expression where
  "byteValue = Expression NamedValue getByteType None None []"

text \<open>
  Instances of \<open>Expression::create\<close> and \<open>Expression::selfDetermined\<close> for the examples. The
  syntax \<open>OtherExpressionSyntax n\<close> stands for a name whose value has the type at address
  \<open>n\<close>; binding it gives a named value of that type and leaves the compilation as it is.
\<close>

definition bindName :: "Compilation \<Rightarrow> ExpressionSyntax \<Rightarrow> BindContext \<Rightarrow> Expression \<times> Compilation" where
  "bindName c syntax ctx =
     (Expression NamedValue (case syntax of OtherExpressionSyntax n \<Rightarrow> n | _ \<Rightarrow> getErrorType)
        None None [], c)"

definition bindNameSelfDetermined ::
  "Compilation \<Rightarrow> ExpressionSyntax \<Rightarrow> BindContext \<Rightarrow> BindFlags set \<Rightarrow> Expression \<times> Compilation" where
  "bindNameSelfDetermined c syntax ctx extraFlags = bindName c syntax ctx"

text \<open>
  A compilation in which a vector of \<open>2^23\<close> bits exists (the type \<open>bit [8388607:0]\<close>, at
  address 21), and the compilation after the concatenation \<open>{a, a, b}\<close> has been bound in
  it, for \<open>a\<close> of that type and \<open>b\<close> of type byte. The concatenation is \<open>2^24 + 8\<close> bits
  wide; its type is at address 22.
\<close>

definition halfWidthCompilation :: Compilation where
  "halfWidthCompilation =
     (case getType newCompilation 8388608 {} of Inr (p, c) \<Rightarrow> c | Inl e \<Rightarrow> newCompilation)"

definition wideConcatenation :: "ExpressionSyntax list" where
  "wideConcatenation =
     [OtherExpressionSyntax 21, OtherExpressionSyntax 21, OtherExpressionSyntax getByteType]"

definition afterWideConcatenation :: Compilation where
  "afterWideConcatenation =
     (case ConcatenationExpression_fromSyntax bindNameSelfDetermined halfWidthCompilation
             wideConcatenation \<lparr>bindFlags = {}\<rparr> of
        Inr (e, c) \<Rightarrow> c
      | Inl e \<Rightarrow> halfWidthCompilation)"

text \<open>
  The compilation after the conditional \<open>p ? b : b\<close> has then been bound, for \<open>p\<close> of type
  bit and \<open>b\<close> of type byte; the type of the conditional is at address 23.
\<close>

definition afterWideConditional :: Compilation where
  "afterWideConditional =
     (case ConditionalExpression_fromSyntax bindName afterWideConcatenation
             [OtherExpressionSyntax getBitType] (OtherExpressionSyntax getByteType)
             (OtherExpressionSyntax getByteType) \<lparr>bindFlags = {}\<rparr> of
        Inr (e, c) \<Rightarrow> c
      | Inl e \<Rightarrow> afterWideConcatenation)"

text \<open>
  An example of \<open>Scope::addMembers\<close> for a compilation unit: the member is recorded in the
  unit, and a module, interface or program declaration is entered in the definition map
  under the root scope, unless the map has an entry for that key already (the map is
  filled with \<open>emplace\<close>).
\<close>

definition registerMembers ::
  "CompilationUnitSymbol \<times> Compilation \<Rightarrow> SyntaxNode \<Rightarrow> CompilationUnitSymbol \<times> Compilation" where
  "registerMembers uc member =
     (let unit = (fst uc)\<lparr>unitMembers := unitMembers (fst uc) @ [member]\<rparr>
      in case member of
           ModuleDeclarationSyntax k name members \<Rightarrow>
             (unit,
              if (name, 0) \<in> fst ` set (definitionMap (snd uc)) then snd uc
              else (snd uc)\<lparr>definitionMap := definitionMap (snd uc)
                               @ [((name, 0), \<lparr>defName = name, defSyntaxKind = k\<rparr>)]\<rparr>)
         | _ \<Rightarrow> (unit, snd uc))"

definition exampleTree :: SyntaxTree where
  "exampleTree =
     \<lparr>treeSourceManager = 1,
      treeRoot = CompilationUnit
        [ModuleDeclarationSyntax ModuleDeclaration ''top'' [HierarchyInstantiation ''sub''],
         ModuleDeclarationSyntax ModuleDeclaration ''sub'' [],
         ModuleDeclarationSyntax ModuleDeclaration ''aux'' []]\<rparr>"

text \<open>
  Instances of the two parameters of \<open>lex\<close> for the examples: the default case of the switch
  of \<open>lexToken\<close> for an ASCII character that starts no token (it reports the character at
  the offset where the token starts, which is one before the lexer after \<open>advance()\<close>, and
  the token is \<open>Unknown\<close>), and an include file name lexer that returns an empty token; the
  examples never lex in that mode.
\<close>

definition lexNonPrintable :: "char \<Rightarrow> Lexer \<Rightarrow> bool \<Rightarrow> TokenKind \<times> Lexer" where
  "lexNonPrintable c l directiveMode =
     (Unknown, lexerError l NonPrintableChar (currentOffset l - 1))"

definition lexNoFileName :: "Lexer \<Rightarrow> Token \<times> Lexer" where
  "lexNoFileName l =
     (\<lparr>tokenKind = IncludeFileName, tokenTrivia = [], tokenRawText = [], tokenLocation = 0\<rparr>, l)"

text \<open>A lexer at the start of a buffer, as the constructor leaves it when there is no byte order mark.\<close>

definition lexerOn :: "string \<Rightarrow> nat \<Rightarrow> Lexer" where
  "lexerOn text maxErrors0 =
     \<lparr>source = text, sourceBuffer = 0, marker = 0, diagnostics = [],
      maxErrors = maxErrors0, onNewLine = True, errorCount = 0\<rparr>"

section \<open>Facts about keys, flags and the type tables\<close>

lemma bits_lt8: "bits f < 8"
  by (simp add: bits_def)

lemma bits_inj: "bits f = bits g \<Longrightarrow> f = g"
proof -
  assume h: "bits f = bits g"
  have "x \<in> f \<longleftrightarrow> x \<in> g" for x
    using h by (cases x) (auto simp: bits_def split: if_splits)
  then show ?thesis by blast
qed

lemma take_bit_typeKey: "w < 2 ^ BITWIDTH_BITS \<Longrightarrow> take_bit BITWIDTH_BITS (typeKey w f) = w"
  by (simp add: typeKey_def take_bit_push_bit take_bit_nat_eq_self)

lemma drop_bit_typeKey: "w < 2 ^ BITWIDTH_BITS \<Longrightarrow> drop_bit BITWIDTH_BITS (typeKey w f) = bits f"
proof -
  assume h: "w < 2 ^ BITWIDTH_BITS"
  have "drop_bit BITWIDTH_BITS w = 0" using h by (simp add: drop_bit_eq_div)
  then show ?thesis by (simp add: typeKey_def drop_bit_push_bit)
qed

lemma validWidth_lt: "validWidth w \<Longrightarrow> w < 2 ^ BITWIDTH_BITS"
proof -
  assume "validWidth w"
  then have "w \<le> 2 ^ BITWIDTH_BITS - 1" by (simp add: validWidth_def MAX_BITS_def)
  moreover have "(0::nat) < 2 ^ BITWIDTH_BITS" by simp
  ultimately show ?thesis by linarith
qed

lemma typeKey_inj:
  assumes "validWidth w" "validWidth w'" "typeKey w f = typeKey w' f'"
  shows "w = w' \<and> f = f'"
proof -
  have "w = w'"
    using assms take_bit_typeKey [OF validWidth_lt, of w f] take_bit_typeKey [OF validWidth_lt, of w' f']
    by simp
  moreover have "bits f = bits f'"
    using assms drop_bit_typeKey [OF validWidth_lt, of w f] drop_bit_typeKey [OF validWidth_lt, of w' f']
    by simp
  ultimately show ?thesis using bits_inj by blast
qed

lemma scalar_table_new:
  "regular f \<Longrightarrow> \<exists>p. scalarTypeTable newCompilation (bits f mod 8) = Some p \<and> p < length memberTypes
                  \<and> memberTypes ! p = scalarOf f"
  by (auto simp: regular_def newCompilation_def registerScalar_def bits_def scalarOf_def memberTypes_def
      getIntegralFlags_def getBitType_def getLogicType_def getRegType_def getSignedBitType_def
      getSignedLogicType_def getSignedRegType_def)

lemma scalarsRegistered_new: "scalarsRegistered newCompilation"
  unfolding scalarsRegistered_def using scalar_table_new
  by (auto simp: newCompilation_def)

lemma wellFormed_new: "wellFormed newCompilation"
  unfolding wellFormed_def using scalarsRegistered_new
  by (auto simp: newCompilation_def)

lemma getType_hit:
  "0 < w \<Longrightarrow> vectorTypeCache c (typeKey w f) = Some p \<Longrightarrow> getType c w f = Inr (p, c)"
  by (simp add: getType_def)

lemma getType_miss:
  "0 < w \<Longrightarrow> vectorTypeCache c (typeKey w f) = None \<Longrightarrow>
   scalarTypeTable c (bits f mod 8) = Some s \<Longrightarrow>
   getType c w f =
     Inr (length (typeStore c),
          c\<lparr>typeStore := typeStore c @ [PackedArrayType (deref c s) (ConstantRange (int32 (w - 1)) 0)],
            vectorTypeCache := (vectorTypeCache c)(typeKey w f \<mapsto> length (typeStore c))\<rparr>)"
  by (simp add: getType_def getScalarType_def emplace_def)

lemma getType_cached:
  "getType c w f = Inr (p, c') \<Longrightarrow> vectorTypeCache c' (typeKey w f) = Some p"
  by (auto simp: getType_def getScalarType_def emplace_def Let_def
      split: if_splits option.splits sum.splits)

lemma getType_positive: "getType c w f = Inr (p, c') \<Longrightarrow> 0 < w"
  by (auto simp: getType_def split: if_splits)

lemma getType_again: "getType c w f = Inr (p, c') \<Longrightarrow> getType c' w f = Inr (p, c')"
  using getType_cached getType_positive getType_hit by blast

lemma getType_cache_mono:
  "getType c w f = Inr (p, c') \<Longrightarrow> vectorTypeCache c k = Some q \<Longrightarrow> vectorTypeCache c' k = Some q"
  by (auto simp: getType_def getScalarType_def emplace_def Let_def
      split: if_splits option.splits sum.splits)

lemma getType_scalars:
  "getType c w f = Inr (p, c') \<Longrightarrow> scalarsRegistered c \<Longrightarrow> scalarsRegistered c'"
  by (auto simp: getType_def getScalarType_def emplace_def Let_def scalarsRegistered_def
      split: if_splits option.splits sum.splits)

lemma getType_total:
  assumes "scalarsRegistered c" "0 < w" "regular f"
  shows "\<exists>p c'. getType c w f = Inr (p, c')"
proof (cases "vectorTypeCache c (typeKey w f)")
  case None
  from assms obtain s where "scalarTypeTable c (bits f mod 8) = Some s"
    unfolding scalarsRegistered_def by blast
  with None assms show ?thesis using getType_miss by blast
next
  case (Some p)
  with assms show ?thesis using getType_hit by blast
qed

section \<open>Facts about types and about getType\<close>

lemma canonical_width [simp]: "getBitWidth (getCanonicalType t) = getBitWidth t"
  by (induction t) simp_all

lemma canonical_signed [simp]: "isSigned (getCanonicalType t) = isSigned t"
  by (induction t) simp_all

lemma canonical_fourState [simp]: "isFourState (getCanonicalType t) = isFourState t"
  by (induction t) simp_all

lemma canonical_reg [simp]: "isDeclaredReg (getCanonicalType t) = isDeclaredReg t"
  by (induction t) simp_all

lemma canonical_integral [simp]: "isIntegral (getCanonicalType t) = isIntegral t"
  by (induction t) simp_all

lemma canonical_idem [simp]: "getCanonicalType (getCanonicalType t) = getCanonicalType t"
  by (induction t) simp_all

lemma matching_width: "isMatching a b \<Longrightarrow> getBitWidth a = getBitWidth b"
  by (metis canonical_width isMatching_def)

lemma matching_signed: "isMatching a b \<Longrightarrow> isSigned a = isSigned b"
  by (metis canonical_signed isMatching_def)

lemma matching_fourState: "isMatching a b \<Longrightarrow> isFourState a = isFourState b"
  by (metis canonical_fourState isMatching_def)

lemma matching_integral: "isMatching a b \<Longrightarrow> isIntegral a = isIntegral b"
  by (metis canonical_integral isMatching_def)

lemma matching_floating: "isMatching a b \<Longrightarrow> isFloating a = isFloating b"
  by (simp add: isMatching_def isFloating_def)

lemma matching_scalar: "isMatching a b \<Longrightarrow> isScalar a = isScalar b"
  by (simp add: isMatching_def isScalar_def)

lemma integral_width_pos: "isIntegral t \<Longrightarrow> 0 < getBitWidth t"
  by (induction t rule: getBitWidth.induct) (simp_all add: rangeWidth_def)

lemma reg_fourState: "isDeclaredReg t \<Longrightarrow> isFourState t"
  by (induction t) simp_all

lemma integral_not_floating: "isIntegral t \<Longrightarrow> \<not> isFloating t"
  by (induction t) (simp_all add: isFloating_def)

lemma scalar_integral: "isScalar t \<Longrightarrow> isIntegral t"
  by (induction t) (simp_all add: isScalar_def)

lemma int32_small: "w < 2 ^ 31 \<Longrightarrow> int32 w = int w"
  by (simp add: int32_def)

lemma validWidth_int32: "validWidth w \<Longrightarrow> int32 (w - 1) = int w - 1"
proof -
  assume h: "validWidth w"
  have "w < 2 ^ 24" using validWidth_lt [OF h] by (simp add: BITWIDTH_BITS_def)
  then have "w - 1 < 2 ^ 31" by simp
  then have "int32 (w - 1) = int (w - 1)" by (rule int32_small)
  moreover have "0 < w" using h by (simp add: validWidth_def)
  ultimately show ?thesis by simp
qed

lemma deref_member:
  "scalarsRegistered c \<Longrightarrow> p < length memberTypes \<Longrightarrow> deref c p = memberTypes ! p"
  unfolding scalarsRegistered_def deref_def
  by (metis nth_take)

lemma extends_refl: "extends c c"
  by (simp add: extends_def)

lemma extends_trans: "extends a b \<Longrightarrow> extends b c \<Longrightarrow> extends a c"
  by (auto simp: extends_def)

lemma extends_deref: "extends c c' \<Longrightarrow> validPtr c p \<Longrightarrow> deref c' p = deref c p"
  by (auto simp: extends_def validPtr_def deref_def nth_append)

lemma extends_valid: "extends c c' \<Longrightarrow> validPtr c p \<Longrightarrow> validPtr c' p"
  by (auto simp: extends_def validPtr_def)

lemma getType_wf:
  assumes wf: "wellFormed c" and w: "validWidth w" and f: "regular f"
  shows "\<exists>p c'. getType c w f = Inr (p, c') \<and> wellFormed c' \<and> validPtr c' p
           \<and> deref c' p = PackedArrayType (scalarOf f) (ConstantRange (int w - 1) 0)
           \<and> extends c c' \<and> diags c' = diags c"
proof (cases "vectorTypeCache c (typeKey w f)")
  case (Some p)
  have pos: "0 < w" using w by (simp add: validWidth_def)
  have "getType c w f = Inr (p, c)" using getType_hit [OF pos Some] .
  moreover have "validPtr c p \<and> deref c p = PackedArrayType (scalarOf f) (ConstantRange (int w - 1) 0)"
    using wf w Some unfolding wellFormed_def validPtr_def deref_def by blast
  ultimately show ?thesis using wf extends_refl by blast
next
  case None
  have pos: "0 < w" using w by (simp add: validWidth_def)
  have sr: "scalarsRegistered c" using wf by (simp add: wellFormed_def)
  from sr f obtain s where s: "scalarTypeTable c (bits f mod 8) = Some s"
    "s < length memberTypes" "memberTypes ! s = scalarOf f"
    unfolding scalarsRegistered_def by blast
  define t where "t = PackedArrayType (scalarOf f) (ConstantRange (int w - 1) 0)"
  define c' where "c' = c\<lparr>typeStore := typeStore c @ [t],
            vectorTypeCache := (vectorTypeCache c)(typeKey w f \<mapsto> length (typeStore c))\<rparr>"
  have ds: "deref c s = scalarOf f" using deref_member [OF sr s(2)] s(3) by simp
  have g: "getType c w f = Inr (length (typeStore c), c')"
    using getType_miss [OF pos None s(1)] ds validWidth_int32 [OF w]
    by (simp add: c'_def t_def)
  have ext: "extends c c'" by (simp add: extends_def c'_def)
  have vp: "validPtr c' (length (typeStore c))" by (simp add: validPtr_def c'_def)
  have dp: "deref c' (length (typeStore c)) = t" by (simp add: deref_def c'_def)
  have sr': "scalarsRegistered c'"
    using sr by (auto simp: scalarsRegistered_def c'_def)
  have cache: "p < length (typeStore c') \<and>
       typeStore c' ! p = PackedArrayType (scalarOf f') (ConstantRange (int w' - 1) 0)"
    if h: "validWidth w'" "vectorTypeCache c' (typeKey w' f') = Some p" for w' f' p
  proof (cases "typeKey w' f' = typeKey w f")
    case True
    then have eq: "w' = w \<and> f' = f" using typeKey_inj [OF h(1) w] by blast
    have "p = length (typeStore c)" using h(2) True by (simp add: c'_def)
    then show ?thesis using eq by (simp add: c'_def t_def)
  next
    case False
    then have old: "vectorTypeCache c (typeKey w' f') = Some p" using h(2) by (simp add: c'_def)
    then have "p < length (typeStore c) \<and>
       typeStore c ! p = PackedArrayType (scalarOf f') (ConstantRange (int w' - 1) 0)"
      using wf h(1) unfolding wellFormed_def by blast
    then show ?thesis by (simp add: c'_def nth_append)
  qed
  have wf': "wellFormed c'" unfolding wellFormed_def using sr' cache by blast
  have "diags c' = diags c" by (simp add: c'_def)
  then show ?thesis using g wf' vp dp ext t_def by blast
qed

section \<open>Facts about binaryOperatorType\<close>

lemma grows_refl: "grows c c"
  by (simp add: grows_def extends_refl)

lemma grows_trans: "grows a b \<Longrightarrow> grows b c \<Longrightarrow> grows a c"
  unfolding grows_def using extends_trans by auto

lemma getType_grows: "getType c w f = Inr (p, c') \<Longrightarrow> grows c c'"
  by (auto simp: getType_def getScalarType_def emplace_def Let_def grows_def extends_def
      split: if_splits option.splits sum.splits)

lemma getType_diags: "getType c w f = Inr (p, c') \<Longrightarrow> diags c' = diags c"
  by (auto simp: getType_def getScalarType_def emplace_def Let_def
      split: if_splits option.splits sum.splits)

lemma flags_signed: "isIntegral t \<Longrightarrow> Signed \<in> getIntegralFlags t \<longleftrightarrow> isSigned t"
  by (simp add: getIntegralFlags_def)

lemma flags_fourState: "isIntegral t \<Longrightarrow> FourState \<in> getIntegralFlags t \<longleftrightarrow> isFourState t"
  by (simp add: getIntegralFlags_def)

lemma flags_reg: "isIntegral t \<Longrightarrow> Reg \<in> getIntegralFlags t \<longleftrightarrow> isDeclaredReg t"
  by (simp add: getIntegralFlags_def)

lemma binaryOperatorType_alt:
  "binaryOperatorType c lt rt f =
     (if \<not> isNumeric (deref c lt) \<or> \<not> isNumeric (deref c rt) then Inr (getErrorType, c)
      else case computedResult c lt rt f of
             Inl e \<Rightarrow> Inl e
           | Inr (result, c') \<Rightarrow>
               if isMatching (deref c' lt) (deref c' result) then Inr (lt, c')
               else if isMatching (deref c' rt) (deref c' result) then Inr (rt, c')
               else Inr (result, c'))"
  by (simp add: binaryOperatorType_def computedResult_def Let_def)

lemma computedResult_integral:
  assumes "isIntegral (deref c lt)" "isIntegral (deref c rt)"
  shows "computedResult c lt rt f =
     (if operatorScalar (deref c lt) (deref c rt)
      then (case getScalarType c (operatorFlags (deref c lt) (deref c rt) f) of
              Inl e \<Rightarrow> Inl e | Inr ptr \<Rightarrow> Inr (ptr, c))
      else getType c (max (getBitWidth (deref c lt)) (getBitWidth (deref c rt)))
             (operatorFlags (deref c lt) (deref c rt) f))"
  using assms
  by (auto simp: computedResult_def Let_def integral_not_floating operatorScalar_def
      operatorFlags_def flags_signed flags_fourState flags_reg insert_commute)

lemma operatorFlags_regular: "regular (operatorFlags l r f)"
  using reg_fourState by (auto simp: regular_def operatorFlags_def)

lemma grows_extends: "grows c c' \<Longrightarrow> extends c c'"
  by (simp add: grows_def)

lemma scalarOf_width [simp]: "getBitWidth (scalarOf F) = 1"
  by (simp add: scalarOf_def)

lemma scalarOf_signed [simp]: "isSigned (scalarOf F) = (Signed \<in> F)"
  by (simp add: scalarOf_def)

lemma scalarOf_fourState [simp]: "isFourState (scalarOf F) = (Reg \<in> F \<or> FourState \<in> F)"
  by (simp add: scalarOf_def)

lemma scalarOf_reg [simp]: "isDeclaredReg (scalarOf F) = (Reg \<in> F)"
  by (simp add: scalarOf_def)

lemma scalarOf_integral [simp]: "isIntegral (scalarOf F)"
  by (simp add: scalarOf_def)

lemma scalarOf_scalar [simp]: "isScalar (scalarOf F)"
  by (simp add: scalarOf_def isScalar_def)

lemma shape_width:
  "isIntegral l \<Longrightarrow> getBitWidth (operatorShape l r f) = max (getBitWidth l) (getBitWidth r)"
proof -
  assume "isIntegral l"
  then have "0 < max (getBitWidth l) (getBitWidth r)"
    using integral_width_pos [of l] by simp
  then have "Suc (nat (int (max (getBitWidth l) (getBitWidth r)) - 1))
      = max (getBitWidth l) (getBitWidth r)"
    by linarith
  then show ?thesis
    by (simp add: operatorShape_def operatorScalar_def rangeWidth_def)
qed

lemma shape_signed: "isSigned (operatorShape l r f) = (isSigned l \<and> isSigned r)"
  by (simp add: operatorShape_def operatorFlags_def)

lemma shape_fourState:
  "isFourState (operatorShape l r f) = (f \<or> isFourState l \<or> isFourState r)"
  using reg_fourState [of l] by (auto simp: operatorShape_def operatorFlags_def)

lemma shape_reg: "isDeclaredReg (operatorShape l r f) = (isDeclaredReg l \<and> isDeclaredReg r)"
  by (simp add: operatorShape_def operatorFlags_def)

lemma shape_integral: "isIntegral (operatorShape l r f)"
  by (simp add: operatorShape_def)

lemma shape_scalar: "isScalar (operatorShape l r f) = operatorScalar l r"
  using scalarOf_scalar [of "operatorFlags l r f"]
  by (simp add: operatorShape_def) (simp add: isScalar_def)

lemma computedResult_integral_wf:
  assumes wf: "wellFormed c"
    and il: "isIntegral (deref c lt)" and ir: "isIntegral (deref c rt)"
    and wl: "getBitWidth (deref c lt) \<le> MAX_BITS" and wr: "getBitWidth (deref c rt) \<le> MAX_BITS"
  shows "\<exists>p c'. computedResult c lt rt f = Inr (p, c') \<and> wellFormed c' \<and> grows c c'
           \<and> validPtr c' p \<and> deref c' p = operatorShape (deref c lt) (deref c rt) f
           \<and> diags c' = diags c"
proof (cases "operatorScalar (deref c lt) (deref c rt)")
  case True
  have sr: "scalarsRegistered c" using wf by (simp add: wellFormed_def)
  from sr operatorFlags_regular obtain p where p:
    "scalarTypeTable c (bits (operatorFlags (deref c lt) (deref c rt) f) mod 8) = Some p"
    "p < length memberTypes" "memberTypes ! p = scalarOf (operatorFlags (deref c lt) (deref c rt) f)"
    unfolding scalarsRegistered_def by blast
  have "computedResult c lt rt f = Inr (p, c)"
    using computedResult_integral [OF il ir] True p(1) by (simp add: getScalarType_def)
  moreover have "validPtr c p" using sr p(2) by (simp add: scalarsRegistered_def validPtr_def)
  moreover have "deref c p = operatorShape (deref c lt) (deref c rt) f"
    using deref_member [OF sr p(2)] p(3) True by (simp add: operatorShape_def)
  ultimately show ?thesis using wf grows_refl by blast
next
  case False
  have "0 < getBitWidth (deref c lt)" using il by (rule integral_width_pos)
  then have vw: "validWidth (max (getBitWidth (deref c lt)) (getBitWidth (deref c rt)))"
    using wl wr by (simp add: validWidth_def)
  from getType_wf [OF wf vw operatorFlags_regular]
  obtain p c' where g:
    "getType c (max (getBitWidth (deref c lt)) (getBitWidth (deref c rt)))
       (operatorFlags (deref c lt) (deref c rt) f) = Inr (p, c')"
    "wellFormed c'" "validPtr c' p"
    "deref c' p = PackedArrayType (scalarOf (operatorFlags (deref c lt) (deref c rt) f))
        (ConstantRange (int (max (getBitWidth (deref c lt)) (getBitWidth (deref c rt))) - 1) 0)"
    "diags c' = diags c"
    by blast
  have "computedResult c lt rt f = Inr (p, c')"
    using computedResult_integral [OF il ir] False g(1) by simp
  moreover have "deref c' p = operatorShape (deref c lt) (deref c rt) f"
    using g(4) False by (simp add: operatorShape_def)
  ultimately show ?thesis using g(2,3,5) getType_grows [OF g(1)] by blast
qed

lemma isMatching_refl: "isMatching a a"
  by (simp add: isMatching_def)

lemma integral_numeric: "isIntegral t \<Longrightarrow> isNumeric t"
  by (simp add: isNumeric_def)

lemma binaryOperatorType_integral_wf:
  assumes wf: "wellFormed c" and vl: "validPtr c lt" and vr: "validPtr c rt"
    and il: "isIntegral (deref c lt)" and ir: "isIntegral (deref c rt)"
    and wl: "getBitWidth (deref c lt) \<le> MAX_BITS" and wr: "getBitWidth (deref c rt) \<le> MAX_BITS"
  shows "\<exists>res c'. binaryOperatorType c lt rt f = Inr (res, c') \<and> wellFormed c' \<and> grows c c'
           \<and> validPtr c' res
           \<and> isMatching (deref c' res) (operatorShape (deref c lt) (deref c rt) f)
           \<and> diags c' = diags c"
proof -
  from computedResult_integral_wf [OF wf il ir wl wr]
  obtain p c' where p: "computedResult c lt rt f = Inr (p, c')" "wellFormed c'" "grows c c'"
    "validPtr c' p" "deref c' p = operatorShape (deref c lt) (deref c rt) f" "diags c' = diags c"
    by blast
  have ext: "extends c c'" using p(3) by (rule grows_extends)
  have dl: "deref c' lt = deref c lt" using extends_deref [OF ext vl] .
  have dr: "deref c' rt = deref c rt" using extends_deref [OF ext vr] .
  have num: "isNumeric (deref c lt)" "isNumeric (deref c rt)"
    using il ir by (simp_all add: integral_numeric)
  consider (l) "isMatching (deref c' lt) (deref c' p)"
    | (r) "\<not> isMatching (deref c' lt) (deref c' p)" "isMatching (deref c' rt) (deref c' p)"
    | (n) "\<not> isMatching (deref c' lt) (deref c' p)" "\<not> isMatching (deref c' rt) (deref c' p)"
    by blast
  then show ?thesis
  proof cases
    case l
    then have "binaryOperatorType c lt rt f = Inr (lt, c')"
      using p(1) num by (simp add: binaryOperatorType_alt)
    then show ?thesis using l p extends_valid [OF ext vl] by auto
  next
    case r
    then have "binaryOperatorType c lt rt f = Inr (rt, c')"
      using p(1) num by (simp add: binaryOperatorType_alt)
    then show ?thesis using r p extends_valid [OF ext vr] by auto
  next
    case n
    then have "binaryOperatorType c lt rt f = Inr (p, c')"
      using p(1) num by (simp add: binaryOperatorType_alt)
    then show ?thesis using p isMatching_refl by auto
  qed
qed

lemma getType_stable:
  assumes "getType c w F = Inr (p, c')" "grows c' c''"
  shows "getType c'' w F = Inr (p, c'')"
proof -
  have "vectorTypeCache c' (typeKey w F) = Some p" using assms(1) by (rule getType_cached)
  then have "vectorTypeCache c'' (typeKey w F) = Some p" using assms(2) by (simp add: grows_def)
  then show ?thesis using getType_positive [OF assms(1)] getType_hit by blast
qed

lemma computedResult_floating:
  "isFloating (deref c lt) \<or> isFloating (deref c rt) \<Longrightarrow>
   computedResult c lt rt f =
     Inr (if (isFloating (deref c lt) \<and> getBitWidth (deref c lt) = 64)
             \<or> (isFloating (deref c rt) \<and> getBitWidth (deref c rt) = 64)
          then getRealType else getShortRealType, c)"
  by (simp add: computedResult_def Let_def)

lemma computedResult_grows: "computedResult c lt rt f = Inr (p, c') \<Longrightarrow> grows c c'"
proof -
  assume h: "computedResult c lt rt f = Inr (p, c')"
  show ?thesis
  proof (cases "isFloating (deref c lt) \<or> isFloating (deref c rt)")
    case True
    then have "c' = c" using h computedResult_floating [OF True, of f] by simp
    then show ?thesis by (simp add: grows_refl)
  next
    case False
    then show ?thesis
      using h getType_grows grows_refl
      by (auto simp: computedResult_def Let_def split: if_splits sum.splits)
  qed
qed


lemma computedResult_stable:
  assumes h: "computedResult c lt rt f = Inr (p, c')" and g: "grows c' c''"
    and dl: "deref c'' lt = deref c lt" and dr: "deref c'' rt = deref c rt"
  shows "computedResult c'' lt rt f = Inr (p, c'')"
proof (cases "isFloating (deref c lt) \<or> isFloating (deref c rt)")
  case True
  then have "isFloating (deref c'' lt) \<or> isFloating (deref c'' rt)" by (simp add: dl dr)
  from computedResult_floating [OF this, of f] computedResult_floating [OF True, of f] h
  show ?thesis by (simp add: dl dr)
next
  case False
  have tab: "scalarTypeTable c'' = scalarTypeTable c"
    using computedResult_grows [OF h] g by (simp add: grows_def)
  define width where "width = max (getBitWidth (deref c lt)) (getBitWidth (deref c rt))"
  define F where "F =
     (if Reg \<in> getIntegralFlags (deref c lt) \<and> Reg \<in> getIntegralFlags (deref c rt)
         then insert Reg else id)
        ((if f \<or> FourState \<in> getIntegralFlags (deref c lt) \<or> FourState \<in> getIntegralFlags (deref c rt)
          then insert FourState else id)
         ((if Signed \<in> getIntegralFlags (deref c lt) \<and> Signed \<in> getIntegralFlags (deref c rt)
           then insert Signed else id) {}))"
  have e1: "computedResult c lt rt f =
      (if width = 1 \<and> (isScalar (deref c lt) \<or> isScalar (deref c rt))
       then (case getScalarType c F of Inl e \<Rightarrow> Inl e | Inr ptr \<Rightarrow> Inr (ptr, c))
       else getType c width F)"
    using False by (simp add: computedResult_def Let_def width_def F_def if_distrib cong: if_cong)
  have e2: "computedResult c'' lt rt f =
      (if width = 1 \<and> (isScalar (deref c lt) \<or> isScalar (deref c rt))
       then (case getScalarType c'' F of Inl e \<Rightarrow> Inl e | Inr ptr \<Rightarrow> Inr (ptr, c''))
       else getType c'' width F)"
    using False by (simp add: computedResult_def Let_def width_def F_def dl dr if_distrib cong: if_cong)
  show ?thesis
  proof (cases "width = 1 \<and> (isScalar (deref c lt) \<or> isScalar (deref c rt))")
    case True
    from e1 True have "computedResult c lt rt f =
        (case getScalarType c F of Inl e \<Rightarrow> Inl e | Inr ptr \<Rightarrow> Inr (ptr, c))"
      by (simp only: if_P if_True)
    then have "(case getScalarType c F of Inl e \<Rightarrow> Inl e | Inr ptr \<Rightarrow> Inr (ptr, c)) = Inr (p, c')"
      using h by simp
    then have "getScalarType c F = Inr p" by (simp split: sum.splits)
    then have "getScalarType c'' F = Inr p" by (simp add: getScalarType_def tab)
    moreover from e2 True have "computedResult c'' lt rt f =
        (case getScalarType c'' F of Inl e \<Rightarrow> Inl e | Inr ptr \<Rightarrow> Inr (ptr, c''))"
      by (simp only: if_P if_True)
    moreover have "c' = c" using \<open>(case getScalarType c F of Inl e \<Rightarrow> Inl e | Inr ptr \<Rightarrow> Inr (ptr, c)) = Inr (p, c')\<close>
      by (simp split: sum.splits)
    ultimately show ?thesis by simp
  next
    case False
    from e1 False have "computedResult c lt rt f = getType c width F" by (simp only: if_not_P if_False)
    then have "getType c width F = Inr (p, c')" using h by simp
    then have "getType c'' width F = Inr (p, c'')" using g by (rule getType_stable)
    moreover from e2 False have "computedResult c'' lt rt f = getType c'' width F"
      by (simp only: if_not_P if_False)
    ultimately show ?thesis by simp
  qed
qed

lemma member_valid: "scalarsRegistered c \<Longrightarrow> p < length memberTypes \<Longrightarrow> validPtr c p"
  by (simp add: scalarsRegistered_def validPtr_def)

lemma length_memberTypes: "length memberTypes = 21"
  by (simp add: memberTypes_def)

lemma deref_error: "scalarsRegistered c \<Longrightarrow> deref c getErrorType = ErrorType"
  using deref_member [of c getErrorType]
  by (simp add: length_memberTypes getErrorType_def memberTypes_def)

lemma deref_real: "scalarsRegistered c \<Longrightarrow> deref c getRealType = FloatingType Real"
  using deref_member [of c getRealType]
  by (simp add: length_memberTypes getRealType_def memberTypes_def)

lemma deref_shortReal: "scalarsRegistered c \<Longrightarrow> deref c getShortRealType = FloatingType ShortReal"
  using deref_member [of c getShortRealType]
  by (simp add: length_memberTypes getShortRealType_def memberTypes_def)

lemma deref_void: "scalarsRegistered c \<Longrightarrow> deref c getVoidType = VoidType"
  using deref_member [of c getVoidType]
  by (simp add: length_memberTypes getVoidType_def memberTypes_def)

lemma wellFormed_scalars: "wellFormed c \<Longrightarrow> scalarsRegistered c"
  by (simp add: wellFormed_def)

lemma numeric_cases:
  "isNumeric l \<Longrightarrow> isNumeric r \<Longrightarrow> \<not> (isFloating l \<or> isFloating r) \<Longrightarrow> isIntegral l \<and> isIntegral r"
  by (auto simp: isNumeric_def)

lemma computedResult_wf:
  assumes wf: "wellFormed c"
    and nl: "isNumeric (deref c lt)" and nr: "isNumeric (deref c rt)"
    and wl: "getBitWidth (deref c lt) \<le> MAX_BITS" and wr: "getBitWidth (deref c rt) \<le> MAX_BITS"
  shows "\<exists>p c'. computedResult c lt rt f = Inr (p, c') \<and> wellFormed c' \<and> grows c c'
           \<and> validPtr c' p \<and> diags c' = diags c \<and> getBitWidth (deref c' p) \<le> MAX_BITS
           \<and> (isFloating (deref c lt) \<or> isFloating (deref c rt) \<longrightarrow> c' = c \<and> isFloating (deref c p))
           \<and> (\<not> (isFloating (deref c lt) \<or> isFloating (deref c rt)) \<longrightarrow>
                 deref c' p = operatorShape (deref c lt) (deref c rt) f)"
proof (cases "isFloating (deref c lt) \<or> isFloating (deref c rt)")
  case True
  have sr: "scalarsRegistered c" using wf by (rule wellFormed_scalars)
  define p where "p = (if (isFloating (deref c lt) \<and> getBitWidth (deref c lt) = 64)
             \<or> (isFloating (deref c rt) \<and> getBitWidth (deref c rt) = 64)
          then getRealType else getShortRealType)"
  have "computedResult c lt rt f = Inr (p, c)"
    using computedResult_floating [OF True, of f] by (simp add: p_def)
  moreover have "validPtr c p"
    using member_valid [OF sr]
    by (simp add: p_def length_memberTypes getRealType_def getShortRealType_def)
  moreover have "isFloating (deref c p)"
    using deref_real [OF sr] deref_shortReal [OF sr] by (simp add: p_def isFloating_def)
  moreover have "getBitWidth (deref c p) \<le> MAX_BITS"
    using deref_real [OF sr] deref_shortReal [OF sr]
    by (simp add: p_def MAX_BITS_def BITWIDTH_BITS_def)
  ultimately show ?thesis using wf True grows_refl by blast
next
  case False
  have i: "isIntegral (deref c lt)" "isIntegral (deref c rt)"
    using numeric_cases [OF nl nr False] by simp_all
  from computedResult_integral_wf [OF wf i wl wr, of f]
  obtain p c' where p: "computedResult c lt rt f = Inr (p, c')" "wellFormed c'" "grows c c'"
    "validPtr c' p" "deref c' p = operatorShape (deref c lt) (deref c rt) f" "diags c' = diags c"
    by blast
  have "getBitWidth (deref c' p) \<le> MAX_BITS"
    using p(5) shape_width [OF i(1), of "deref c rt" f] wl wr by simp
  then show ?thesis using p False by blast
qed

lemma binaryOperatorType_nonnumeric:
  "\<not> isNumeric (deref c lt) \<or> \<not> isNumeric (deref c rt) \<Longrightarrow>
   binaryOperatorType c lt rt f = Inr (getErrorType, c)"
  by (simp add: binaryOperatorType_alt)

lemma binaryOperatorType_numeric:
  "isNumeric (deref c lt) \<Longrightarrow> isNumeric (deref c rt) \<Longrightarrow> computedResult c lt rt f = Inr (p, c') \<Longrightarrow>
   binaryOperatorType c lt rt f =
     Inr (if isMatching (deref c' lt) (deref c' p) then lt
          else if isMatching (deref c' rt) (deref c' p) then rt else p, c')"
  by (simp add: binaryOperatorType_alt)

lemma binaryOperatorType_wf:
  assumes wf: "wellFormed c" and vl: "validPtr c lt" and vr: "validPtr c rt"
    and wl: "getBitWidth (deref c lt) \<le> MAX_BITS" and wr: "getBitWidth (deref c rt) \<le> MAX_BITS"
  shows "\<exists>t c'. binaryOperatorType c lt rt f = Inr (t, c') \<and> wellFormed c' \<and> grows c c'
           \<and> validPtr c' t \<and> diags c' = diags c \<and> getBitWidth (deref c' t) \<le> MAX_BITS"
proof (cases "isNumeric (deref c lt) \<and> isNumeric (deref c rt)")
  case False
  then have "binaryOperatorType c lt rt f = Inr (getErrorType, c)"
    using binaryOperatorType_nonnumeric by blast
  moreover have "validPtr c getErrorType"
    using member_valid [OF wellFormed_scalars [OF wf]] by (simp add: length_memberTypes getErrorType_def)
  moreover have "getBitWidth (deref c getErrorType) \<le> MAX_BITS"
    using deref_error [OF wellFormed_scalars [OF wf]] by simp
  ultimately show ?thesis using wf grows_refl by blast
next
  case True
  then have n: "isNumeric (deref c lt)" "isNumeric (deref c rt)" by simp_all
  from computedResult_wf [OF wf n wl wr, of f]
  obtain p c' where p: "computedResult c lt rt f = Inr (p, c')" "wellFormed c'" "grows c c'"
    "validPtr c' p" "diags c' = diags c" "getBitWidth (deref c' p) \<le> MAX_BITS" by blast
  have ext: "extends c c'" using p(3) by (rule grows_extends)
  define t where "t = (if isMatching (deref c' lt) (deref c' p) then lt
          else if isMatching (deref c' rt) (deref c' p) then rt else p)"
  have "validPtr c' t"
    using p(4) extends_valid [OF ext vl] extends_valid [OF ext vr] by (simp add: t_def)
  moreover have "getBitWidth (deref c' t) \<le> MAX_BITS"
    using p(6) extends_deref [OF ext vl] extends_deref [OF ext vr] wl wr by (simp add: t_def)
  moreover have "binaryOperatorType c lt rt f = Inr (t, c')"
    using binaryOperatorType_numeric [OF n p(1)] by (simp add: t_def)
  ultimately show ?thesis using p by blast
qed

lemma binaryOperatorType_stable:
  assumes wf: "wellFormed c" and vl: "validPtr c lt" and vr: "validPtr c rt"
    and wl: "getBitWidth (deref c lt) \<le> MAX_BITS" and wr: "getBitWidth (deref c rt) \<le> MAX_BITS"
    and h: "binaryOperatorType c lt rt f = Inr (t, c')" and g: "grows c' c''"
  shows "binaryOperatorType c'' lt rt f = Inr (t, c'')"
proof (cases "isNumeric (deref c lt) \<and> isNumeric (deref c rt)")
  case False
  then have e: "binaryOperatorType c lt rt f = Inr (getErrorType, c)"
    using binaryOperatorType_nonnumeric by blast
  then have c': "c' = c" "t = getErrorType" using h by simp_all
  have ext: "extends c c''" using g c' by (simp add: grows_def)
  have "deref c'' lt = deref c lt" "deref c'' rt = deref c rt"
    using extends_deref [OF ext vl] extends_deref [OF ext vr] by simp_all
  then show ?thesis using False c' binaryOperatorType_nonnumeric [of c'' lt rt f] by simp
next
  case True
  then have n: "isNumeric (deref c lt)" "isNumeric (deref c rt)" by simp_all
  from computedResult_wf [OF wf n wl wr, of f]
  obtain p c1 where p: "computedResult c lt rt f = Inr (p, c1)" "grows c c1" "validPtr c1 p"
    by blast
  have e: "binaryOperatorType c lt rt f =
     Inr (if isMatching (deref c1 lt) (deref c1 p) then lt
          else if isMatching (deref c1 rt) (deref c1 p) then rt else p, c1)"
    using binaryOperatorType_numeric [OF n p(1)] .
  then have c1: "c1 = c'" using h by simp
  have ext1: "extends c c'" using p(2) c1 by (simp add: grows_def)
  have ext2: "extends c' c''" using g by (simp add: grows_def)
  have dl1: "deref c' lt = deref c lt" using extends_deref [OF ext1 vl] .
  have dr1: "deref c' rt = deref c rt" using extends_deref [OF ext1 vr] .
  have dl: "deref c'' lt = deref c lt"
    using extends_deref [OF ext2 extends_valid [OF ext1 vl]] dl1 by simp
  have dr: "deref c'' rt = deref c rt"
    using extends_deref [OF ext2 extends_valid [OF ext1 vr]] dr1 by simp
  have dp: "deref c'' p = deref c' p" using extends_deref [OF ext2] p(3) c1 by simp
  have cr: "computedResult c'' lt rt f = Inr (p, c'')"
    using computedResult_stable [OF p(1) _ dl dr] g c1 by simp
  have n': "isNumeric (deref c'' lt)" "isNumeric (deref c'' rt)" using n dl dr by simp_all
  show ?thesis
    using binaryOperatorType_numeric [OF n' cr] e h c1 dl dr dp dl1 dr1 by simp
qed

section \<open>Facts about forceFourState\<close>

lemma forceFourState_keep:
  "isFloating (deref c x) \<or> isFourState (deref c x) \<Longrightarrow> forceFourState c x = Inr (x, c)"
  by (simp add: forceFourState_def)

lemma forceFourState_force:
  "\<not> isFloating (deref c x) \<Longrightarrow> \<not> isFourState (deref c x) \<Longrightarrow>
   forceFourState c x = binaryOperatorType c x x True"
  by (simp add: forceFourState_def)

lemma error_not_numeric: "\<not> isNumeric ErrorType"
  by (simp add: isNumeric_def isFloating_def)

lemma conditional_nonnumeric:
  assumes wf: "wellFormed c"
    and nn: "\<not> isNumeric (deref c lt) \<or> \<not> isNumeric (deref c rt)"
  shows "binaryOperatorType c lt rt True = Inr (getErrorType, c)
         \<and> binaryOperatorType c lt rt False = Inr (getErrorType, c)
         \<and> forceFourState c getErrorType = Inr (getErrorType, c)"
proof -
  have de: "deref c getErrorType = ErrorType"
    using deref_error [OF wellFormed_scalars [OF wf]] .
  have "forceFourState c getErrorType = binaryOperatorType c getErrorType getErrorType True"
    by (rule forceFourState_force) (simp_all add: de isFloating_def)
  moreover have "binaryOperatorType c getErrorType getErrorType True = Inr (getErrorType, c)"
    by (rule binaryOperatorType_nonnumeric) (simp add: de error_not_numeric)
  ultimately show ?thesis using binaryOperatorType_nonnumeric [OF nn] by simp
qed

lemma conditional_floating:
  assumes wf: "wellFormed c"
    and nl: "isNumeric (deref c lt)" and nr: "isNumeric (deref c rt)"
    and wl: "getBitWidth (deref c lt) \<le> MAX_BITS" and wr: "getBitWidth (deref c rt) \<le> MAX_BITS"
    and fl: "isFloating (deref c lt) \<or> isFloating (deref c rt)"
  shows "\<exists>t. binaryOperatorType c lt rt True = Inr (t, c)
         \<and> binaryOperatorType c lt rt False = Inr (t, c)
         \<and> forceFourState c t = Inr (t, c)"
proof -
  define p where "p = (if (isFloating (deref c lt) \<and> getBitWidth (deref c lt) = 64)
             \<or> (isFloating (deref c rt) \<and> getBitWidth (deref c rt) = 64)
          then getRealType else getShortRealType)"
  have cr: "computedResult c lt rt f = Inr (p, c)" for f
    using computedResult_floating [OF fl, of f] by (simp add: p_def)
  have sr: "scalarsRegistered c" using wf by (rule wellFormed_scalars)
  have fp: "isFloating (deref c p)"
    using deref_real [OF sr] deref_shortReal [OF sr] by (simp add: p_def isFloating_def)
  define t where "t = (if isMatching (deref c lt) (deref c p) then lt
          else if isMatching (deref c rt) (deref c p) then rt else p)"
  have b: "binaryOperatorType c lt rt f = Inr (t, c)" for f
    using binaryOperatorType_numeric [OF nl nr cr] by (simp add: t_def)
  have "isFloating (deref c t)"
    using fp matching_floating [of "deref c lt" "deref c p"]
      matching_floating [of "deref c rt" "deref c p"]
    by (simp add: t_def)
  then have "forceFourState c t = Inr (t, c)" using forceFourState_keep by blast
  then show ?thesis using b by blast
qed


lemma operatorFlags_fourState:
  "isFourState l \<or> isFourState r \<Longrightarrow> operatorFlags l r True = operatorFlags l r False"
  by (simp add: operatorFlags_def)

lemma conditional_fourState:
  assumes wf: "wellFormed c" and vl: "validPtr c lt" and vr: "validPtr c rt"
    and il: "isIntegral (deref c lt)" and ir: "isIntegral (deref c rt)"
    and wl: "getBitWidth (deref c lt) \<le> MAX_BITS" and wr: "getBitWidth (deref c rt) \<le> MAX_BITS"
    and fs: "isFourState (deref c lt) \<or> isFourState (deref c rt)"
  shows "\<exists>t c1. binaryOperatorType c lt rt True = Inr (t, c1)
         \<and> binaryOperatorType c1 lt rt False = Inr (t, c1)
         \<and> forceFourState c1 t = Inr (t, c1)"
proof -
  have "computedResult c lt rt True = computedResult c lt rt False"
    using computedResult_integral [OF il ir] operatorFlags_fourState [OF fs] by simp
  then have same: "binaryOperatorType c lt rt True = binaryOperatorType c lt rt False"
    by (simp add: binaryOperatorType_alt)
  from binaryOperatorType_integral_wf [OF wf vl vr il ir wl wr, of False]
  obtain t c1 where t: "binaryOperatorType c lt rt False = Inr (t, c1)"
    "isMatching (deref c1 t) (operatorShape (deref c lt) (deref c rt) False)"
    by blast
  have again: "binaryOperatorType c1 lt rt False = Inr (t, c1)"
    using binaryOperatorType_stable [OF wf vl vr wl wr t(1) grows_refl] .
  have "isFourState (deref c1 t)"
    using matching_fourState [OF t(2)] shape_fourState fs by simp
  then have "forceFourState c1 t = Inr (t, c1)" using forceFourState_keep by blast
  then show ?thesis using same t(1) again by auto
qed

lemma conditional_twoState:
  assumes wf: "wellFormed c" and vl: "validPtr c lt" and vr: "validPtr c rt"
    and il: "isIntegral (deref c lt)" and ir: "isIntegral (deref c rt)"
    and wl: "getBitWidth (deref c lt) \<le> MAX_BITS" and wr: "getBitWidth (deref c rt) \<le> MAX_BITS"
    and ts: "\<not> isFourState (deref c lt)" "\<not> isFourState (deref c rt)"
  shows "\<exists>t c1 x c2. binaryOperatorType c lt rt True = Inr (t, c1)
         \<and> binaryOperatorType c1 lt rt False = Inr (x, c2)
         \<and> forceFourState c2 x = Inr (t, c2)"
proof -
  define L where "L = deref c lt"
  define R where "R = deref c rt"
  have nl: "isNumeric L" and nr: "isNumeric R" using il ir by (simp_all add: L_def R_def integral_numeric)
  \<comment> \<open>the type computed with the flag set\<close>
  from computedResult_integral_wf [OF wf il ir wl wr, of True]
  obtain p c1 where p: "computedResult c lt rt True = Inr (p, c1)" "wellFormed c1" "grows c c1"
    "validPtr c1 p" "deref c1 p = operatorShape L R True"
    unfolding L_def R_def by blast
  have ext1: "extends c c1" using p(3) by (rule grows_extends)
  have dl1: "deref c1 lt = L" using extends_deref [OF ext1 vl] by (simp add: L_def)
  have dr1: "deref c1 rt = R" using extends_deref [OF ext1 vr] by (simp add: R_def)
  have p4: "isFourState (deref c1 p)" using p(5) shape_fourState by simp
  have nml: "\<not> isMatching (deref c1 lt) (deref c1 p)"
    using matching_fourState [of "deref c1 lt" "deref c1 p"] p4 ts(1) dl1 by (auto simp: L_def)
  have nmr: "\<not> isMatching (deref c1 rt) (deref c1 p)"
    using matching_fourState [of "deref c1 rt" "deref c1 p"] p4 ts(2) dr1 by (auto simp: R_def)
  have b1: "binaryOperatorType c lt rt True = Inr (p, c1)"
    using binaryOperatorType_numeric [OF _ _ p(1)] nl nr nml nmr by (simp add: L_def R_def)
  \<comment> \<open>the type computed without the flag, afterwards\<close>
  have vl1: "validPtr c1 lt" and vr1: "validPtr c1 rt"
    using extends_valid [OF ext1] vl vr by simp_all
  have il1: "isIntegral (deref c1 lt)" and ir1: "isIntegral (deref c1 rt)"
    using il ir dl1 dr1 by (simp_all add: L_def R_def)
  have wl1: "getBitWidth (deref c1 lt) \<le> MAX_BITS" and wr1: "getBitWidth (deref c1 rt) \<le> MAX_BITS"
    using wl wr dl1 dr1 by (simp_all add: L_def R_def)
  from binaryOperatorType_integral_wf [OF p(2) vl1 vr1 il1 ir1 wl1 wr1, of False]
  obtain x c2 where x: "binaryOperatorType c1 lt rt False = Inr (x, c2)" "wellFormed c2"
    "grows c1 c2" "validPtr c2 x" "isMatching (deref c2 x) (operatorShape L R False)"
    unfolding dl1 dr1 by blast
  define X where "X = deref c2 x"
  have ext2: "extends c1 c2" using x(3) by (rule grows_extends)
  have dl2: "deref c2 lt = L" using extends_deref [OF ext2 vl1] dl1 by simp
  have dr2: "deref c2 rt = R" using extends_deref [OF ext2 vr1] dr1 by simp
  have dp2: "deref c2 p = operatorShape L R True" using extends_deref [OF ext2 p(4)] p(5) by simp
  have iL: "isIntegral L" using il by (simp add: L_def)
  have iX: "isIntegral X"
    using matching_integral [OF x(5)] shape_integral by (simp add: X_def)
  have wX: "getBitWidth X = max (getBitWidth L) (getBitWidth R)"
    using matching_width [OF x(5)] shape_width [OF iL] by (simp add: X_def)
  have sX: "isSigned X = (isSigned L \<and> isSigned R)"
    using matching_signed [OF x(5)] shape_signed by (simp add: X_def)
  have fX: "\<not> isFourState X"
    using matching_fourState [OF x(5)] shape_fourState ts by (simp add: X_def L_def R_def)
  have rX: "\<not> isDeclaredReg X" using fX reg_fourState by blast
  have rL: "\<not> isDeclaredReg L" using ts(1) reg_fourState by (auto simp: L_def)
  have scX: "isScalar X = operatorScalar L R"
    using matching_scalar [OF x(5)] shape_scalar by (simp add: X_def)
  have flX: "\<not> isFloating X" using iX by (rule integral_not_floating)
  have flags: "operatorFlags X X True = operatorFlags L R True"
    using sX rX rL by (simp add: operatorFlags_def)
  have scal: "operatorScalar X X = operatorScalar L R"
    using wX scX by (auto simp: operatorScalar_def)
  have crX: "computedResult c2 x x True = computedResult c2 lt rt True"
    using computedResult_integral [of c2 x x True] computedResult_integral [of c2 lt rt True]
      iX iL ir flags scal wX dl2 dr2
    by (simp add: X_def R_def)
  have "computedResult c2 lt rt True = Inr (p, c2)"
    using computedResult_stable [OF p(1) x(3)] dl2 dr2 by (simp add: L_def R_def)
  then have crX': "computedResult c2 x x True = Inr (p, c2)" using crX by simp
  have nmx: "\<not> isMatching (deref c2 x) (deref c2 p)"
    using matching_fourState [of "deref c2 x" "deref c2 p"] dp2 shape_fourState fX
    by (auto simp: X_def)
  have nX: "isNumeric (deref c2 x)" using iX by (simp add: X_def integral_numeric)
  have "binaryOperatorType c2 x x True = Inr (p, c2)"
    using binaryOperatorType_numeric [OF nX nX crX'] nmx by simp
  moreover have "forceFourState c2 x = binaryOperatorType c2 x x True"
    using forceFourState_force flX fX by (simp add: X_def)
  ultimately show ?thesis using b1 x(1) by auto
qed

lemma conditional_equivalence:
  assumes wf: "wellFormed c" and vl: "validPtr c lt" and vr: "validPtr c rt"
    and wl: "getBitWidth (deref c lt) \<le> MAX_BITS" and wr: "getBitWidth (deref c rt) \<le> MAX_BITS"
  shows "\<exists>t c1 x c2. binaryOperatorType c lt rt True = Inr (t, c1)
         \<and> binaryOperatorType c1 lt rt False = Inr (x, c2)
         \<and> forceFourState c2 x = Inr (t, c2)"
proof -
  consider (nn) "\<not> isNumeric (deref c lt) \<or> \<not> isNumeric (deref c rt)"
    | (fl) "isNumeric (deref c lt)" "isNumeric (deref c rt)"
           "isFloating (deref c lt) \<or> isFloating (deref c rt)"
    | (fs) "isIntegral (deref c lt)" "isIntegral (deref c rt)"
           "isFourState (deref c lt) \<or> isFourState (deref c rt)"
    | (ts) "isIntegral (deref c lt)" "isIntegral (deref c rt)"
           "\<not> isFourState (deref c lt)" "\<not> isFourState (deref c rt)"
    using numeric_cases by blast
  then show ?thesis
  proof cases
    case nn
    from conditional_nonnumeric [OF wf nn] show ?thesis by blast
  next
    case fl
    from conditional_floating [OF wf fl(1,2) wl wr fl(3)] show ?thesis by blast
  next
    case fs
    from conditional_fourState [OF wf vl vr fs(1,2) wl wr fs(3)] show ?thesis by blast
  next
    case ts
    from conditional_twoState [OF wf vl vr ts(1,2) wl wr ts(3,4)] show ?thesis by blast
  qed
qed

lemma scalar_width: "isScalar t \<Longrightarrow> getBitWidth t = 1"
  by (induction t) (simp_all add: isScalar_def)

lemma forceFourState_integral:
  assumes wf: "wellFormed c" and vx: "validPtr c x"
    and ix: "isIntegral (deref c x)" and wx: "getBitWidth (deref c x) \<le> MAX_BITS"
    and ts: "\<not> isFourState (deref c x)"
  shows "\<exists>t c'. forceFourState c x = Inr (t, c')
           \<and> isFourState (deref c' t)
           \<and> getBitWidth (deref c' t) = getBitWidth (deref c x)
           \<and> isSigned (deref c' t) = isSigned (deref c x)
           \<and> isScalar (deref c' t) = isScalar (deref c x)"
proof -
  from binaryOperatorType_integral_wf [OF wf vx vx ix ix wx wx, of True]
  obtain t c' where t: "binaryOperatorType c x x True = Inr (t, c')"
    "isMatching (deref c' t) (operatorShape (deref c x) (deref c x) True)"
    by blast
  have "forceFourState c x = Inr (t, c')"
    using forceFourState_force [OF integral_not_floating [OF ix] ts] t(1) by simp
  moreover have "isFourState (deref c' t)"
    using matching_fourState [OF t(2)] shape_fourState by simp
  moreover have "getBitWidth (deref c' t) = getBitWidth (deref c x)"
    using matching_width [OF t(2)] shape_width [OF ix] by simp
  moreover have "isSigned (deref c' t) = isSigned (deref c x)"
    using matching_signed [OF t(2)] shape_signed by simp
  moreover have "isScalar (deref c' t) = isScalar (deref c x)"
    using matching_scalar [OF t(2)] shape_scalar scalar_width [of "deref c x"]
    by (auto simp: operatorScalar_def)
  ultimately show ?thesis by blast
qed

text \<open>The three cases of \<open>forceFourState\<close>: keep, force, and the error type for the rest.\<close>

lemma fourState_integral: "isFourState t \<Longrightarrow> isIntegral t"
  by (induction t) simp_all

lemma forceFourState_nonnumeric:
  assumes "\<not> isNumeric (deref c y)"
  shows "forceFourState c y = Inr (getErrorType, c)"
proof -
  have nf: "\<not> isFloating (deref c y)" and ni: "\<not> isIntegral (deref c y)"
    using assms by (simp_all add: isNumeric_def)
  have n4: "\<not> isFourState (deref c y)" using ni fourState_integral by blast
  show ?thesis
    using forceFourState_force [OF nf n4] binaryOperatorType_nonnumeric [of c y y True] assms
    by simp
qed

lemma forceFourState_cases:
  assumes wf: "wellFormed c" and vy: "validPtr c y" and wy: "getBitWidth (deref c y) \<le> MAX_BITS"
  shows "\<exists>u c'. forceFourState c y = Inr (u, c')
           \<and> (isFloating (deref c y) \<or> isFourState (deref c y) \<longrightarrow> u = y \<and> c' = c)
           \<and> (isIntegral (deref c y) \<and> \<not> isFourState (deref c y) \<longrightarrow>
                 isFourState (deref c' u)
                 \<and> getBitWidth (deref c' u) = getBitWidth (deref c y)
                 \<and> isSigned (deref c' u) = isSigned (deref c y)
                 \<and> isScalar (deref c' u) = isScalar (deref c y))
           \<and> (\<not> isNumeric (deref c y) \<longrightarrow> u = getErrorType \<and> c' = c)"
proof -
  consider (keep) "isFloating (deref c y) \<or> isFourState (deref c y)"
    | (force) "isIntegral (deref c y)" "\<not> isFourState (deref c y)"
    | (other) "\<not> isNumeric (deref c y)"
    by (auto simp: isNumeric_def)
  then show ?thesis
  proof cases
    case keep
    then have "isNumeric (deref c y)"
      using fourState_integral by (auto simp: isNumeric_def)
    moreover have "isIntegral (deref c y) \<Longrightarrow> isFourState (deref c y)"
      using keep integral_not_floating by blast
    ultimately show ?thesis using forceFourState_keep [OF keep] by simp
  next
    case force
    have "isNumeric (deref c y)" using force(1) by (simp add: isNumeric_def)
    moreover have "\<not> isFloating (deref c y)" using force(1) by (rule integral_not_floating)
    ultimately show ?thesis
      using forceFourState_integral [OF wf vy force(1) wy force(2)] force(2) by auto
  next
    case other
    then have "\<not> isFloating (deref c y)" "\<not> isIntegral (deref c y)"
      by (simp_all add: isNumeric_def)
    moreover have "\<not> isFourState (deref c y)"
      using calculation(2) fourState_integral by blast
    ultimately show ?thesis using forceFourState_nonnumeric [OF other] other by simp
  qed
qed

section \<open>Facts about convertAssignment\<close>

lemma badExpr_bad: "bad c (badExpr e)"
  by (simp add: bad_def badExpr_def)

lemma convertAssignment_incompatible:
  "\<not> isAssignmentCompatible (deref c type) (deref c (exprType expr)) \<Longrightarrow>
   convertAssignment isCastCompatible contextDetermined c type expr
     = Inr (badExpr (Some expr),
            addError c (if isCastCompatible (deref c type) (deref c (exprType expr))
                        then NoImplicitConversion else BadAssignment))"
  by (simp add: convertAssignment_def Let_def)

lemma convertAssignment_compatible:
  "isAssignmentCompatible (deref c type) (deref c (exprType expr)) \<Longrightarrow>
   binaryOperatorType c type (exprType expr) False = Inr (rt, c1) \<Longrightarrow>
   contextDetermined c1 expr rt = (result, c2) \<Longrightarrow>
   convertAssignment isCastCompatible contextDetermined c type expr
     = Inr (if getBitWidth (deref c2 rt) > getBitWidth (deref c2 type)
            then convert IntTruncation type result else result, c2)"
  by (simp add: convertAssignment_def Let_def)

section \<open>Facts about replications and concatenations\<close>

lemma zero_checks:
  "svValue v = 0 \<Longrightarrow> \<not> svUnknown v \<Longrightarrow>
   checkNoUnknowns c v = (True, c) \<and> checkPositive c v = (True, c)"
  by (simp add: checkNoUnknowns_def checkPositive_def isNegative_def)

lemma replication_zero_outside:
  assumes "selfDetermined c expression ctx {IntegralConstant} = (leftE, c1)"
    and "selfDetermined c1 concatenation ctx {} = (rightE, c2)"
    and "\<not> bad c2 leftE" "\<not> bad c2 rightE"
    and "exprConstant leftE = Some (IntegerValue v)" "svValue v = 0" "\<not> svUnknown v"
    and "InsideConcatenation \<notin> bindFlags ctx"
  shows "ReplicationExpression_fromSyntax selfDetermined c expression concatenation ctx
     = Inr (badExpr (Some (Expression Replication getErrorType None None [leftE, rightE])),
            addError c2 ReplicationZeroOutsideConcat)"
  using assms zero_checks [of v c2]
  by (simp add: ReplicationExpression_fromSyntax_def Let_def)

lemma replication_zero_inside:
  assumes "selfDetermined c expression ctx {IntegralConstant} = (leftE, c1)"
    and "selfDetermined c1 concatenation ctx {} = (rightE, c2)"
    and "\<not> bad c2 leftE" "\<not> bad c2 rightE"
    and "exprConstant leftE = Some (IntegerValue v)" "svValue v = 0" "\<not> svUnknown v"
    and "InsideConcatenation \<in> bindFlags ctx"
  shows "ReplicationExpression_fromSyntax selfDetermined c expression concatenation ctx
     = Inr (Expression Replication getVoidType None None [leftE, rightE], c2)"
  using assms zero_checks [of v c2]
  by (simp add: ReplicationExpression_fromSyntax_def Let_def)

lemma replication_operand_bad:
  assumes "selfDetermined c expression ctx {IntegralConstant} = (leftE, c1)"
    and "selfDetermined c1 concatenation ctx {} = (rightE, c2)"
    and "bad c2 leftE \<or> bad c2 rightE"
  shows "ReplicationExpression_fromSyntax selfDetermined c expression concatenation ctx
     = Inr (badExpr (Some (Expression Replication getErrorType None None [leftE, rightE])), c2)"
  using assms
  by (auto simp: ReplicationExpression_fromSyntax_def Let_def)

lemma void_not_bad:
  "scalarsRegistered c \<Longrightarrow> \<not> bad c (Expression Replication getVoidType k v ops)"
  using deref_void [of c] by (simp add: bad_def isError_def)

lemma concatLoop_void:
  assumes sr: "scalarsRegistered c'"
    and mc: "isMultipleConcatenationExpression argSyntax"
    and sd: "selfDetermined (compilation s) argSyntax ctx {InsideConcatenation}
               = (Expression Replication getVoidType k v ops, c')"
  shows "concatLoop selfDetermined ctx (argSyntax # rest) s
     = concatLoop selfDetermined ctx rest
         (s\<lparr>buffer := buffer s @ [Expression Replication getVoidType k v ops],
            compilation := c'\<rparr>)"
  using mc sd void_not_bad [OF sr] deref_void [OF sr]
  by (simp add: Let_def isVoid_def)

lemma zeroLiteral_good: "\<not> bad newCompilation zeroLiteral"
  by (simp add: bad_def zeroLiteral_def isError_def deref_def newCompilation_def memberTypes_def
      getIntType_def)

lemma byteValue_good: "\<not> bad newCompilation byteValue"
  by (simp add: bad_def byteValue_def isError_def deref_def newCompilation_def memberTypes_def
      getByteType_def)

section \<open>Facts about finalization\<close>

lemma addSyntaxTree_finalized:
  "finalized c \<Longrightarrow>
   addSyntaxTree addMembers c tree
     = (Some (LogicError ''The compilation has already been finalized''), c)"
  by (simp add: addSyntaxTree_def)

lemma getRoot_finalizes: "finalized (snd (getRoot c))"
  by (simp add: getRoot_def Let_def split: prod.splits)

lemma getRoot_after: "finalized c \<Longrightarrow> getRoot c = (root c, c)"
  by (simp add: getRoot_def)

lemma getType_finalized: "getType c w f = Inr (p, c') \<Longrightarrow> finalized c' = finalized c"
  by (auto simp: getType_def getScalarType_def emplace_def Let_def
      split: if_splits option.splits sum.splits)

lemma afterCall_finalized: "finalized c \<Longrightarrow> finalized (afterCall addMembers c call)"
proof (cases call)
  case (AddSyntaxTree tree)
  assume "finalized c"
  then show ?thesis using AddSyntaxTree by (simp add: addSyntaxTree_finalized)
next
  case GetRoot
  assume "finalized c"
  then show ?thesis using GetRoot by (simp add: getRoot_after)
next
  case (GetType w f)
  assume "finalized c"
  then show ?thesis using GetType getType_finalized [of c w f]
    by (auto split: sum.splits)
qed

lemma calls_finalized: "finalized c \<Longrightarrow> finalized (foldl (afterCall addMembers) c calls)"
  by (induction calls arbitrary: c) (simp_all add: afterCall_finalized)

section \<open>Facts about instantiations and the root\<close>

lemma fold_subset:
  assumes "\<And>m f. m \<in> set ms \<Longrightarrow> g m f \<subseteq> f \<union> R m"
  shows "fold g ms f \<subseteq> f \<union> (\<Union>m \<in> set ms. R m)"
  using assms
proof (induction ms arbitrary: f)
  case Nil
  then show ?case by simp
next
  case (Cons a ms)
  have "fold g ms (g a f) \<subseteq> g a f \<union> (\<Union>m \<in> set ms. R m)"
    using Cons.IH [of "g a f"] Cons.prems by simp
  moreover have "g a f \<subseteq> f \<union> R a" using Cons.prems by simp
  ultimately show ?case by auto
qed

lemma findInstantiations_subset:
  "findInstantiations node scopeStack found \<subseteq> found \<union> referencedNames node"
proof (induction node scopeStack found rule: findInstantiations.induct)
  case (1 name scopeStack found)
  then show ?case by auto
next
  case (2 k name members scopeStack found)
  define st where "st = (if localDefinitions members = [] then scopeStack
                         else scopeStack @ [set (localDefinitions members)])"
  have "fold (\<lambda>member f. findInstantiations member st f) members found
          \<subseteq> found \<union> (\<Union>m \<in> set members. referencedNames m)"
    by (rule fold_subset) (use 2 st_def in auto)
  then show ?case by (simp add: Let_def st_def)
next
  case (3 members scopeStack found)
  have "fold (\<lambda>child f. findInstantiations child scopeStack f) members found
          \<subseteq> found \<union> (\<Union>m \<in> set members. referencedNames m)"
    by (rule fold_subset) (use 3 in auto)
  then show ?case by simp
next
  case (4 members scopeStack found)
  have "fold (\<lambda>child f. findInstantiations child scopeStack f) members found
          \<subseteq> found \<union> (\<Union>m \<in> set members. referencedNames m)"
    by (rule fold_subset) (use 4 in auto)
  then show ?case by simp
next
  case (5 block scopeStack found)
  then show ?case by simp
next
  case (6 items scopeStack found)
  have "fold (\<lambda>item f. if fst item = DefaultCaseItem \<or> fst item = StandardCaseItem
                      then findInstantiations (snd item) scopeStack f else f) items found
          \<subseteq> found \<union> (\<Union>item \<in> set items. referencedNames (snd item))"
    by (rule fold_subset) (use 6 in auto)
  then show ?case by simp
next
  case (7 block elseClause scopeStack found)
  then show ?case by (fastforce simp: Let_def split: option.splits)
next
  case (8 members scopeStack found)
  then show ?case by simp
next
  case (9 scopeStack found)
  then show ?case by simp
qed

lemma frame_names:
  "frame addMembers \<Longrightarrow> instantiatedNames (snd (addMembers uc m)) = instantiatedNames (snd uc)"
  unfolding frame_def by blast

lemma frame_finalized:
  "frame addMembers \<Longrightarrow> finalized (snd (addMembers uc m)) = finalized (snd uc)"
  unfolding frame_def by blast

lemma unit_loop:
  assumes fr: "frame addMembers"
  shows "instantiatedNames (snd (fst (fold (\<lambda>member (uc, instances).
                           (addMembers uc member,
                            if isModuleDeclaration member
                            then findInstantiations member [] instances else instances))
                        members (uc0, inst0)))) = instantiatedNames (snd uc0)
       \<and> finalized (snd (fst (fold (\<lambda>member (uc, instances).
                           (addMembers uc member,
                            if isModuleDeclaration member
                            then findInstantiations member [] instances else instances))
                        members (uc0, inst0)))) = finalized (snd uc0)
       \<and> snd (fold (\<lambda>member (uc, instances).
                           (addMembers uc member,
                            if isModuleDeclaration member
                            then findInstantiations member [] instances else instances))
                        members (uc0, inst0)) \<subseteq> inst0 \<union> (\<Union>m \<in> set members. referencedNames m)"
proof (induction members arbitrary: uc0 inst0)
  case Nil
  then show ?case by simp
next
  case (Cons a members)
  define uc1 where "uc1 = addMembers uc0 a"
  define inst1 where "inst1 = (if isModuleDeclaration a then findInstantiations a [] inst0 else inst0)"
  have i1: "inst1 \<subseteq> inst0 \<union> referencedNames a"
    using findInstantiations_subset [of a "[]" inst0] by (auto simp: inst1_def)
  have f1: "instantiatedNames (snd uc1) = instantiatedNames (snd uc0)"
    "finalized (snd uc1) = finalized (snd uc0)"
    using fr by (simp_all add: frame_names frame_finalized uc1_def)
  from Cons.IH [of uc1 inst1] i1 f1 show ?case
    by (auto simp: uc1_def inst1_def)
qed

lemma addRootMembers_frame:
  assumes fr: "frame addMembers"
  shows "instantiatedNames (snd (fst (addRootMembers addMembers uc0 node)))
           = instantiatedNames (snd uc0)
       \<and> finalized (snd (fst (addRootMembers addMembers uc0 node))) = finalized (snd uc0)
       \<and> snd (addRootMembers addMembers uc0 node) \<subseteq> referencedNames node"
proof (cases node)
  case (CompilationUnit members)
  then show ?thesis
    using unit_loop [OF fr, of members uc0 "{}"] by (simp add: addRootMembers_def)
qed (use fr findInstantiations_subset [of node "[]" "{}"] in
      \<open>auto simp: addRootMembers_def frame_names frame_finalized\<close>)

lemma addSyntaxTree_frame:
  assumes fr: "frame addMembers"
  shows "instantiatedNames (snd (addSyntaxTree addMembers c tree))
           \<subseteq> instantiatedNames c \<union> referencedNames (treeRoot tree)
         \<and> finalized (snd (addSyntaxTree addMembers c tree)) = finalized c"
proof (cases "finalized c \<or> (Some (treeSourceManager tree) \<noteq> sourceManager c \<and> sourceManager c \<noteq> None)")
  case True
  then show ?thesis by (auto simp: addSyntaxTree_def)
next
  case False
  define res where "res = addRootMembers addMembers
      (\<lparr>unitMembers = []\<rparr>, c\<lparr>sourceManager := Some (treeSourceManager tree)\<rparr>) (treeRoot tree)"
  have r: "instantiatedNames (snd (fst res)) = instantiatedNames c
       \<and> finalized (snd (fst res)) = finalized c
       \<and> snd res \<subseteq> referencedNames (treeRoot tree)"
    using addRootMembers_frame [OF fr, of
        "(\<lparr>unitMembers = []\<rparr>, c\<lparr>sourceManager := Some (treeSourceManager tree)\<rparr>)" "treeRoot tree"]
    by (simp add: res_def)
  have nf: "finalized c = False" using False by simp
  have nm: "(Some (treeSourceManager tree) \<noteq> sourceManager c \<and> sourceManager c \<noteq> None) = False"
    using False by simp
  have "addSyntaxTree addMembers c tree =
      (None, (snd (fst res))\<lparr>instantiatedNames := instantiatedNames (snd (fst res)) \<union> snd res,
          root := (root (snd (fst res)))\<lparr>rootMembers := rootMembers (root (snd (fst res)))
                    @ [UnitMember (fst (fst res))]\<rparr>,
          compilationUnits := compilationUnits (snd (fst res)) @ [fst (fst res)],
          syntaxTrees := syntaxTrees (snd (fst res)) @ [tree],
          forcedDiagnostics := False\<rparr>)"
    unfolding addSyntaxTree_def
    by (simp only: nf nm if_False) (simp add: Let_def res_def case_prod_beta)
  then show ?thesis using r by auto
qed

lemma getRoot_loop:
  "fold (\<lambda>(key, definition) (r, topList).
            if defSyntaxKind definition = ModuleDeclaration \<and> defName definition \<notin> names
            then
              let instance = instantiate (defName definition) key
              in (r\<lparr>rootMembers := rootMembers r @ [InstanceMember instance]\<rparr>,
                  topList @ [instance])
            else (r, topList))
         defs (r, topList)
   = (r\<lparr>rootMembers := rootMembers r @ map InstanceMember (newInstances names defs)\<rparr>,
      topList @ newInstances names defs)"
proof (induction defs arbitrary: r topList)
  case Nil
  then show ?case by (simp add: newInstances_def)
next
  case (Cons a defs)
  obtain key d where a: "a = (key, d)" by (cases a)
  show ?case
    by (simp add: a Cons.IH Let_def) (simp add: newInstances_def)
qed

lemma getRoot_first:
  "\<not> finalized c \<Longrightarrow>
   getRoot c =
     ((root c)\<lparr>rootMembers := rootMembers (root c)
                   @ map InstanceMember (newInstances (instantiatedNames c) (definitionMap c)),
               topInstances := sort_key instName (newInstances (instantiatedNames c) (definitionMap c)),
               rootCompilationUnits := compilationUnits c\<rparr>,
      c\<lparr>root := (root c)\<lparr>rootMembers := rootMembers (root c)
                   @ map InstanceMember (newInstances (instantiatedNames c) (definitionMap c)),
               topInstances := sort_key instName (newInstances (instantiatedNames c) (definitionMap c)),
               rootCompilationUnits := compilationUnits c\<rparr>,
        finalized := True\<rparr>)"
  by (simp add: getRoot_def getRoot_loop Let_def)

lemma newInstances_once:
  assumes "distinct (map fst defs)" "(key, d) \<in> set defs"
    and "defSyntaxKind d = ModuleDeclaration" "defName d \<notin> names"
  shows "filter (\<lambda>i. instDefinition i = key) (newInstances names defs) = [instantiate (defName d) key]"
  using assms
proof (induction defs)
  case Nil
  then show ?case by simp
next
  case (Cons a defs)
  obtain k e where a: "a = (k, e)" by (cases a)
  show ?case
  proof (cases "k = key")
    case True
    then have e: "e = d" using Cons.prems a by (auto simp: image_iff)
    have "key \<notin> fst ` set defs" using Cons.prems True a by simp
    then have "filter (\<lambda>i. instDefinition i = key) (newInstances names defs) = []"
      by (auto simp: newInstances_def filter_empty_conv instantiate_def image_iff)
    then show ?thesis using Cons.prems True e a
      by (simp add: newInstances_def instantiate_def)
  next
    case False
    then have "(key, d) \<in> set defs" using Cons.prems a by auto
    then have "filter (\<lambda>i. instDefinition i = key) (newInstances names defs)
        = [instantiate (defName d) key]"
      using Cons.IH Cons.prems by simp
    then show ?thesis using False a
      by (simp add: newInstances_def instantiate_def)
  qed
qed

lemma addSyntaxTrees_frame:
  assumes fr: "frame addMembers"
  shows "instantiatedNames (addSyntaxTrees addMembers c trees)
           \<subseteq> instantiatedNames c \<union> (\<Union>tree \<in> set trees. referencedNames (treeRoot tree))
         \<and> finalized (addSyntaxTrees addMembers c trees) = finalized c"
proof (induction trees arbitrary: c)
  case Nil
  then show ?case by (simp add: addSyntaxTrees_def)
next
  case (Cons a trees)
  from Cons.IH [of "snd (addSyntaxTree addMembers c a)"] addSyntaxTree_frame [OF fr, of c a]
  show ?case by (auto simp: addSyntaxTrees_def)
qed

lemma frame_registerMembers: "frame registerMembers"
  by (auto simp: frame_def registerMembers_def Let_def split: SyntaxNode.splits)

lemma example_compilation:
  "definitionMap (addSyntaxTrees registerMembers newCompilation [exampleTree])
     = [((''top'', 0), \<lparr>defName = ''top'', defSyntaxKind = ModuleDeclaration\<rparr>),
        ((''sub'', 0), \<lparr>defName = ''sub'', defSyntaxKind = ModuleDeclaration\<rparr>),
        ((''aux'', 0), \<lparr>defName = ''aux'', defSyntaxKind = ModuleDeclaration\<rparr>)]
   \<and> instantiatedNames (addSyntaxTrees registerMembers newCompilation [exampleTree]) = {''sub''}
   \<and> \<not> finalized (addSyntaxTrees registerMembers newCompilation [exampleTree])"
  by (simp add: addSyntaxTrees_def addSyntaxTree_def exampleTree_def Let_def addRootMembers_def
      registerMembers_def newCompilation_def containsName_def)

lemma example_top_instances:
  "topInstances (fst (getRoot (addSyntaxTrees registerMembers newCompilation [exampleTree])))
     = [instantiate ''aux'' (''aux'', 0), instantiate ''top'' (''top'', 0)]"
  using example_compilation
  by (simp add: getRoot_first newInstances_def instantiate_def less_eq_char_def)

section \<open>The lexer: what the scanners leave unchanged, and termination of the trivia loop\<close>

lemma scanWhitespace_frame:
  "scanWhitespace t l = (t', l') \<Longrightarrow>
     source l' = source l \<and> sourceBuffer l \<le> sourceBuffer l' \<and> diagnostics l' = diagnostics l
     \<and> maxErrors l' = maxErrors l"
proof (induction t l rule: scanWhitespace.induct)
  case (1 triviaBuffer l)
  show ?case
  proof (cases "peek l = SPACE \<or> peek l = TAB \<or> peek l = VT \<or> peek l = FF")
    case True
    with 1 show ?thesis
      by (subst (asm) (2) scanWhitespace.simps) (auto simp: advance_def)
  next
    case False
    with 1(2) show ?thesis
      by (subst (asm) scanWhitespace.simps) auto
  qed
qed

lemma scanLineComment_frame:
  "scanLineComment t d l = (t', l') \<Longrightarrow>
     source l' = source l \<and> sourceBuffer l \<le> sourceBuffer l' \<and> maxErrors l' = maxErrors l"
proof (induction t d l rule: scanLineComment.induct)
  case (1 triviaBuffer directiveMode l)
  from 1(3) show ?case
    apply (subst (asm) scanLineComment.simps)
    apply (simp only: Let_def split: if_splits)
    using 1(1,2)
    apply (auto simp: advance_def lexerError_def)
    done
qed

lemma scanBlockCommentLoop_frame:
  "scanBlockCommentLoop e d l = (e', l') \<Longrightarrow>
     source l' = source l \<and> sourceBuffer l \<le> sourceBuffer l' \<and> maxErrors l' = maxErrors l"
proof (induction e d l rule: scanBlockCommentLoop.induct)
  case (1 eod directiveMode l)
  from 1(5) show ?case
    apply (subst (asm) scanBlockCommentLoop.simps)
    apply (simp only: Let_def split: if_splits)
    using 1(1-4)
    apply (auto simp: advance_def lexerError_def)
    done
qed

lemma scanBlockComment_frame:
  "scanBlockComment t d l = (e, t', l') \<Longrightarrow>
     source l' = source l \<and> sourceBuffer l \<le> sourceBuffer l' \<and> maxErrors l' = maxErrors l"
  by (auto simp: scanBlockComment_def split: prod.splits dest: scanBlockCommentLoop_frame)

lemma consume_frame:
  "source (snd (consume l c)) = source l \<and> sourceBuffer l \<le> sourceBuffer (snd (consume l c))
   \<and> maxErrors (snd (consume l c)) = maxErrors l \<and> diagnostics (snd (consume l c)) = diagnostics l"
  by (simp add: consume_def advance_def)


lemma peek_in_buffer: "peek l \<noteq> NUL \<Longrightarrow> sourceBuffer l < length (source l)"
  by (simp add: peek_def peekAt_def split: if_splits)

termination lexTrivia
proof (relation "measure (\<lambda>(t, d, l). length (source l) - sourceBuffer l)", goal_cases)
  case 1
  show ?case by simp
next
  case (2 triviaBuffer directiveMode l0 l c p t' l')
  then have "peek l \<noteq> NUL" by auto
  then have lt: "sourceBuffer l < length (source l)" by (rule peek_in_buffer)
  from 2 have "scanWhitespace triviaBuffer (advance l 1) = (t', l')" by simp
  from scanWhitespace_frame [OF this] lt 2(1)
  show ?case by (auto simp: advance_def mark_def)
next
  case (3 triviaBuffer directiveMode l0 l c p t' l')
  then have "peek l \<noteq> NUL" by auto
  then have lt: "sourceBuffer l < length (source l)" by (rule peek_in_buffer)
  from 3 have "scanLineComment triviaBuffer directiveMode (advance l 2) = (t', l')" by simp
  from scanLineComment_frame [OF this] lt 3(1)
  show ?case by (auto simp: advance_def mark_def)
next
  case (4 triviaBuffer directiveMode l0 l c p eod r t' l')
  then have "peek l \<noteq> NUL" by auto
  then have lt: "sourceBuffer l < length (source l)" by (rule peek_in_buffer)
  from 4 have "scanBlockComment triviaBuffer directiveMode (advance l 2) = (eod, t', l')" by simp
  from scanBlockComment_frame [OF this] lt 4(1)
  show ?case by (auto simp: advance_def mark_def)
next
  case (5 triviaBuffer directiveMode l0 l c l1 l2 t')
  then have "peek l \<noteq> NUL" by auto
  then have lt: "sourceBuffer l < length (source l)" by (rule peek_in_buffer)
  from consume_frame [of "advance l 1" LF] lt 5
  show ?case by (auto simp: advance_def mark_def)
next
  case (6 triviaBuffer directiveMode l0 l c l1 l2 t')
  then have "peek l \<noteq> NUL" by auto
  then have lt: "sourceBuffer l < length (source l)" by (rule peek_in_buffer)
  from lt 6
  show ?case by (auto simp: advance_def mark_def)
next
  case (7 triviaBuffer directiveMode l0 l c n l1 l2 l3 t')
  then have "peek l \<noteq> NUL" by auto
  then have lt: "sourceBuffer l < length (source l)" by (rule peek_in_buffer)
  from consume_frame [of "advance l 2" LF] lt 7
  show ?case by (auto simp: advance_def mark_def)
qed

declare lexTrivia.simps [simp del]

text \<open>Outside a directive the trivia never end a directive; at the final NUL nothing is consumed.\<close>

lemma peek_mark: "peek (mark l) = peek l"
  by (simp add: peek_def peekAt_def mark_def)




lemma lexTrivia_at_NUL:
  "peek l = NUL \<Longrightarrow> lexTrivia t d l = (d, t, mark l)"
  by (subst lexTrivia.simps) (simp add: Let_def peek_mark)

lemma lex_at_end:
  assumes "peek l = NUL" and "reallyAtEnd l"
  shows "lexer_lex lo li NormalMode l =
           (\<lparr>tokenKind = EndOfFile, tokenTrivia = [], tokenRawText = [],
             tokenLocation = sourceBuffer l\<rparr>,
            l\<lparr>marker := sourceBuffer l, onNewLine := False\<rparr>)"
proof -
  have p: "peek (mark (mark l)) = NUL" using assms(1) by (simp add: peek_mark)
  have t: "lexToken lo (mark (mark l)) False = (EndOfFile, sourceBuffer l, mark l)"
    apply (simp add: lexToken_def Let_def p)
    using assms(2)
    apply (simp add: currentOffset_def mark_def advance_def reallyAtEnd_def)
    done
  show ?thesis
    by (simp add: lexer_lex_def lexTrivia_at_NUL [OF assms(1)] t Let_def)
       (simp add: lexeme_def mark_def)
qed

text \<open>The constructor on a buffer without a byte order mark.\<close>

lemma newLexer_plain:
  assumes "buf \<noteq> []" and "last buf = NUL"
    and "hd buf \<noteq> CHR 0xFF" and "hd buf \<noteq> CHR 0xFE" and "hd buf \<noteq> CHR 0xEF"
  shows "newLexer buf [] m = Inr (lexerOn buf m)"
  using assms by (cases buf) (auto simp: newLexer_def lexerOn_def Let_def)

section \<open>A concatenation wider than \<open>SVInt::MAX_BITS\<close>\<close>

text \<open>
  The key of \<open>getType\<close> for the width \<open>2^24 + 8\<close> and no flags is the key for the width 8
  and the flag \<open>Signed\<close>. The lemmas below evaluate the calls that lead there: the vector of
  \<open>2^23\<close> bits, the concatenation of two such vectors and a byte, and the operator type of
  two bytes afterwards.
\<close>

lemma key_half: "typeKey 8388608 {} = 8388608"
  by (simp add: typeKey_def bits_def)
lemma key_wide: "typeKey 16777224 {} = 16777224"
  by (simp add: typeKey_def bits_def)
lemma key_byte: "typeKey 8 {Signed} = 16777224"
  by (simp add: typeKey_def bits_def BITWIDTH_BITS_def)

lemma table_bit: "scalarTypeTable newCompilation (bits {} mod 8) = Some getBitType"
  by (simp add: newCompilation_def registerScalar_def bits_def getIntegralFlags_def memberTypes_def
     getBitType_def getLogicType_def getRegType_def
      getSignedBitType_def getSignedLogicType_def getSignedRegType_def)

lemma new_fields:
  "typeStore newCompilation = memberTypes" "vectorTypeCache newCompilation = Map.empty"
  "diags newCompilation = []"
  by (simp_all add: newCompilation_def)

lemma deref_bit: "deref newCompilation getBitType = ScalarType ScalarBit False"
  by (simp add: deref_def new_fields memberTypes_def getBitType_def)

lemma half_fields:
  "typeStore halfWidthCompilation
     = memberTypes @ [PackedArrayType (ScalarType ScalarBit False) (ConstantRange 8388607 0)]"
  "vectorTypeCache halfWidthCompilation = [8388608 \<mapsto> 21]"
  "scalarTypeTable halfWidthCompilation = scalarTypeTable newCompilation"
  "diags halfWidthCompilation = []"
  and half_getType: "getType newCompilation 8388608 {} = Inr (21, halfWidthCompilation)"
proof -
  have g: "getType newCompilation 8388608 {} =
     Inr (21, newCompilation\<lparr>typeStore := memberTypes @
                [PackedArrayType (ScalarType ScalarBit False) (ConstantRange 8388607 0)],
              vectorTypeCache := [8388608 \<mapsto> 21]\<rparr>)"
    using getType_miss [of 8388608 newCompilation "{}" getBitType] table_bit
    by (simp add: key_half new_fields deref_bit length_memberTypes int32_def)
  show "getType newCompilation 8388608 {} = Inr (21, halfWidthCompilation)"
    by (simp add: halfWidthCompilation_def g)
  show "typeStore halfWidthCompilation
     = memberTypes @ [PackedArrayType (ScalarType ScalarBit False) (ConstantRange 8388607 0)]"
    "vectorTypeCache halfWidthCompilation = [8388608 \<mapsto> 21]"
  "scalarTypeTable halfWidthCompilation = scalarTypeTable newCompilation"
  "diags halfWidthCompilation = []"
    by (simp_all add: halfWidthCompilation_def g new_fields)
qed

lemma half_deref:
  "deref halfWidthCompilation 21 = PackedArrayType (ScalarType ScalarBit False) (ConstantRange 8388607 0)"
  "deref halfWidthCompilation getByteType = PredefinedIntegerType Byte"
  "deref halfWidthCompilation getBitType = ScalarType ScalarBit False"
  by (simp_all add: deref_def half_fields memberTypes_def getByteType_def getBitType_def)

lemma half_loop:
  "concatLoop bindNameSelfDetermined \<lparr>bindFlags = {}\<rparr> wideConcatenation
     \<lparr>errored = False, flags = {}, totalWidth = 0, buffer = [], compilation = halfWidthCompilation\<rparr>
   = \<lparr>errored = False, flags = {}, totalWidth = 16777224,
      buffer = [Expression NamedValue 21 None None [], Expression NamedValue 21 None None [],
                Expression NamedValue getByteType None None []],
      compilation = halfWidthCompilation\<rparr>"
  by (simp add: wideConcatenation_def bindNameSelfDetermined_def bindName_def
        bad_def isError_def half_deref rangeWidth_def isVoid_def Let_def)

lemma key_miss: "vectorTypeCache halfWidthCompilation (typeKey 16777224 {}) = None"
  by (simp add: key_wide half_fields)

lemma half_table: "scalarTypeTable halfWidthCompilation (bits {} mod 8) = Some getBitType"
  using table_bit by (simp add: half_fields)

lemma wide_getType:
  "getType halfWidthCompilation 16777224 {} =
     Inr (22, halfWidthCompilation\<lparr>typeStore := memberTypes @
                [PackedArrayType (ScalarType ScalarBit False) (ConstantRange 8388607 0),
                 PackedArrayType (ScalarType ScalarBit False) (ConstantRange 16777223 0)],
              vectorTypeCache := [8388608 \<mapsto> 21, 16777224 \<mapsto> 22]\<rparr>)"
  using getType_miss [OF _ key_miss half_table]
  by (simp add: key_wide half_fields half_deref length_memberTypes int32_def)

lemma wide_fromSyntax:
  "ConcatenationExpression_fromSyntax bindNameSelfDetermined halfWidthCompilation
       wideConcatenation \<lparr>bindFlags = {}\<rparr>
   = Inr (Expression Concatenation 22 None None
            [Expression NamedValue 21 None None [], Expression NamedValue 21 None None [],
             Expression NamedValue getByteType None None []],
          afterWideConcatenation)"
  and wide_fields:
  "typeStore afterWideConcatenation = memberTypes @
                [PackedArrayType (ScalarType ScalarBit False) (ConstantRange 8388607 0),
                 PackedArrayType (ScalarType ScalarBit False) (ConstantRange 16777223 0)]"
  "vectorTypeCache afterWideConcatenation = [8388608 \<mapsto> 21, 16777224 \<mapsto> 22]"
  "scalarTypeTable afterWideConcatenation = scalarTypeTable newCompilation"
  "diags afterWideConcatenation = []"
proof -
  have f: "ConcatenationExpression_fromSyntax bindNameSelfDetermined halfWidthCompilation
       wideConcatenation \<lparr>bindFlags = {}\<rparr>
   = Inr (Expression Concatenation 22 None None
            [Expression NamedValue 21 None None [], Expression NamedValue 21 None None [],
             Expression NamedValue getByteType None None []],
          halfWidthCompilation\<lparr>typeStore := memberTypes @
                [PackedArrayType (ScalarType ScalarBit False) (ConstantRange 8388607 0),
                 PackedArrayType (ScalarType ScalarBit False) (ConstantRange 16777223 0)],
              vectorTypeCache := [8388608 \<mapsto> 21, 16777224 \<mapsto> 22]\<rparr>)"
    by (simp add: ConcatenationExpression_fromSyntax_def half_loop wide_getType)
  show "ConcatenationExpression_fromSyntax bindNameSelfDetermined halfWidthCompilation
       wideConcatenation \<lparr>bindFlags = {}\<rparr>
   = Inr (Expression Concatenation 22 None None
            [Expression NamedValue 21 None None [], Expression NamedValue 21 None None [],
             Expression NamedValue getByteType None None []],
          afterWideConcatenation)"
    by (simp add: afterWideConcatenation_def f)
  show "typeStore afterWideConcatenation = memberTypes @
                [PackedArrayType (ScalarType ScalarBit False) (ConstantRange 8388607 0),
                 PackedArrayType (ScalarType ScalarBit False) (ConstantRange 16777223 0)]"
  "vectorTypeCache afterWideConcatenation = [8388608 \<mapsto> 21, 16777224 \<mapsto> 22]"
  "scalarTypeTable afterWideConcatenation = scalarTypeTable newCompilation"
  "diags afterWideConcatenation = []"
    by (simp_all add: afterWideConcatenation_def f half_fields)
qed

lemma wide_deref:
  "deref afterWideConcatenation 22 = PackedArrayType (ScalarType ScalarBit False) (ConstantRange 16777223 0)"
  "deref afterWideConcatenation getByteType = PredefinedIntegerType Byte"
  by (simp_all add: deref_def wide_fields memberTypes_def getByteType_def)

lemma wide_hit: "getType afterWideConcatenation 8 {Signed} = Inr (22, afterWideConcatenation)"
  by (rule getType_hit) (simp_all add: key_byte wide_fields)

lemma wide_operator:
  "binaryOperatorType afterWideConcatenation getByteType getByteType False
     = Inr (22, afterWideConcatenation)"
  by (simp add: binaryOperatorType_def Let_def wide_deref isNumeric_def getIntegralFlags_def
        isScalar_def isFloating_def wide_hit isMatching_def)

text \<open>
  In the same compilation the keys collide twice for a conditional of two bytes: its type,
  requested for the width 8 and the flags \<open>Signed\<close> and \<open>FourState\<close>, is new, and it is what
  the cache returns for the width \<open>2^24 + 8\<close> and the flag \<open>FourState\<close>. So \<open>forceFourState\<close>
  maps the two-state, unsigned type of \<open>2^24 + 8\<close> bits to a signed type of 8 bits.
\<close>

lemma bits_values: "bits {FourState, Signed} = 3" "bits {FourState} = 2"
  by (simp_all add: bits_def)
lemma key_byte4: "typeKey 8 {FourState, Signed} = 50331656"
  by (simp add: typeKey_def bits_values BITWIDTH_BITS_def push_bit_eq_mult)
lemma key_wide4: "typeKey 16777224 {FourState} = 50331656"
  by (simp add: typeKey_def bits_values BITWIDTH_BITS_def push_bit_eq_mult)

lemma table_signedLogic:
  "scalarTypeTable newCompilation (bits {FourState, Signed} mod 8) = Some getSignedLogicType"
  by (simp add: newCompilation_def registerScalar_def bits_def getIntegralFlags_def memberTypes_def
     getBitType_def getLogicType_def getRegType_def
      getSignedBitType_def getSignedLogicType_def getSignedRegType_def)

lemma wide_getType4:
  "getType afterWideConcatenation 8 {FourState, Signed} =
     Inr (23, afterWideConcatenation\<lparr>typeStore := memberTypes @
                [PackedArrayType (ScalarType ScalarBit False) (ConstantRange 8388607 0),
                 PackedArrayType (ScalarType ScalarBit False) (ConstantRange 16777223 0),
                 PackedArrayType (ScalarType ScalarLogic True) (ConstantRange 7 0)],
              vectorTypeCache := [8388608 \<mapsto> 21, 16777224 \<mapsto> 22, 50331656 \<mapsto> 23]\<rparr>)"
proof -
  have m: "vectorTypeCache afterWideConcatenation (typeKey 8 {FourState, Signed}) = None"
    by (simp add: key_byte4 wide_fields)
  have t: "scalarTypeTable afterWideConcatenation (bits {FourState, Signed} mod 8) = Some getSignedLogicType"
    using table_signedLogic by (simp add: wide_fields)
  have d: "deref afterWideConcatenation getSignedLogicType = ScalarType ScalarLogic True"
    by (simp add: deref_def wide_fields memberTypes_def getSignedLogicType_def)
  show ?thesis
    using getType_miss [OF _ m t]
    by (simp add: key_byte4 wide_fields d length_memberTypes int32_def)
qed

lemma wide_operator4:
  "binaryOperatorType afterWideConcatenation getByteType getByteType True =
     Inr (23, afterWideConcatenation\<lparr>typeStore := memberTypes @
                [PackedArrayType (ScalarType ScalarBit False) (ConstantRange 8388607 0),
                 PackedArrayType (ScalarType ScalarBit False) (ConstantRange 16777223 0),
                 PackedArrayType (ScalarType ScalarLogic True) (ConstantRange 7 0)],
              vectorTypeCache := [8388608 \<mapsto> 21, 16777224 \<mapsto> 22, 50331656 \<mapsto> 23]\<rparr>)"
  by (simp add: binaryOperatorType_def Let_def wide_deref isNumeric_def getIntegralFlags_def
        isScalar_def isFloating_def wide_getType4)
     (simp add: deref_def isMatching_def memberTypes_def getByteType_def)

lemma cond_fromSyntax:
  "ConditionalExpression_fromSyntax bindName afterWideConcatenation
       [OtherExpressionSyntax getBitType] (OtherExpressionSyntax getByteType)
       (OtherExpressionSyntax getByteType) \<lparr>bindFlags = {}\<rparr>
   = Inr (Expression ConditionalOp 23 None None
            [Expression NamedValue getBitType None None [],
             Expression NamedValue getByteType None None [],
             Expression NamedValue getByteType None None []],
          afterWideConditional)"
  and cond_fields:
  "typeStore afterWideConditional = memberTypes @
                [PackedArrayType (ScalarType ScalarBit False) (ConstantRange 8388607 0),
                 PackedArrayType (ScalarType ScalarBit False) (ConstantRange 16777223 0),
                 PackedArrayType (ScalarType ScalarLogic True) (ConstantRange 7 0)]"
  "vectorTypeCache afterWideConditional = [8388608 \<mapsto> 21, 16777224 \<mapsto> 22, 50331656 \<mapsto> 23]"
proof -
  have f: "ConditionalExpression_fromSyntax bindName afterWideConcatenation
       [OtherExpressionSyntax getBitType] (OtherExpressionSyntax getByteType)
       (OtherExpressionSyntax getByteType) \<lparr>bindFlags = {}\<rparr>
   = Inr (Expression ConditionalOp 23 None None
            [Expression NamedValue getBitType None None [],
             Expression NamedValue getByteType None None [],
             Expression NamedValue getByteType None None []],
          afterWideConcatenation\<lparr>typeStore := memberTypes @
                [PackedArrayType (ScalarType ScalarBit False) (ConstantRange 8388607 0),
                 PackedArrayType (ScalarType ScalarBit False) (ConstantRange 16777223 0),
                 PackedArrayType (ScalarType ScalarLogic True) (ConstantRange 7 0)],
              vectorTypeCache := [8388608 \<mapsto> 21, 16777224 \<mapsto> 22, 50331656 \<mapsto> 23]\<rparr>)"
    by (simp add: ConditionalExpression_fromSyntax_def bindName_def wide_operator4)
  show "ConditionalExpression_fromSyntax bindName afterWideConcatenation
       [OtherExpressionSyntax getBitType] (OtherExpressionSyntax getByteType)
       (OtherExpressionSyntax getByteType) \<lparr>bindFlags = {}\<rparr>
   = Inr (Expression ConditionalOp 23 None None
            [Expression NamedValue getBitType None None [],
             Expression NamedValue getByteType None None [],
             Expression NamedValue getByteType None None []],
          afterWideConditional)"
    by (simp add: afterWideConditional_def f)
  show "typeStore afterWideConditional = memberTypes @
                [PackedArrayType (ScalarType ScalarBit False) (ConstantRange 8388607 0),
                 PackedArrayType (ScalarType ScalarBit False) (ConstantRange 16777223 0),
                 PackedArrayType (ScalarType ScalarLogic True) (ConstantRange 7 0)]"
  "vectorTypeCache afterWideConditional = [8388608 \<mapsto> 21, 16777224 \<mapsto> 22, 50331656 \<mapsto> 23]"
    by (simp_all add: afterWideConditional_def f)
qed

lemma cond_deref:
  "deref afterWideConditional 22 = PackedArrayType (ScalarType ScalarBit False) (ConstantRange 16777223 0)"
  "deref afterWideConditional 23 = PackedArrayType (ScalarType ScalarLogic True) (ConstantRange 7 0)"
  "deref afterWideConditional getByteType = PredefinedIntegerType Byte"
  by (simp_all add: deref_def cond_fields memberTypes_def getByteType_def)

lemma cond_operator:
  "binaryOperatorType afterWideConditional getByteType getByteType False
     = Inr (22, afterWideConditional)"
proof -
  have h: "getType afterWideConditional 8 {Signed} = Inr (22, afterWideConditional)"
    by (rule getType_hit) (simp_all add: key_byte cond_fields)
  show ?thesis
    by (simp add: binaryOperatorType_def Let_def cond_deref isNumeric_def getIntegralFlags_def
        isScalar_def isFloating_def h isMatching_def)
qed

lemma cond_force:
  "forceFourState afterWideConditional 22 = Inr (23, afterWideConditional)"
proof -
  have h: "getType afterWideConditional 16777224 {FourState} = Inr (23, afterWideConditional)"
    by (rule getType_hit) (simp_all add: key_wide4 cond_fields)
  show ?thesis
    by (simp add: forceFourState_def binaryOperatorType_def Let_def cond_deref isNumeric_def
        getIntegralFlags_def isScalar_def isFloating_def rangeWidth_def h isMatching_def)
qed

lemma conditional_after_wide_concatenation:
  "ConditionalExpression_fromSyntax bindName afterWideConcatenation
       [OtherExpressionSyntax getBitType] (OtherExpressionSyntax getByteType)
       (OtherExpressionSyntax getByteType) \<lparr>bindFlags = {}\<rparr>
   = Inr (Expression ConditionalOp 23 None None
            [Expression NamedValue getBitType None None [],
             Expression NamedValue getByteType None None [],
             Expression NamedValue getByteType None None []],
          afterWideConditional)
   \<and> binaryOperatorType afterWideConditional getByteType getByteType False
       = Inr (22, afterWideConditional)
   \<and> forceFourState afterWideConditional 22 = Inr (23, afterWideConditional)
   \<and> \<not> isFourState (deref afterWideConditional 22)
   \<and> getBitWidth (deref afterWideConditional 22) = 16777224
   \<and> \<not> isSigned (deref afterWideConditional 22)
   \<and> getBitWidth (deref afterWideConditional 23) = 8
   \<and> isSigned (deref afterWideConditional 23)"
  by (simp add: cond_fromSyntax cond_operator cond_force cond_deref rangeWidth_def)

section \<open>Type interning\<close>

text \<open>
  Claim C4, as amended. For every width \<open>w > 0\<close> and every flags value for which a scalar
  type is registered (\<open>Reg\<close> only together with \<open>FourState\<close>), \<open>getType(w, flags)\<close> returns,
  and a second call on the same compilation returns the same address without changing
  the compilation; the address is also what every later call for this width and these
  flags returns, whatever other type has been requested in between.
\<close>

theorem getType_interned:
  assumes "scalarsRegistered c" "0 < w" "regular f"
  shows "\<exists>p c'. getType c w f = Inr (p, c') \<and> getType c' w f = Inr (p, c')
           \<and> (\<forall>w' f' q c''. getType c' w' f' = Inr (q, c'') \<longrightarrow> getType c'' w f = Inr (p, c''))"
proof -
  from getType_total [OF assms] obtain p c' where h: "getType c w f = Inr (p, c')" by blast
  have again: "getType c' w f = Inr (p, c')" using h by (rule getType_again)
  have later: "getType c'' w f = Inr (p, c'')" if "getType c' w' f' = Inr (q, c'')" for w' f' q c''
    using getType_cache_mono [OF that getType_cached [OF h]] assms(2) getType_hit by blast
  show ?thesis using h again later by blast
qed

theorem getType_interned_witness:
  "scalarsRegistered newCompilation \<and> (0::nat) < 8 \<and> regular {Signed} \<and>
   (\<exists>p c'. getType newCompilation 8 {Signed} = Inr (p, c') \<and> getType c' 8 {Signed} = Inr (p, c')
      \<and> (\<forall>w' f' q c''. getType c' w' f' = Inr (q, c'') \<longrightarrow> getType c'' 8 {Signed} = Inr (p, c'')))"
  using getType_interned [of newCompilation 8 "{Signed}"] scalarsRegistered_new
  by (simp add: regular_def)

text \<open>
  Claim C4 as stated covers every flags value. For the flags value \<open>Reg\<close> alone no scalar
  type is registered at its index of the scalar table, and on a fresh compilation
  \<open>getType(8, Reg)\<close> misses the cache and fails the assertion of \<open>getScalarType\<close> instead of
  returning a type.
\<close>

theorem getType_unregistered_flags_counterexample:
  "getType newCompilation 8 {Reg} = Inl AssertionFailure"
  by (simp add: getType_def getScalarType_def newCompilation_def registerScalar_def bits_def
      typeKey_def getIntegralFlags_def memberTypes_def getBitType_def getLogicType_def getRegType_def
      getSignedBitType_def getSignedLogicType_def getSignedRegType_def)

section \<open>Lvalues\<close>

text \<open>
  Claim C5. An expression is an lvalue exactly when its kind is named-value,
  element-select, range-select or member-access; a literal of any sort and a unary, binary
  or conditional operator expression is not an lvalue.
\<close>

theorem isLValue_exactly:
  "(isLValue e \<longleftrightarrow> exprKind e \<in> {NamedValue, ElementSelect, RangeSelect, MemberAccess})
   \<and> \<not> isLValue (Expression IntegerLiteral t k v ops)
   \<and> \<not> isLValue (Expression RealLiteral t k v ops)
   \<and> \<not> isLValue (Expression UnbasedUnsizedIntegerLiteral t k v ops)
   \<and> \<not> isLValue (Expression NullLiteral t k v ops)
   \<and> \<not> isLValue (Expression StringLiteral t k v ops)
   \<and> \<not> isLValue (Expression UnaryOp t k v ops)
   \<and> \<not> isLValue (Expression BinaryOp t k v ops)
   \<and> \<not> isLValue (Expression ConditionalOp t k v ops)"
  by (cases "exprKind e") (simp_all add: isLValue_def)

section \<open>The result type of a binary operator\<close>

text \<open>
  Where the vector cache is sound, the rules hold. On a well-formed compilation, for two
  integral operand types whose widths are valid bit widths and for either value of the
  flag, \<open>binaryOperatorType\<close> returns a type whose width is the larger of the two operand
  widths, which is four-state exactly when the flag is set or an operand is four-state, and
  which is signed exactly when both operands are signed. The example is the operator type
  of an integer and a bit on a fresh compilation.
\<close>

lemma binaryOperatorType_integral_sound_cache:
  assumes "wellFormed c" "validPtr c lt" "validPtr c rt"
    and "isIntegral (deref c lt)" "isIntegral (deref c rt)"
    and "getBitWidth (deref c lt) \<le> MAX_BITS" "getBitWidth (deref c rt) \<le> MAX_BITS"
  shows "\<exists>res c'. binaryOperatorType c lt rt f = Inr (res, c')
           \<and> getBitWidth (deref c' res) = max (getBitWidth (deref c lt)) (getBitWidth (deref c rt))
           \<and> (isFourState (deref c' res) \<longleftrightarrow>
                f \<or> isFourState (deref c lt) \<or> isFourState (deref c rt))
           \<and> (isSigned (deref c' res) \<longleftrightarrow> isSigned (deref c lt) \<and> isSigned (deref c rt))"
proof -
  from binaryOperatorType_integral_wf [OF assms, of f]
  obtain res c' where r: "binaryOperatorType c lt rt f = Inr (res, c')"
    "isMatching (deref c' res) (operatorShape (deref c lt) (deref c rt) f)"
    by blast
  show ?thesis
    using r(1) matching_width [OF r(2)] matching_fourState [OF r(2)] matching_signed [OF r(2)]
      shape_width [OF assms(4)] shape_signed shape_fourState
    by auto
qed

lemma binaryOperatorType_integral_example:
  "wellFormed newCompilation \<and> validPtr newCompilation getIntegerType
   \<and> validPtr newCompilation getBitType
   \<and> isIntegral (deref newCompilation getIntegerType)
   \<and> isIntegral (deref newCompilation getBitType)
   \<and> getBitWidth (deref newCompilation getIntegerType) \<le> MAX_BITS
   \<and> getBitWidth (deref newCompilation getBitType) \<le> MAX_BITS
   \<and> (\<exists>res c'. binaryOperatorType newCompilation getIntegerType getBitType False = Inr (res, c')
          \<and> getBitWidth (deref c' res) = 32 \<and> isFourState (deref c' res)
          \<and> \<not> isSigned (deref c' res))"
proof -
  have d1: "deref newCompilation getIntegerType = PredefinedIntegerType IntegerKind"
    by (simp add: deref_def newCompilation_def memberTypes_def getIntegerType_def)
  have d2: "deref newCompilation getBitType = ScalarType ScalarBit False"
    by (simp add: deref_def newCompilation_def memberTypes_def getBitType_def)
  have v1: "validPtr newCompilation getIntegerType"
    by (simp add: validPtr_def newCompilation_def memberTypes_def getIntegerType_def)
  have v2: "validPtr newCompilation getBitType"
    by (simp add: validPtr_def newCompilation_def memberTypes_def getBitType_def)
  have i1: "isIntegral (deref newCompilation getIntegerType)" by (simp add: d1)
  have i2: "isIntegral (deref newCompilation getBitType)" by (simp add: d2)
  have w1: "getBitWidth (deref newCompilation getIntegerType) \<le> MAX_BITS"
    by (simp add: d1 MAX_BITS_def BITWIDTH_BITS_def)
  have w2: "getBitWidth (deref newCompilation getBitType) \<le> MAX_BITS"
    by (simp add: d2 MAX_BITS_def BITWIDTH_BITS_def)
  show ?thesis
    using binaryOperatorType_integral_sound_cache [OF wellFormed_new v1 v2 i1 i2 w1 w2, of False]
      wellFormed_new v1 v2 i1 i2 w1 w2
    by (simp add: d1 d2)
qed

text \<open>
  Claim C1 states these rules for every pair of integral types, and the comment in
  \<open>binaryOperatorType\<close> states them too; the code breaks them once a type wider than
  \<open>SVInt::MAX_BITS\<close> has been requested. \<open>ConcatenationExpression::fromSyntax\<close> reports
  \<open>ValueExceedsMaxBitWidth\<close> only when the sum of the operand widths wraps at 32 bits, so
  the concatenation \<open>{a, a, b}\<close> of two vectors of \<open>2^23\<close> bits and a byte is bound without a
  diagnostic and requests a type of \<open>2^24 + 8\<close> bits. \<open>getType\<close> stores it under the key
  \<open>width | flags << 24\<close>, which is the key of the width 8 and the flag \<open>Signed\<close>. From then on
  \<open>binaryOperatorType(byte, byte, false)\<close> finds that type in the cache: for two signed
  operands of 8 bits it returns an unsigned type of \<open>2^24 + 8\<close> bits.
\<close>

theorem binaryOperatorType_after_wide_concatenation:
  "getType newCompilation 8388608 {} = Inr (21, halfWidthCompilation)
   \<and> ConcatenationExpression_fromSyntax bindNameSelfDetermined halfWidthCompilation
         wideConcatenation \<lparr>bindFlags = {}\<rparr>
       = Inr (Expression Concatenation 22 None None
                [Expression NamedValue 21 None None [], Expression NamedValue 21 None None [],
                 Expression NamedValue getByteType None None []],
              afterWideConcatenation)
   \<and> diags afterWideConcatenation = []
   \<and> deref afterWideConcatenation getByteType = PredefinedIntegerType Byte
   \<and> binaryOperatorType afterWideConcatenation getByteType getByteType False
       = Inr (22, afterWideConcatenation)
   \<and> deref afterWideConcatenation 22
       = PackedArrayType (ScalarType ScalarBit False) (ConstantRange 16777223 0)
   \<and> getBitWidth (deref afterWideConcatenation 22) = 16777224
   \<and> \<not> isSigned (deref afterWideConcatenation 22)
   \<and> getBitWidth (deref afterWideConcatenation getByteType) = 8
   \<and> isSigned (deref afterWideConcatenation getByteType)"
  by (simp add: half_getType wide_fromSyntax wide_fields wide_deref wide_operator rangeWidth_def)

text \<open>
  So at this input the width of the result is not the larger of the operand widths, and
  the result is unsigned although both operands are signed.
\<close>

theorem binaryOperatorType_after_wide_concatenation_witness:
  "binaryOperatorType afterWideConcatenation getByteType getByteType False
     = Inr (22, afterWideConcatenation)
   \<and> getBitWidth (deref afterWideConcatenation 22)
       \<noteq> max (getBitWidth (deref afterWideConcatenation getByteType))
             (getBitWidth (deref afterWideConcatenation getByteType))
   \<and> isSigned (deref afterWideConcatenation getByteType)
   \<and> \<not> isSigned (deref afterWideConcatenation 22)"
proof -
  from binaryOperatorType_after_wide_concatenation
  have r: "binaryOperatorType afterWideConcatenation getByteType getByteType False
             = Inr (22, afterWideConcatenation)"
    and w: "getBitWidth (deref afterWideConcatenation 22) = 16777224"
    and u: "\<not> isSigned (deref afterWideConcatenation 22)"
    and b: "getBitWidth (deref afterWideConcatenation getByteType) = 8"
    and s: "isSigned (deref afterWideConcatenation getByteType)"
    by blast+
  show ?thesis using r u s by (simp add: w b)
qed

section \<open>The type of a conditional expression\<close>

text \<open>
  Claim C8, as amended. \<open>ConditionalExpression::fromSyntax\<close> gives the conditional the type
  \<open>binaryOperatorType(l, r, true)\<close> of its branch types. On a well-formed compilation (the
  vector cache holds, under the key of a valid width and a flag set, the packed array of
  that width and these flags) and for branch types of valid widths, this is the type
  object that \<open>forceFourState(binaryOperatorType(l, r, false))\<close> yields on the compilation that
  the call leaves behind, and evaluating that expression allocates nothing further in
  \<open>forceFourState\<close>. For every type \<open>y\<close> of a valid width in that compilation,
  \<open>forceFourState(y)\<close> returns \<open>y\<close> itself when \<open>y\<close> is floating or four-state; a four-state type of
  the same width, signedness and scalar-ness when \<open>y\<close> is integral and two-state; and the
  error type when \<open>y\<close> is not numeric.
\<close>

theorem conditional_result_type:
  assumes cp: "create c cond ctx = (pred, c1)"
    and cl: "create c1 leftSyntax ctx = (leftExpr, c2)"
    and cr: "create c2 rightSyntax ctx = (rightExpr, c3)"
    and wf: "wellFormed c3"
    and vl: "validPtr c3 (exprType leftExpr)" and vr: "validPtr c3 (exprType rightExpr)"
    and wl: "getBitWidth (deref c3 (exprType leftExpr)) \<le> MAX_BITS"
    and wr: "getBitWidth (deref c3 (exprType rightExpr)) \<le> MAX_BITS"
  shows "\<exists>t c4 x c5.
           ConditionalExpression_fromSyntax create c [cond] leftSyntax rightSyntax ctx
             = Inr (Expression ConditionalOp t None None [pred, leftExpr, rightExpr], c4)
           \<and> binaryOperatorType c4 (exprType leftExpr) (exprType rightExpr) False = Inr (x, c5)
           \<and> forceFourState c5 x = Inr (t, c5)
           \<and> validPtr c5 x \<and> getBitWidth (deref c5 x) \<le> MAX_BITS
           \<and> (\<forall>y. validPtr c5 y \<and> getBitWidth (deref c5 y) \<le> MAX_BITS \<longrightarrow>
                (\<exists>u c6. forceFourState c5 y = Inr (u, c6)
                   \<and> (isFloating (deref c5 y) \<or> isFourState (deref c5 y) \<longrightarrow> u = y \<and> c6 = c5)
                   \<and> (isIntegral (deref c5 y) \<and> \<not> isFourState (deref c5 y) \<longrightarrow>
                         isFourState (deref c6 u)
                         \<and> getBitWidth (deref c6 u) = getBitWidth (deref c5 y)
                         \<and> isSigned (deref c6 u) = isSigned (deref c5 y)
                         \<and> isScalar (deref c6 u) = isScalar (deref c5 y))
                   \<and> (\<not> isNumeric (deref c5 y) \<longrightarrow> u = getErrorType \<and> c6 = c5)))"
proof -
  from conditional_equivalence [OF wf vl vr wl wr]
  obtain t c4 x c5 where e:
    "binaryOperatorType c3 (exprType leftExpr) (exprType rightExpr) True = Inr (t, c4)"
    "binaryOperatorType c4 (exprType leftExpr) (exprType rightExpr) False = Inr (x, c5)"
    "forceFourState c5 x = Inr (t, c5)"
    by blast
  have fs: "ConditionalExpression_fromSyntax create c [cond] leftSyntax rightSyntax ctx
             = Inr (Expression ConditionalOp t None None [pred, leftExpr, rightExpr], c4)"
    using cp cl cr e(1) by (simp add: ConditionalExpression_fromSyntax_def)
  from binaryOperatorType_wf [OF wf vl vr wl wr, of True] e(1)
  have wf4: "wellFormed c4" and g4: "grows c3 c4" by auto
  have ext4: "extends c3 c4" using g4 by (rule grows_extends)
  have vl4: "validPtr c4 (exprType leftExpr)" and vr4: "validPtr c4 (exprType rightExpr)"
    using extends_valid [OF ext4] vl vr by simp_all
  have wl4: "getBitWidth (deref c4 (exprType leftExpr)) \<le> MAX_BITS"
    using extends_deref [OF ext4 vl] wl by simp
  have wr4: "getBitWidth (deref c4 (exprType rightExpr)) \<le> MAX_BITS"
    using extends_deref [OF ext4 vr] wr by simp
  from binaryOperatorType_wf [OF wf4 vl4 vr4 wl4 wr4, of False] e(2)
  have wf5: "wellFormed c5" and vx: "validPtr c5 x"
    and wx: "getBitWidth (deref c5 x) \<le> MAX_BITS" by auto
  have general: "\<forall>y. validPtr c5 y \<and> getBitWidth (deref c5 y) \<le> MAX_BITS \<longrightarrow>
                (\<exists>u c6. forceFourState c5 y = Inr (u, c6)
                   \<and> (isFloating (deref c5 y) \<or> isFourState (deref c5 y) \<longrightarrow> u = y \<and> c6 = c5)
                   \<and> (isIntegral (deref c5 y) \<and> \<not> isFourState (deref c5 y) \<longrightarrow>
                         isFourState (deref c6 u)
                         \<and> getBitWidth (deref c6 u) = getBitWidth (deref c5 y)
                         \<and> isSigned (deref c6 u) = isSigned (deref c5 y)
                         \<and> isScalar (deref c6 u) = isScalar (deref c5 y))
                   \<and> (\<not> isNumeric (deref c5 y) \<longrightarrow> u = getErrorType \<and> c6 = c5))"
    using forceFourState_cases [OF wf5] by blast
  show ?thesis using fs e(2,3) vx wx general by blast
qed

text \<open>
  An instance: the conditional \<open>p ? b : i\<close> on a fresh compilation, for \<open>p\<close> of type bit, \<open>b\<close>
  of type byte and \<open>i\<close> of type int.
\<close>

theorem conditional_result_type_witness:
  "bindName newCompilation (OtherExpressionSyntax getBitType) \<lparr>bindFlags = {}\<rparr>
     = (Expression NamedValue getBitType None None [], newCompilation)
   \<and> bindName newCompilation (OtherExpressionSyntax getByteType) \<lparr>bindFlags = {}\<rparr>
     = (Expression NamedValue getByteType None None [], newCompilation)
   \<and> bindName newCompilation (OtherExpressionSyntax getIntType) \<lparr>bindFlags = {}\<rparr>
     = (Expression NamedValue getIntType None None [], newCompilation)
   \<and> wellFormed newCompilation
   \<and> validPtr newCompilation getByteType \<and> validPtr newCompilation getIntType
   \<and> getBitWidth (deref newCompilation getByteType) \<le> MAX_BITS
   \<and> getBitWidth (deref newCompilation getIntType) \<le> MAX_BITS
   \<and> (\<exists>t c4 x c5.
         ConditionalExpression_fromSyntax bindName newCompilation
             [OtherExpressionSyntax getBitType] (OtherExpressionSyntax getByteType)
             (OtherExpressionSyntax getIntType) \<lparr>bindFlags = {}\<rparr>
           = Inr (Expression ConditionalOp t None None
                    [Expression NamedValue getBitType None None [],
                     Expression NamedValue getByteType None None [],
                     Expression NamedValue getIntType None None []], c4)
         \<and> binaryOperatorType c4 getByteType getIntType False = Inr (x, c5)
         \<and> forceFourState c5 x = Inr (t, c5)
         \<and> validPtr c5 x \<and> getBitWidth (deref c5 x) \<le> MAX_BITS
         \<and> (\<forall>y. validPtr c5 y \<and> getBitWidth (deref c5 y) \<le> MAX_BITS \<longrightarrow>
                (\<exists>u c6. forceFourState c5 y = Inr (u, c6)
                   \<and> (isFloating (deref c5 y) \<or> isFourState (deref c5 y) \<longrightarrow> u = y \<and> c6 = c5)
                   \<and> (isIntegral (deref c5 y) \<and> \<not> isFourState (deref c5 y) \<longrightarrow>
                         isFourState (deref c6 u)
                         \<and> getBitWidth (deref c6 u) = getBitWidth (deref c5 y)
                         \<and> isSigned (deref c6 u) = isSigned (deref c5 y)
                         \<and> isScalar (deref c6 u) = isScalar (deref c5 y))
                   \<and> (\<not> isNumeric (deref c5 y) \<longrightarrow> u = getErrorType \<and> c6 = c5))))"
proof -
  have b: "bindName newCompilation (OtherExpressionSyntax n) \<lparr>bindFlags = {}\<rparr>
     = (Expression NamedValue n None None [], newCompilation)" for n
    by (simp add: bindName_def)
  have d: "deref newCompilation getByteType = PredefinedIntegerType Byte"
    "deref newCompilation getIntType = PredefinedIntegerType IntKind"
    by (simp_all add: deref_def newCompilation_def memberTypes_def getByteType_def getIntType_def)
  have v: "validPtr newCompilation getByteType" "validPtr newCompilation getIntType"
    by (simp_all add: validPtr_def newCompilation_def memberTypes_def getByteType_def getIntType_def)
  have w: "getBitWidth (deref newCompilation getByteType) \<le> MAX_BITS"
    "getBitWidth (deref newCompilation getIntType) \<le> MAX_BITS"
    by (simp_all add: d MAX_BITS_def BITWIDTH_BITS_def)
  show ?thesis
    using conditional_result_type
      [where create = bindName
         and c = newCompilation and ?c1.0 = newCompilation and ?c2.0 = newCompilation
         and ?c3.0 = newCompilation and cond = "OtherExpressionSyntax getBitType"
         and leftSyntax = "OtherExpressionSyntax getByteType"
         and rightSyntax = "OtherExpressionSyntax getIntType"
         and ctx = "\<lparr>bindFlags = {}\<rparr>"
         and pred = "Expression NamedValue getBitType None None []"
         and leftExpr = "Expression NamedValue getByteType None None []"
         and rightExpr = "Expression NamedValue getIntType None None []"]
      wellFormed_new v w
    by (simp add: b)
qed

text \<open>
  Claim C8 as stated lets \<open>forceFourState\<close> return, for every type that is neither real nor
  four-state, the same shape with the flag \<open>FourState\<close> set. For a type that is not numeric
  the code returns the error type instead: \<open>forceFourState\<close> passes it to
  \<open>binaryOperatorType\<close>, whose first test returns the error type for an operand that is not
  numeric. So the conditional of two strings has the error type, which is what
  \<open>forceFourState\<close> makes of \<open>binaryOperatorType(string, string, false)\<close>, and it is not
  four-state; and \<open>forceFourState\<close> maps the string type, which is neither floating nor
  four-state, to the error type.
\<close>

theorem forceFourState_nonnumeric_counterexample:
  "ConditionalExpression_fromSyntax bindName newCompilation
       [OtherExpressionSyntax getBitType] (OtherExpressionSyntax getStringType)
       (OtherExpressionSyntax getStringType) \<lparr>bindFlags = {}\<rparr>
     = Inr (Expression ConditionalOp getErrorType None None
              [Expression NamedValue getBitType None None [],
               Expression NamedValue getStringType None None [],
               Expression NamedValue getStringType None None []], newCompilation)
   \<and> binaryOperatorType newCompilation getStringType getStringType False
       = Inr (getErrorType, newCompilation)
   \<and> forceFourState newCompilation getErrorType = Inr (getErrorType, newCompilation)
   \<and> deref newCompilation getErrorType = ErrorType
   \<and> \<not> isFloating (deref newCompilation getErrorType)
   \<and> \<not> isFourState (deref newCompilation getErrorType)
   \<and> forceFourState newCompilation getStringType = Inr (getErrorType, newCompilation)
   \<and> deref newCompilation getStringType = StringType
   \<and> \<not> isFloating (deref newCompilation getStringType)
   \<and> \<not> isFourState (deref newCompilation getStringType)"
proof -
  have d: "deref newCompilation getStringType = StringType"
    "deref newCompilation getErrorType = ErrorType"
    by (simp_all add: deref_def newCompilation_def memberTypes_def getStringType_def getErrorType_def)
  have o: "binaryOperatorType newCompilation getStringType getStringType f
             = Inr (getErrorType, newCompilation)" for f
    by (simp add: binaryOperatorType_def d isNumeric_def isFloating_def)
  have e: "binaryOperatorType newCompilation getErrorType getErrorType True
             = Inr (getErrorType, newCompilation)"
    by (simp add: binaryOperatorType_def d isNumeric_def isFloating_def)
  show ?thesis
    by (simp add: ConditionalExpression_fromSyntax_def bindName_def o e d forceFourState_def
          isFloating_def)
qed

section \<open>Assignment conversion\<close>

text \<open>
  Claim C2. For the conversion of an expression to a target type by
  \<open>Expression::convertAssignment\<close>: if the target is not assignment-compatible with the
  type of the expression, exactly one diagnostic is added, \<open>NoImplicitConversion\<close> when
  the target is cast-compatible and \<open>BadAssignment\<close> otherwise, and the result is a bad
  expression. Otherwise the expression goes through context-determined propagation with
  the type \<open>binaryOperatorType(T, type(e), false)\<close>, and the result is the propagated
  expression, wrapped in one \<open>IntTruncation\<close> conversion to the target exactly when the
  width of that type exceeds the width of the target. For integral types on a well-formed
  compilation this is the case exactly when the expression is wider than the target, and
  \<open>convertAssignment\<close> itself adds no diagnostic; the witness is the assignment of a 16-bit
  unsigned expression to an 8-bit unsigned target.
\<close>

theorem convertAssignment_behaviour:
  "(\<not> isAssignmentCompatible (deref c type) (deref c (exprType expr)) \<longrightarrow>
      (\<exists>e c'. convertAssignment isCastCompatible contextDetermined c type expr = Inr (e, c')
         \<and> bad c' e
         \<and> diags c' = diags c @ [if isCastCompatible (deref c type) (deref c (exprType expr))
                                  then NoImplicitConversion else BadAssignment]))
   \<and> (isAssignmentCompatible (deref c type) (deref c (exprType expr))
        \<and> binaryOperatorType c type (exprType expr) False = Inr (rt, c1)
        \<and> contextDetermined c1 expr rt = (result, c2) \<longrightarrow>
        convertAssignment isCastCompatible contextDetermined c type expr
          = Inr (if getBitWidth (deref c2 rt) > getBitWidth (deref c2 type)
                 then Expression Conversion type None (Some IntTruncation) [result]
                 else result, c2))
   \<and> (wellFormed c \<and> validPtr c type \<and> validPtr c (exprType expr)
        \<and> isIntegral (deref c type) \<and> isIntegral (deref c (exprType expr))
        \<and> getBitWidth (deref c type) \<le> MAX_BITS
        \<and> getBitWidth (deref c (exprType expr)) \<le> MAX_BITS
        \<and> (\<forall>c1 rt. extends c1 (snd (contextDetermined c1 expr rt))) \<longrightarrow>
        (\<exists>rt c1 result c2.
           binaryOperatorType c type (exprType expr) False = Inr (rt, c1)
           \<and> diags c1 = diags c
           \<and> contextDetermined c1 expr rt = (result, c2)
           \<and> convertAssignment isCastCompatible contextDetermined c type expr
                = Inr (if getBitWidth (deref c (exprType expr)) > getBitWidth (deref c type)
                       then Expression Conversion type None (Some IntTruncation) [result]
                       else result, c2)
           \<and> deref c2 type = deref c type))"
proof (intro conjI impI)
  assume "\<not> isAssignmentCompatible (deref c type) (deref c (exprType expr))"
  from convertAssignment_incompatible [OF this, of isCastCompatible contextDetermined]
  show "\<exists>e c'. convertAssignment isCastCompatible contextDetermined c type expr = Inr (e, c')
         \<and> bad c' e
         \<and> diags c' = diags c @ [if isCastCompatible (deref c type) (deref c (exprType expr))
                                  then NoImplicitConversion else BadAssignment]"
    using badExpr_bad by (simp add: addError_def)
next
  assume "isAssignmentCompatible (deref c type) (deref c (exprType expr))
        \<and> binaryOperatorType c type (exprType expr) False = Inr (rt, c1)
        \<and> contextDetermined c1 expr rt = (result, c2)"
  then show "convertAssignment isCastCompatible contextDetermined c type expr
          = Inr (if getBitWidth (deref c2 rt) > getBitWidth (deref c2 type)
                 then Expression Conversion type None (Some IntTruncation) [result]
                 else result, c2)"
    using convertAssignment_compatible [of c type expr rt c1 contextDetermined result c2]
    by (simp add: convert_def)
next
  assume h: "wellFormed c \<and> validPtr c type \<and> validPtr c (exprType expr)
        \<and> isIntegral (deref c type) \<and> isIntegral (deref c (exprType expr))
        \<and> getBitWidth (deref c type) \<le> MAX_BITS
        \<and> getBitWidth (deref c (exprType expr)) \<le> MAX_BITS
        \<and> (\<forall>c1 rt. extends c1 (snd (contextDetermined c1 expr rt)))"
  then have wf: "wellFormed c" and vt: "validPtr c type" and ve: "validPtr c (exprType expr)"
    and it: "isIntegral (deref c type)" and ie: "isIntegral (deref c (exprType expr))"
    and wt: "getBitWidth (deref c type) \<le> MAX_BITS"
    and we: "getBitWidth (deref c (exprType expr)) \<le> MAX_BITS"
    and fr: "\<And>c1 rt. extends c1 (snd (contextDetermined c1 expr rt))"
    by simp_all
  from binaryOperatorType_integral_wf [OF wf vt ve it ie wt we, of False]
  obtain rt c1 where r: "binaryOperatorType c type (exprType expr) False = Inr (rt, c1)"
    "grows c c1" "validPtr c1 rt" "diags c1 = diags c"
    "isMatching (deref c1 rt) (operatorShape (deref c type) (deref c (exprType expr)) False)"
    by blast
  obtain result c2 where cd: "contextDetermined c1 expr rt = (result, c2)"
    by (cases "contextDetermined c1 expr rt")
  have ext1: "extends c c1" using r(2) by (rule grows_extends)
  have ext2: "extends c1 c2" using fr [of c1 rt] cd by simp
  have d2t: "deref c2 type = deref c type"
    using extends_deref [OF ext2 extends_valid [OF ext1 vt]] extends_deref [OF ext1 vt] by simp
  have d2r: "deref c2 rt = deref c1 rt" using extends_deref [OF ext2 r(3)] .
  have wr: "getBitWidth (deref c2 rt)
      = max (getBitWidth (deref c type)) (getBitWidth (deref c (exprType expr)))"
    using matching_width [OF r(5)] shape_width [OF it] d2r by simp
  have ac: "isAssignmentCompatible (deref c type) (deref c (exprType expr))"
    using it ie by (simp add: isAssignmentCompatible_def integral_numeric)
  have "convertAssignment isCastCompatible contextDetermined c type expr
                = Inr (if getBitWidth (deref c (exprType expr)) > getBitWidth (deref c type)
                       then Expression Conversion type None (Some IntTruncation) [result]
                       else result, c2)"
    using convertAssignment_compatible
            [where contextDetermined = contextDetermined and isCastCompatible = isCastCompatible,
             OF ac r(1) cd] wr d2t
    by (auto simp: convert_def)
  then show "\<exists>rt c1 result c2.
           binaryOperatorType c type (exprType expr) False = Inr (rt, c1)
           \<and> diags c1 = diags c
           \<and> contextDetermined c1 expr rt = (result, c2)
           \<and> convertAssignment isCastCompatible contextDetermined c type expr
                = Inr (if getBitWidth (deref c (exprType expr)) > getBitWidth (deref c type)
                       then Expression Conversion type None (Some IntTruncation) [result]
                       else result, c2)
           \<and> deref c2 type = deref c type"
    using r(1,4) cd d2t by blast
qed

theorem convertAssignment_behaviour_witness:
  "\<exists>p8 c8 p16 c16.
     getType newCompilation 8 {} = Inr (p8, c8) \<and> getType c8 16 {} = Inr (p16, c16)
     \<and> wellFormed c16 \<and> validPtr c16 p8 \<and> validPtr c16 p16
     \<and> isIntegral (deref c16 p8) \<and> isIntegral (deref c16 p16)
     \<and> getBitWidth (deref c16 p8) = 8 \<and> getBitWidth (deref c16 p16) = 16
     \<and> \<not> isSigned (deref c16 p8) \<and> \<not> isSigned (deref c16 p16)
     \<and> isAssignmentCompatible (deref c16 p8) (deref c16 p16)
     \<and> (\<exists>rt c1.
           binaryOperatorType c16 p8 p16 False = Inr (rt, c1)
           \<and> convertAssignment (\<lambda>a b. False) (\<lambda>c e t. (e, c)) c16 p8
                (Expression NamedValue p16 None None [])
                = Inr (Expression Conversion p8 None (Some IntTruncation)
                         [Expression NamedValue p16 None None []], c1)
           \<and> diags c1 = []
           \<and> getBitWidth (deref c1 p8) = 8 \<and> \<not> isSigned (deref c1 p8))
     \<and> \<not> isAssignmentCompatible (deref newCompilation getStringType)
           (deref newCompilation getIntType)
     \<and> (\<exists>e c'. convertAssignment (\<lambda>a b. False) (\<lambda>c e t. (e, c)) newCompilation getStringType
                  (Expression NamedValue getIntType None None []) = Inr (e, c')
           \<and> bad c' e \<and> diags c' = [BadAssignment])"
proof -
  have v8: "validWidth 8" and v16: "validWidth 16"
    by (simp_all add: validWidth_def MAX_BITS_def BITWIDTH_BITS_def)
  have reg: "regular {}" by (simp add: regular_def)
  from getType_wf [OF wellFormed_new v8 reg]
  obtain p8 c8 where a: "getType newCompilation 8 {} = Inr (p8, c8)" "wellFormed c8"
    "validPtr c8 p8" "deref c8 p8 = PackedArrayType (scalarOf {}) (ConstantRange (int 8 - 1) 0)"
    "diags c8 = diags newCompilation"
    by blast
  from getType_wf [OF a(2) v16 reg]
  obtain p16 c16 where b: "getType c8 16 {} = Inr (p16, c16)" "wellFormed c16"
    "validPtr c16 p16" "deref c16 p16 = PackedArrayType (scalarOf {}) (ConstantRange (int 16 - 1) 0)"
    "extends c8 c16" "diags c16 = diags c8"
    by blast
  define e where "e = Expression NamedValue p16 None None []"
  have vp8: "validPtr c16 p8" using extends_valid [OF b(5) a(3)] .
  have d8: "deref c16 p8 = PackedArrayType (scalarOf {}) (ConstantRange 7 0)"
    using extends_deref [OF b(5) a(3)] a(4) by simp
  have d16: "deref c16 p16 = PackedArrayType (scalarOf {}) (ConstantRange 15 0)"
    using b(4) by simp
  have i8: "isIntegral (deref c16 p8)" and i16: "isIntegral (deref c16 p16)"
    by (simp_all add: d8 d16)
  have w8: "getBitWidth (deref c16 p8) = 8" and w16: "getBitWidth (deref c16 p16) = 16"
    by (simp_all add: d8 d16 rangeWidth_def)
  have s8: "\<not> isSigned (deref c16 p8)" and s16: "\<not> isSigned (deref c16 p16)"
    by (simp_all add: d8 d16)
  have m8: "getBitWidth (deref c16 p8) \<le> MAX_BITS" and m16: "getBitWidth (deref c16 p16) \<le> MAX_BITS"
    by (simp_all add: w8 w16 MAX_BITS_def BITWIDTH_BITS_def)
  have ac: "isAssignmentCompatible (deref c16 p8) (deref c16 p16)"
    using i8 i16 by (simp add: isAssignmentCompatible_def integral_numeric)
  have dg: "diags c16 = []" using a(5) b(6) by (simp add: newCompilation_def)
  have fr: "\<forall>c1 rt. extends c1 (snd ((\<lambda>c e t. (e, c)) c1 e rt))"
    by (simp add: extends_refl)
  have "\<exists>rt c1 result c2.
           binaryOperatorType c16 p8 (exprType e) False = Inr (rt, c1)
           \<and> diags c1 = diags c16
           \<and> (\<lambda>c e t. (e, c)) c1 e rt = (result, c2)
           \<and> convertAssignment (\<lambda>a b. False) (\<lambda>c e t. (e, c)) c16 p8 e
                = Inr (if getBitWidth (deref c16 (exprType e)) > getBitWidth (deref c16 p8)
                       then Expression Conversion p8 None (Some IntTruncation) [result]
                       else result, c2)
           \<and> deref c2 p8 = deref c16 p8"
    using convertAssignment_behaviour
            [where c = c16 and type = p8 and expr = e and contextDetermined = "\<lambda>c e t. (e, c)"
               and isCastCompatible = "\<lambda>a b. False"]
          b(2) vp8 b(3) i8 i16 m8 m16 fr
    by (simp add: e_def)
  then obtain rt c1 where B:
    "binaryOperatorType c16 p8 p16 False = Inr (rt, c1)" "diags c1 = diags c16"
    "convertAssignment (\<lambda>a b. False) (\<lambda>c e t. (e, c)) c16 p8 e
       = Inr (Expression Conversion p8 None (Some IntTruncation) [e], c1)"
    "deref c1 p8 = deref c16 p8"
    using w8 w16 by (auto simp: e_def)
  have ds: "deref newCompilation getStringType = StringType"
    by (simp add: deref_def newCompilation_def memberTypes_def getStringType_def)
  have di: "deref newCompilation getIntType = PredefinedIntegerType IntKind"
    by (simp add: deref_def newCompilation_def memberTypes_def getIntType_def)
  have nac: "\<not> isAssignmentCompatible (deref newCompilation getStringType)
           (deref newCompilation getIntType)"
    by (simp add: ds di isAssignmentCompatible_def isNumeric_def isFloating_def isNull_def
        isAggregate_def)
  have A: "\<exists>e c'. convertAssignment (\<lambda>a b. False) (\<lambda>c e t. (e, c)) newCompilation getStringType
                  (Expression NamedValue getIntType None None []) = Inr (e, c')
           \<and> bad c' e \<and> diags c' = [BadAssignment]"
    using convertAssignment_behaviour
            [where c = newCompilation and type = getStringType
               and expr = "Expression NamedValue getIntType None None []"
               and contextDetermined = "\<lambda>c e t. (e, c)" and isCastCompatible = "\<lambda>a b. False"]
          nac
    by (simp add: newCompilation_def)
  show ?thesis
    using a(1) b(1,2) vp8 b(3) i8 i16 w8 w16 s8 s16 ac B dg nac A
    by (auto simp: e_def)
qed

section \<open>Replication with a zero count\<close>

text \<open>
  Claim C7, as amended. For a replication whose count binds without error to the integer
  constant zero, without unknown bits, and whose operand binds without error: bound
  outside a concatenation, \<open>ReplicationExpression::fromSyntax\<close> adds the diagnostic
  \<open>ReplicationZeroOutsideConcat\<close> and returns a bad expression; bound inside a
  concatenation it returns a replication of type void and leaves the compilation as the
  operands left it, so no diagnostic is added; and when the loop of
  \<open>ConcatenationExpression::fromSyntax\<close> receives that expression for the replication
  syntax, it appends it to the buffer and goes on with the same \<open>totalWidth\<close>, flags and
  error state.
\<close>

theorem replication_zero_count:
  assumes bl: "selfDetermined c expression ctx {IntegralConstant} = (leftE, c1)"
    and br: "selfDetermined c1 concatenation ctx {} = (rightE, c2)"
    and gl: "\<not> bad c2 leftE" and gr: "\<not> bad c2 rightE"
    and cv: "exprConstant leftE = Some (IntegerValue v)" and z: "svValue v = 0"
    and nu: "\<not> svUnknown v"
  shows "(InsideConcatenation \<notin> bindFlags ctx \<longrightarrow>
           (\<exists>e c'. ReplicationExpression_fromSyntax selfDetermined c expression concatenation ctx
                      = Inr (e, c')
                    \<and> bad c' e \<and> diags c' = diags c2 @ [ReplicationZeroOutsideConcat]))
       \<and> (InsideConcatenation \<in> bindFlags ctx \<longrightarrow>
           (\<exists>e. ReplicationExpression_fromSyntax selfDetermined c expression concatenation ctx
                    = Inr (e, c2)
                 \<and> exprKind e = Replication \<and> exprType e = getVoidType
                 \<and> (\<forall>bindArg ctx' rest s.
                       scalarsRegistered c2
                       \<and> bindArg (compilation s)
                            (MultipleConcatenationExpressionSyntax expression concatenation) ctx'
                            {InsideConcatenation} = (e, c2) \<longrightarrow>
                       concatLoop bindArg ctx'
                         (MultipleConcatenationExpressionSyntax expression concatenation # rest) s
                       = concatLoop bindArg ctx' rest
                           (s\<lparr>buffer := buffer s @ [e], compilation := c2\<rparr>))))"
proof (intro conjI impI)
  assume "InsideConcatenation \<notin> bindFlags ctx"
  from replication_zero_outside [where selfDetermined = selfDetermined, OF bl br gl gr cv z nu this]
  show "\<exists>e c'. ReplicationExpression_fromSyntax selfDetermined c expression concatenation ctx
                      = Inr (e, c')
                    \<and> bad c' e \<and> diags c' = diags c2 @ [ReplicationZeroOutsideConcat]"
    using badExpr_bad by (simp add: addError_def)
next
  assume "InsideConcatenation \<in> bindFlags ctx"
  from replication_zero_inside [where selfDetermined = selfDetermined, OF bl br gl gr cv z nu this]
  have r: "ReplicationExpression_fromSyntax selfDetermined c expression concatenation ctx
     = Inr (Expression Replication getVoidType None None [leftE, rightE], c2)" .
  have "concatLoop bindArg ctx'
          (MultipleConcatenationExpressionSyntax expression concatenation # rest) s
        = concatLoop bindArg ctx' rest
            (s\<lparr>buffer := buffer s @ [Expression Replication getVoidType None None [leftE, rightE]],
               compilation := c2\<rparr>)"
    if "scalarsRegistered c2
        \<and> bindArg (compilation s)
             (MultipleConcatenationExpressionSyntax expression concatenation) ctx'
             {InsideConcatenation} = (Expression Replication getVoidType None None [leftE, rightE], c2)"
    for bindArg ctx' rest s
    using concatLoop_void [of c2 "MultipleConcatenationExpressionSyntax expression concatenation"
        bindArg s ctx' None None "[leftE, rightE]" rest] that
    by simp
  then show "\<exists>e. ReplicationExpression_fromSyntax selfDetermined c expression concatenation ctx
                    = Inr (e, c2)
                 \<and> exprKind e = Replication \<and> exprType e = getVoidType
                 \<and> (\<forall>bindArg ctx' rest s.
                       scalarsRegistered c2
                       \<and> bindArg (compilation s)
                            (MultipleConcatenationExpressionSyntax expression concatenation) ctx'
                            {InsideConcatenation} = (e, c2) \<longrightarrow>
                       concatLoop bindArg ctx'
                         (MultipleConcatenationExpressionSyntax expression concatenation # rest) s
                       = concatLoop bindArg ctx' rest
                           (s\<lparr>buffer := buffer s @ [e], compilation := c2\<rparr>))"
    using r by simp
qed

theorem replication_zero_count_witness:
  "(\<lambda>c s ctx fl. if InsideConcatenation \<in> fl
                  then (Expression Replication getVoidType None None [zeroLiteral, byteValue], c)
                  else if IntegralConstant \<in> fl then (zeroLiteral, c) else (byteValue, c))
       newCompilation (OtherExpressionSyntax 0) \<lparr>bindFlags = {}\<rparr> {IntegralConstant}
     = (zeroLiteral, newCompilation)
   \<and> \<not> bad newCompilation zeroLiteral \<and> \<not> bad newCompilation byteValue
   \<and> exprConstant zeroLiteral
       = Some (IntegerValue \<lparr>svBitWidth = 32, svSigned = True, svUnknown = False, svValue = 0\<rparr>)
   \<and> (\<exists>e c'. ReplicationExpression_fromSyntax
                 (\<lambda>c s ctx fl. if InsideConcatenation \<in> fl
                    then (Expression Replication getVoidType None None [zeroLiteral, byteValue], c)
                    else if IntegralConstant \<in> fl then (zeroLiteral, c) else (byteValue, c))
                 newCompilation (OtherExpressionSyntax 0)
                 (ConcatenationExpressionSyntax [OtherExpressionSyntax 1]) \<lparr>bindFlags = {}\<rparr>
               = Inr (e, c')
             \<and> bad c' e \<and> diags c' = [ReplicationZeroOutsideConcat])
   \<and> ReplicationExpression_fromSyntax
         (\<lambda>c s ctx fl. if InsideConcatenation \<in> fl
            then (Expression Replication getVoidType None None [zeroLiteral, byteValue], c)
            else if IntegralConstant \<in> fl then (zeroLiteral, c) else (byteValue, c))
         newCompilation (OtherExpressionSyntax 0)
         (ConcatenationExpressionSyntax [OtherExpressionSyntax 1])
         \<lparr>bindFlags = {InsideConcatenation}\<rparr>
       = Inr (Expression Replication getVoidType None None [zeroLiteral, byteValue], newCompilation)
   \<and> totalWidth
         (concatLoop
            (\<lambda>c s ctx fl. if InsideConcatenation \<in> fl
               then (Expression Replication getVoidType None None [zeroLiteral, byteValue], c)
               else if IntegralConstant \<in> fl then (zeroLiteral, c) else (byteValue, c))
            \<lparr>bindFlags = {}\<rparr>
            [OtherExpressionSyntax 5,
             MultipleConcatenationExpressionSyntax (OtherExpressionSyntax 0)
               (ConcatenationExpressionSyntax [OtherExpressionSyntax 1])]
            \<lparr>errored = False, flags = {}, totalWidth = 0, buffer = [],
              compilation = newCompilation\<rparr>) = 8"
proof -
  define sd where "sd = (\<lambda>(c::Compilation) (s::ExpressionSyntax) (ctx::BindContext) fl.
       if InsideConcatenation \<in> fl
       then (Expression Replication getVoidType None None [zeroLiteral, byteValue], c)
       else if IntegralConstant \<in> fl then (zeroLiteral, c) else (byteValue, c))"
  define v where "v = \<lparr>svBitWidth = 32, svSigned = True, svUnknown = False, svValue = 0\<rparr>"
  have cv: "exprConstant zeroLiteral = Some (IntegerValue v)" by (simp add: zeroLiteral_def v_def)
  have z: "svValue v = 0" and nu: "\<not> svUnknown v" by (simp_all add: v_def)
  have bl: "sd newCompilation (OtherExpressionSyntax 0) ctx {IntegralConstant}
              = (zeroLiteral, newCompilation)" for ctx
    by (simp add: sd_def)
  have br: "sd newCompilation (ConcatenationExpressionSyntax [OtherExpressionSyntax 1]) ctx {}
              = (byteValue, newCompilation)" for ctx
    by (simp add: sd_def)
  note out = replication_zero_count
      [where selfDetermined = sd and ctx = "\<lparr>bindFlags = {}\<rparr>",
       OF bl br zeroLiteral_good byteValue_good cv z nu]
  note ins = replication_zero_count
      [where selfDetermined = sd and ctx = "\<lparr>bindFlags = {InsideConcatenation}\<rparr>",
       OF bl br zeroLiteral_good byteValue_good cv z nu]
  have o: "\<exists>e c'. ReplicationExpression_fromSyntax sd newCompilation (OtherExpressionSyntax 0)
                 (ConcatenationExpressionSyntax [OtherExpressionSyntax 1]) \<lparr>bindFlags = {}\<rparr>
               = Inr (e, c')
             \<and> bad c' e \<and> diags c' = [ReplicationZeroOutsideConcat]"
    using out by (simp add: newCompilation_def)
  have r: "ReplicationExpression_fromSyntax sd newCompilation (OtherExpressionSyntax 0)
         (ConcatenationExpressionSyntax [OtherExpressionSyntax 1])
         \<lparr>bindFlags = {InsideConcatenation}\<rparr>
       = Inr (Expression Replication getVoidType None None [zeroLiteral, byteValue], newCompilation)"
    using replication_zero_inside
      [where selfDetermined = sd and ctx = "\<lparr>bindFlags = {InsideConcatenation}\<rparr>",
       OF bl br zeroLiteral_good byteValue_good cv z nu]
    by simp
  have step: "concatLoop sd ctx'
                (MultipleConcatenationExpressionSyntax (OtherExpressionSyntax 0)
                   (ConcatenationExpressionSyntax [OtherExpressionSyntax 1]) # rest) s
              = concatLoop sd ctx' rest
                  (s\<lparr>buffer := buffer s @ [Expression Replication getVoidType None None
                                              [zeroLiteral, byteValue]],
                     compilation := newCompilation\<rparr>)"
    if "compilation s = newCompilation" for ctx' rest s
    using ins r scalarsRegistered_new that by (simp add: sd_def)
  have db: "deref newCompilation getByteType = PredefinedIntegerType Byte"
    by (simp add: deref_def newCompilation_def memberTypes_def getByteType_def)
  have first: "concatLoop sd \<lparr>bindFlags = {}\<rparr> (OtherExpressionSyntax 5 # rest)
          \<lparr>errored = False, flags = {}, totalWidth = 0, buffer = [], compilation = newCompilation\<rparr>
        = concatLoop sd \<lparr>bindFlags = {}\<rparr> rest
          \<lparr>errored = False, flags = {}, totalWidth = 8, buffer = [byteValue],
            compilation = newCompilation\<rparr>" for rest
    using byteValue_good
    by (simp add: sd_def Let_def byteValue_def db isVoid_def)
  have "concatLoop sd \<lparr>bindFlags = {}\<rparr>
            [OtherExpressionSyntax 5,
             MultipleConcatenationExpressionSyntax (OtherExpressionSyntax 0)
               (ConcatenationExpressionSyntax [OtherExpressionSyntax 1])]
            \<lparr>errored = False, flags = {}, totalWidth = 0, buffer = [],
              compilation = newCompilation\<rparr>
        = concatLoop sd \<lparr>bindFlags = {}\<rparr>
            [MultipleConcatenationExpressionSyntax (OtherExpressionSyntax 0)
               (ConcatenationExpressionSyntax [OtherExpressionSyntax 1])]
            \<lparr>errored = False, flags = {}, totalWidth = 8, buffer = [byteValue],
              compilation = newCompilation\<rparr>"
    by (rule first)
  also have "\<dots> = concatLoop sd \<lparr>bindFlags = {}\<rparr> []
            (\<lparr>errored = False, flags = {}, totalWidth = 8, buffer = [byteValue],
               compilation = newCompilation\<rparr>
              \<lparr>buffer := buffer \<lparr>errored = False, flags = {}, totalWidth = 8,
                                  buffer = [byteValue], compilation = newCompilation\<rparr>
                         @ [Expression Replication getVoidType None None [zeroLiteral, byteValue]],
               compilation := newCompilation\<rparr>)"
    by (rule step) simp
  finally have tw: "totalWidth (concatLoop sd \<lparr>bindFlags = {}\<rparr>
            [OtherExpressionSyntax 5,
             MultipleConcatenationExpressionSyntax (OtherExpressionSyntax 0)
               (ConcatenationExpressionSyntax [OtherExpressionSyntax 1])]
            \<lparr>errored = False, flags = {}, totalWidth = 0, buffer = [],
              compilation = newCompilation\<rparr>) = 8"
    by simp
  show ?thesis
    using o r tw zeroLiteral_good byteValue_good
    unfolding sd_def by (simp add: zeroLiteral_def)
qed

text \<open>
  Claim C7 as stated fails when the operand of the replication does not bind: with a
  count that evaluates to zero and a bad operand, \<open>ReplicationExpression::fromSyntax\<close>
  returns a bad expression before it looks at the count. Outside a concatenation no
  \<open>ReplicationZeroOutsideConcat\<close> is added, and inside a concatenation the type of the
  result is the error type, not void.
\<close>

theorem replication_bad_operand_counterexample:
  "ReplicationExpression_fromSyntax
     (\<lambda>c s ctx fl. if IntegralConstant \<in> fl then (zeroLiteral, c) else (badExpr None, c))
     newCompilation (OtherExpressionSyntax 0) (ConcatenationExpressionSyntax [OtherExpressionSyntax 1])
     \<lparr>bindFlags = {}\<rparr>
   = Inr (badExpr (Some (Expression Replication getErrorType None None [zeroLiteral, badExpr None])),
          newCompilation)
   \<and> diags newCompilation = []
   \<and> ReplicationExpression_fromSyntax
     (\<lambda>c s ctx fl. if IntegralConstant \<in> fl then (zeroLiteral, c) else (badExpr None, c))
     newCompilation (OtherExpressionSyntax 0) (ConcatenationExpressionSyntax [OtherExpressionSyntax 1])
     \<lparr>bindFlags = {InsideConcatenation}\<rparr>
   = Inr (badExpr (Some (Expression Replication getErrorType None None [zeroLiteral, badExpr None])),
          newCompilation)
   \<and> exprType (badExpr (Some (Expression Replication getErrorType None None
                                 [zeroLiteral, badExpr None]))) \<noteq> getVoidType"
  using badExpr_bad [of newCompilation None]
  by (simp add: ReplicationExpression_fromSyntax_def Let_def)
     (simp add: newCompilation_def badExpr_def getErrorType_def getVoidType_def)

section \<open>Finalization is a one-way latch\<close>

text \<open>
  Claim C3. Once \<open>getRoot\<close> has been called, whatever calls of \<open>addSyntaxTree\<close>, \<open>getRoot\<close>
  and \<open>getType\<close> follow, a call of \<open>addSyntaxTree\<close> raises the logic error "The compilation
  has already been finalized" and leaves the compilation as it was; in particular no
  diagnostic is appended.
\<close>

theorem finalization_latch:
  "addSyntaxTree addMembers (foldl (afterCall addMembers) (snd (getRoot c)) calls) tree
     = (Some (LogicError ''The compilation has already been finalized''),
        foldl (afterCall addMembers) (snd (getRoot c)) calls)
   \<and> diags (snd (addSyntaxTree addMembers
                   (foldl (afterCall addMembers) (snd (getRoot c)) calls) tree))
     = diags (foldl (afterCall addMembers) (snd (getRoot c)) calls)"
  using addSyntaxTree_finalized [OF calls_finalized [OF getRoot_finalizes]]
  by simp

section \<open>Top-level instances\<close>

text \<open>
  Claim C6. Let syntax trees be added to a fresh compilation, and let \<open>getRoot\<close> finalize
  it. Then the list of top-level instances of the root is sorted by name, and every module
  definition of the definition map whose name is not the type name of a hierarchy
  instantiation anywhere in the trees has exactly one instance in that list, which is
  also a member of the root. The instances are part of the root that the compilation
  keeps, and a second \<open>getRoot\<close> returns the same root and changes nothing. (The absent
  \<open>Scope::addMembers\<close> is any function that leaves the set of instantiated names and the
  finalization flag alone; the definition map is a map, so its keys are distinct.)
\<close>

theorem top_level_instances:
  assumes fr: "frame addMembers"
    and c: "c = addSyntaxTrees addMembers newCompilation trees"
    and dist: "distinct (map fst (definitionMap c))"
  shows "sorted (map instName (topInstances (fst (getRoot c))))
       \<and> (\<forall>key d. (key, d) \<in> set (definitionMap c) \<and> defSyntaxKind d = ModuleDeclaration
                   \<and> defName d \<notin> (\<Union>tree \<in> set trees. referencedNames (treeRoot tree)) \<longrightarrow>
            filter (\<lambda>i. instDefinition i = key) (topInstances (fst (getRoot c)))
              = [instantiate (defName d) key]
            \<and> InstanceMember (instantiate (defName d) key) \<in> set (rootMembers (fst (getRoot c))))
       \<and> root (snd (getRoot c)) = fst (getRoot c)
       \<and> getRoot (snd (getRoot c)) = getRoot c"
proof -
  have fa: "instantiatedNames c \<subseteq> (\<Union>tree \<in> set trees. referencedNames (treeRoot tree))"
    and nf: "\<not> finalized c"
    using addSyntaxTrees_frame [OF fr, of newCompilation trees] c
    by (simp_all add: newCompilation_def)
  define new where "new = newInstances (instantiatedNames c) (definitionMap c)"
  have g: "getRoot c =
     ((root c)\<lparr>rootMembers := rootMembers (root c) @ map InstanceMember new,
               topInstances := sort_key instName new,
               rootCompilationUnits := compilationUnits c\<rparr>,
      c\<lparr>root := (root c)\<lparr>rootMembers := rootMembers (root c) @ map InstanceMember new,
               topInstances := sort_key instName new,
               rootCompilationUnits := compilationUnits c\<rparr>,
        finalized := True\<rparr>)"
    using getRoot_first [OF nf] by (simp add: new_def)
  have s: "sorted (map instName (topInstances (fst (getRoot c))))"
    by (simp add: g)
  have one: "filter (\<lambda>i. instDefinition i = key) (topInstances (fst (getRoot c)))
              = [instantiate (defName d) key]
            \<and> InstanceMember (instantiate (defName d) key) \<in> set (rootMembers (fst (getRoot c)))"
    if h: "(key, d) \<in> set (definitionMap c) \<and> defSyntaxKind d = ModuleDeclaration
                   \<and> defName d \<notin> (\<Union>tree \<in> set trees. referencedNames (treeRoot tree))"
    for key d
  proof -
    have nn: "defName d \<notin> instantiatedNames c" using h fa by blast
    have f: "filter (\<lambda>i. instDefinition i = key) new = [instantiate (defName d) key]"
      unfolding new_def using newInstances_once [OF dist _ _ nn] h by blast
    have "instantiate (defName d) key \<in> set (filter (\<lambda>i. instDefinition i = key) new)"
      by (simp add: f)
    then have "instantiate (defName d) key \<in> set new" by simp
    then show ?thesis using f by (simp add: g filter_sort)
  qed
  have again: "getRoot (snd (getRoot c)) = getRoot c"
    using getRoot_after [of "snd (getRoot c)"] getRoot_finalizes [of c] by (simp add: g)
  show ?thesis using s one again by (simp add: g)
qed

theorem top_level_instances_witness:
  "frame registerMembers
   \<and> distinct (map fst (definitionMap (addSyntaxTrees registerMembers newCompilation [exampleTree])))
   \<and> ((''top'', 0), \<lparr>defName = ''top'', defSyntaxKind = ModuleDeclaration\<rparr>)
        \<in> set (definitionMap (addSyntaxTrees registerMembers newCompilation [exampleTree]))
   \<and> ''top'' \<notin> (\<Union>tree \<in> set [exampleTree]. referencedNames (treeRoot tree))
   \<and> sorted (map instName (topInstances (fst (getRoot
         (addSyntaxTrees registerMembers newCompilation [exampleTree])))))
   \<and> filter (\<lambda>i. instDefinition i = (''top'', 0))
        (topInstances (fst (getRoot (addSyntaxTrees registerMembers newCompilation [exampleTree]))))
      = [instantiate ''top'' (''top'', 0)]
   \<and> InstanceMember (instantiate ''top'' (''top'', 0))
        \<in> set (rootMembers (fst (getRoot
              (addSyntaxTrees registerMembers newCompilation [exampleTree]))))
   \<and> topInstances (fst (getRoot (addSyntaxTrees registerMembers newCompilation [exampleTree])))
      = [instantiate ''aux'' (''aux'', 0), instantiate ''top'' (''top'', 0)]"
proof -
  define c where "c = addSyntaxTrees registerMembers newCompilation [exampleTree]"
  have dm: "definitionMap c
     = [((''top'', 0), \<lparr>defName = ''top'', defSyntaxKind = ModuleDeclaration\<rparr>),
        ((''sub'', 0), \<lparr>defName = ''sub'', defSyntaxKind = ModuleDeclaration\<rparr>),
        ((''aux'', 0), \<lparr>defName = ''aux'', defSyntaxKind = ModuleDeclaration\<rparr>)]"
    using example_compilation by (simp add: c_def)
  have d: "distinct (map fst (definitionMap c))" by (simp add: dm)
  have m: "((''top'', 0), \<lparr>defName = ''top'', defSyntaxKind = ModuleDeclaration\<rparr>)
        \<in> set (definitionMap c)" by (simp add: dm)
  have n: "''top'' \<notin> (\<Union>tree \<in> set [exampleTree]. referencedNames (treeRoot tree))"
    by (simp add: exampleTree_def)
  note t = top_level_instances [OF frame_registerMembers c_def d]
  have s: "sorted (map instName (topInstances (fst (getRoot c))))" using t by blast
  have a: "\<forall>key d. (key, d) \<in> set (definitionMap c) \<and> defSyntaxKind d = ModuleDeclaration
                   \<and> defName d \<notin> (\<Union>tree \<in> set [exampleTree]. referencedNames (treeRoot tree)) \<longrightarrow>
            filter (\<lambda>i. instDefinition i = key) (topInstances (fst (getRoot c)))
              = [instantiate (defName d) key]
            \<and> InstanceMember (instantiate (defName d) key) \<in> set (rootMembers (fst (getRoot c)))"
    using t by blast
  have i: "filter (\<lambda>i. instDefinition i = (''top'', 0)) (topInstances (fst (getRoot c)))
              = [instantiate ''top'' (''top'', 0)]
            \<and> InstanceMember (instantiate ''top'' (''top'', 0)) \<in> set (rootMembers (fst (getRoot c)))"
    using a [rule_format, of "(''top'', 0)" "\<lparr>defName = ''top'', defSyntaxKind = ModuleDeclaration\<rparr>"]
      m n by simp
  show ?thesis
    using frame_registerMembers d m n s i example_top_instances
    unfolding c_def by blast
qed

section \<open>C9: the cap on lexer errors\<close>




section \<open>C10: the end of the file absorbs\<close>

text \<open>
  Claim C10. Let the lexer stand at a NUL at the true end of its buffer, which is where
  \<open>lexToken\<close> leaves it when it has read the final NUL and backed up. Then every further call
  of \<open>lex()\<close> in normal mode returns \<open>EndOfFile\<close>: after any number \<open>n\<close> of such calls the next
  one returns \<open>EndOfFile\<close>, and the position, the buffer and the diagnostics are those before
  the first call.
\<close>

theorem end_of_file_absorbing:
  assumes "peek l = NUL" and "reallyAtEnd l"
  shows "tokenKind (fst (lexer_lex lo li NormalMode ((nextLexer lo li ^^ n) l))) = EndOfFile
       \<and> sourceBuffer ((nextLexer lo li ^^ n) l) = sourceBuffer l
       \<and> source ((nextLexer lo li ^^ n) l) = source l
       \<and> diagnostics ((nextLexer lo li ^^ n) l) = diagnostics l"
proof -
  have inv: "peek ((nextLexer lo li ^^ n) l) = NUL \<and> reallyAtEnd ((nextLexer lo li ^^ n) l)
           \<and> sourceBuffer ((nextLexer lo li ^^ n) l) = sourceBuffer l
           \<and> source ((nextLexer lo li ^^ n) l) = source l
           \<and> diagnostics ((nextLexer lo li ^^ n) l) = diagnostics l"
  proof (induction n)
    case 0
    from assms show ?case by simp
  next
    case (Suc n)
    let ?l = "(nextLexer lo li ^^ n) l"
    from Suc have p: "peek ?l = NUL" and r: "reallyAtEnd ?l" by simp_all
    have "nextLexer lo li ?l = ?l\<lparr>marker := sourceBuffer ?l, onNewLine := False\<rparr>"
      by (simp add: nextLexer_def lex_at_end [OF p r])
    with Suc show ?case
      by (auto simp: peek_def peekAt_def reallyAtEnd_def split: if_splits)
  qed
  then have "peek ((nextLexer lo li ^^ n) l) = NUL" and "reallyAtEnd ((nextLexer lo li ^^ n) l)"
    by simp_all
  from lex_at_end [OF this] inv show ?thesis by simp
qed

text \<open>An instance: the buffer \<open>a\<close>, NUL with the lexer after the \<open>a\<close>, and four calls.\<close>

theorem end_of_file_absorbing_witness:
  "peek (advance (lexerOn [CHR ''a'', NUL] 64) 1) = NUL
   \<and> reallyAtEnd (advance (lexerOn [CHR ''a'', NUL] 64) 1)
   \<and> tokenKind (fst (lexer_lex lexNonPrintable lexNoFileName NormalMode
        ((nextLexer lexNonPrintable lexNoFileName ^^ 3) (advance (lexerOn [CHR ''a'', NUL] 64) 1))))
       = EndOfFile
   \<and> sourceBuffer ((nextLexer lexNonPrintable lexNoFileName ^^ 3) (advance (lexerOn [CHR ''a'', NUL] 64) 1)) = 1"
  using end_of_file_absorbing [of "advance (lexerOn [CHR ''a'', NUL] 64) 1" lexNonPrintable lexNoFileName 3]
  by (simp add: peek_def peekAt_def reallyAtEnd_def advance_def lexerOn_def)

end
